(* ===== verification/Prelude.thy ===== *)
theory Prelude
  imports Main "HOL-Library.Word"
begin

unbundle bit_operations_syntax

text \<open>
  What the component theories share: the machine integers of the Go sources as words, the
  result type of fallible operations, the collections of simplification rules that the component
  proofs use, and generic lemmas on folds, lists and words.

  Go strings are byte sequences, and so is Isabelle's \<^typ>\<open>string\<close> (a list of
  eight-bit characters). A Go slice that the code only reads is a list; a Go map is a partial
  function; an error return is a value of \<open>err + 'a\<close> with the error on the left.
\<close>

type_synonym byte = "8 word"
type_synonym u8 = "8 word"
type_synonym u16 = "16 word"
type_synonym u32 = "32 word"
type_synonym u64 = "64 word"

text \<open>Errors carry the constant part of the message the code builds (the values it formats into the
  message are left out); \<open>Cause\<close> is \<^verbatim>\<open>E.Cause\<close>, a message put in front of an
  underlying error, and \<^verbatim>\<open>E.Cause1\<close>, an error in that place; \<open>Errors\<close> is
  \<^verbatim>\<open>E.Errors\<close>, several errors in one. A panic is the error value \<open>Panic\<close>, which no \<open>Cause\<close> is put in
  front of.\<close>

datatype err = Err string | Cause string err | Errors "err list" | Panic string

type_synonym 'a result = "err + 'a"

text \<open>The early return of Go's \<^verbatim>\<open>if err != nil { return err }\<close>.\<close>

definition bind_result :: "'a result \<Rightarrow> ('a \<Rightarrow> 'b result) \<Rightarrow> 'b result" where
  "bind_result r f = (case r of Inl e \<Rightarrow> Inl e | Inr x \<Rightarrow> f x)"

definition with_cause :: "string \<Rightarrow> 'a result \<Rightarrow> 'a result" where
  "with_cause msg r =
     (case r of Inl (Panic p) \<Rightarrow> Inl (Panic p) | Inl e \<Rightarrow> Inl (Cause msg e) | Inr x \<Rightarrow> Inr x)"

named_theorems state_simps \<open>membership in a set of match states\<close>
named_theorems rule_simps \<open>unfolding of the rule matching functions\<close>
named_theorems build_simps \<open>unfolding of the rule constructors\<close>

lemma bind_result_simps [simp]:
  "bind_result (Inl e) f = Inl e"
  "bind_result (Inr x) f = f x"
  by (simp_all add: bind_result_def)

lemma bind_result_Inr_iff:
  "bind_result r f = Inr y \<longleftrightarrow> (\<exists>x. r = Inr x \<and> f x = Inr y)"
  by (cases r) auto

lemma with_cause_simps [simp]:
  "with_cause msg (Inl (Err m)) = Inl (Cause msg (Err m))"
  "with_cause msg (Inl (Cause m e)) = Inl (Cause msg (Cause m e))"
  "with_cause msg (Inl (Errors es)) = Inl (Cause msg (Errors es))"
  "with_cause msg (Inl (Panic p)) = Inl (Panic p)"
  "with_cause msg (Inr x) = Inr x"
  by (simp_all add: with_cause_def)

lemma with_cause_Inr_iff [simp]: "with_cause msg r = Inr y \<longleftrightarrow> r = Inr y"
  by (auto simp: with_cause_def split: sum.splits err.splits)

text \<open>A Go slice that the code compares with nil: \<open>None\<close> is nil.\<close>

type_synonym 'a slice = "'a list option"

definition slice :: "'a slice \<Rightarrow> 'a list" where
  "slice s = (case s of None \<Rightarrow> [] | Some xs \<Rightarrow> xs)"

lemma slice_simps [simp]: "slice None = []" "slice (Some xs) = xs"
  by (simp_all add: slice_def)

text \<open>Times and durations are in nanoseconds.\<close>

definition second_ns :: int where "second_ns = 1000000000"

text \<open>A loop that only ever adds to an accumulator is described by what each round adds.\<close>

lemma fold_collect:
  assumes "\<And>x acc. x \<in> set xs \<Longrightarrow> P (f x acc) \<longleftrightarrow> P acc \<or> Q x"
  shows "P (fold f xs acc) \<longleftrightarrow> P acc \<or> (\<exists>x\<in>set xs. Q x)"
  using assms
proof (induction xs arbitrary: acc)
  case (Cons x xs)
  have "P (fold f xs (f x acc)) \<longleftrightarrow> P (f x acc) \<or> (\<exists>y\<in>set xs. Q y)"
    by (rule Cons.IH) (simp add: Cons.prems)
  then show ?case
    by (simp add: Cons.prems disj_assoc)
qed simp

text \<open>Words below sixteen are closed under bitwise disjunction.\<close>

lemma take_bit_4_less_16: "take_bit 4 (x :: 8 word) = x \<longleftrightarrow> x < 16"
proof
  assume *: "take_bit 4 x = x"
  have "uint (take_bit 4 x) < 2 ^ 4"
    using take_bit_int_less_exp [of 4 "uint x"] by (simp add: unsigned_take_bit_eq)
  with * have "uint x < 16" by simp
  then show "x < 16" by (simp add: word_less_def)
next
  assume "x < 16"
  then have "uint x < 2 ^ 4" by (simp add: word_less_def)
  then have "take_bit 4 (uint x) = uint x"
    by (simp add: take_bit_int_eq_self_iff)
  then show "take_bit 4 x = x"
    by (metis unsigned_take_bit_eq word_uint_eq_iff)
qed

lemma or_less_16 [simp, intro]: "(x :: 8 word) < 16 \<Longrightarrow> y < 16 \<Longrightarrow> x OR y < 16"
  by (simp flip: take_bit_4_less_16)

lemma unat_less_16: "(x :: 8 word) < 16 \<longleftrightarrow> unat x < 16"
  by (simp add: word_less_nat_alt)

end
