(* ===== verification/Netip.thy ===== *)
theory Netip
  imports Prelude
begin

unbundle bit_operations_syntax

text \<open>
  What the sources use of Go's \<^verbatim>\<open>net/netip\<close> (addresses and prefixes) and of
  \<^verbatim>\<open>strings\<close>, \<^verbatim>\<open>strconv\<close> and \<^verbatim>\<open>path/filepath\<close>, as Go
  defines them. An address keeps its width and, for IPv6, its zone; all invalid addresses are the
  one value \<open>AddrInvalid\<close>. A prefix whose length is not valid for its address has no
  length.
\<close>

section \<open>Addresses\<close>

datatype addr = AddrInvalid | Addr4 "32 word" | Addr6 "128 word" string

definition addr_IsValid :: "addr \<Rightarrow> bool" where
  "addr_IsValid a \<longleftrightarrow> a \<noteq> AddrInvalid"

fun addr_Is4 :: "addr \<Rightarrow> bool" where
  "addr_Is4 (Addr4 _) = True"
| "addr_Is4 _ = False"

fun addr_Is6 :: "addr \<Rightarrow> bool" where
  "addr_Is6 (Addr6 _ _) = True"
| "addr_Is6 _ = False"

fun addr_BitLen :: "addr \<Rightarrow> nat" where
  "addr_BitLen AddrInvalid = 0"
| "addr_BitLen (Addr4 _) = 32"
| "addr_BitLen (Addr6 _ _) = 128"

fun addr_hasZone :: "addr \<Rightarrow> bool" where
  "addr_hasZone (Addr6 _ z) = (z \<noteq> [])"
| "addr_hasZone _ = False"

fun addr_withoutZone :: "addr \<Rightarrow> addr" where
  "addr_withoutZone (Addr6 w z) = Addr6 w []"
| "addr_withoutZone a = a"

text \<open>\<^verbatim>\<open>Next\<close> is the following address, or the zero \<^verbatim>\<open>Addr\<close> on overflow.\<close>

fun addr_Next :: "addr \<Rightarrow> addr" where
  "addr_Next AddrInvalid = AddrInvalid"
| "addr_Next (Addr4 w) = (if w + 1 = 0 then AddrInvalid else Addr4 (w + 1))"
| "addr_Next (Addr6 w z) = (if w + 1 = 0 then AddrInvalid else Addr6 (w + 1) z)"

fun addr_Is4In6 :: "addr \<Rightarrow> bool" where
  "addr_Is4In6 (Addr6 w _) = (drop_bit 32 w = 0xffff)"
| "addr_Is4In6 _ = False"

fun addr_Unmap :: "addr \<Rightarrow> addr" where
  "addr_Unmap (Addr6 w z) = (if drop_bit 32 w = 0xffff then Addr4 (ucast w) else Addr6 w z)"
| "addr_Unmap a = a"

text \<open>The bytes of an address, most significant first.\<close>

definition word_bytes :: "nat \<Rightarrow> 'a::len word \<Rightarrow> byte list" where
  "word_bytes n w = map (\<lambda>i. ucast (drop_bit (8 * i) w)) (rev [0..<n])"

fun addr_AsSlice :: "addr \<Rightarrow> byte list" where
  "addr_AsSlice AddrInvalid = []"
| "addr_AsSlice (Addr4 w) = word_bytes 4 w"
| "addr_AsSlice (Addr6 w _) = word_bytes 16 w"

section \<open>Prefixes\<close>

datatype prefix = Prefix (prefix_Addr: addr) (prefix_Bits: "nat option")

definition prefix_zero :: prefix where
  "prefix_zero = Prefix AddrInvalid None"

definition PrefixFrom :: "addr \<Rightarrow> nat \<Rightarrow> prefix" where
  "PrefixFrom ip bits =
     Prefix (addr_withoutZone ip)
       (if addr_IsValid ip \<and> bits \<le> addr_BitLen ip then Some bits else None)"

definition prefix_IsValid :: "prefix \<Rightarrow> bool" where
  "prefix_IsValid p \<longleftrightarrow> prefix_Bits p \<noteq> None"

fun same_network :: "nat \<Rightarrow> addr \<Rightarrow> addr \<Rightarrow> bool" where
  "same_network n (Addr4 a) (Addr4 b) = (drop_bit (32 - n) (a XOR b) = 0)"
| "same_network n (Addr6 a _) (Addr6 b _) = (drop_bit (128 - n) (a XOR b) = 0)"
| "same_network n _ _ = False"

definition prefix_Contains :: "prefix \<Rightarrow> addr \<Rightarrow> bool" where
  "prefix_Contains p ip =
     (case prefix_Bits p of
        None \<Rightarrow> False
      | Some bits \<Rightarrow> \<not> addr_hasZone ip \<and> same_network bits (prefix_Addr p) ip)"

definition prefix_Overlaps :: "prefix \<Rightarrow> prefix \<Rightarrow> bool" where
  "prefix_Overlaps p q =
     (case (prefix_Bits p, prefix_Bits q) of
        (Some pb, Some qb) \<Rightarrow>
          p = q \<or> addr_Is4 (prefix_Addr p) = addr_Is4 (prefix_Addr q) \<and>
            (min pb qb = 0 \<or> same_network (min pb qb) (prefix_Addr p) (prefix_Addr q))
      | _ \<Rightarrow> False)"

lemma same_network_sym: "same_network n a b = same_network n b a"
  by (cases "(n, a, b)" rule: same_network.cases) (simp_all add: xor.commute)

lemma prefix_Overlaps_sym: "prefix_Overlaps p q = prefix_Overlaps q p"
  unfolding prefix_Overlaps_def
  by (auto split: option.splits simp: min.commute dest: same_network_sym [THEN iffD1])

lemma same_network_refl: "addr_IsValid a \<Longrightarrow> same_network n a a"
  by (cases a) (simp_all add: addr_IsValid_def)

lemma prefix_Contains_own:
  "prefix_IsValid p \<Longrightarrow> addr_IsValid (prefix_Addr p) \<Longrightarrow> \<not> addr_hasZone (prefix_Addr p)
   \<Longrightarrow> prefix_Contains p (prefix_Addr p)"
  by (auto simp: prefix_Contains_def prefix_IsValid_def same_network_refl)

lemma same_network_Is4: "same_network n a b \<Longrightarrow> addr_Is4 a = addr_Is4 b"
  by (cases "(n, a, b)" rule: same_network.cases) simp_all

section \<open>Strings\<close>

definition is_ascii :: "string \<Rightarrow> bool" where
  "is_ascii s = list_all (\<lambda>c. (of_char c :: nat) < 128) s"

definition ascii_lower :: "char \<Rightarrow> char" where
  "ascii_lower c = (if 65 \<le> (of_char c :: nat) \<and> (of_char c :: nat) \<le> 90 then char_of (of_char c + 32 :: nat) else c)"

text \<open>\<^verbatim>\<open>strings.Contains\<close>, \<^verbatim>\<open>strings.Index\<close> of one byte, and
  \<^verbatim>\<open>filepath.Base\<close> (Unix).\<close>

definition has_prefix :: "string \<Rightarrow> string \<Rightarrow> bool" where
  "has_prefix s p \<longleftrightarrow> take (length p) s = p"

definition has_suffix :: "string \<Rightarrow> string \<Rightarrow> bool" where
  "has_suffix s p \<longleftrightarrow> length p \<le> length s \<and> drop (length s - length p) s = p"

fun str_contains :: "string \<Rightarrow> string \<Rightarrow> bool" where
  "str_contains [] k = (k = [])"
| "str_contains (c # s) k = (has_prefix (c # s) k \<or> str_contains s k)"

fun str_index :: "string \<Rightarrow> char \<Rightarrow> nat option" where
  "str_index [] c = None"
| "str_index (d # s) c = (if d = c then Some 0 else map_option Suc (str_index s c))"

definition filepath_Base :: "string \<Rightarrow> string" where
  "filepath_Base p =
     (if p = [] then ''.''
      else let stripped = rev (dropWhile (\<lambda>c. c = CHR ''/'') (rev p));
               base = rev (takeWhile (\<lambda>c. c \<noteq> CHR ''/'') (rev stripped))
           in if base = [] then ''/'' else base)"

text \<open>\<^verbatim>\<open>strconv.ParseUint(s, 10, 16)\<close>: decimal digits only, at least one, in range.\<close>

definition digit_value :: "char \<Rightarrow> nat option" where
  "digit_value c = (let n = of_char c in if 48 \<le> n \<and> n \<le> 57 then Some (n - 48) else None)"

fun parse_digits :: "nat \<Rightarrow> string \<Rightarrow> nat result" where
  "parse_digits n [] = Inr n"
| "parse_digits n (c # s) =
     (case digit_value c of
        None \<Rightarrow> Inl (Err ''invalid syntax'')
      | Some d \<Rightarrow>
          if n * 10 + d > 0xFFFF then Inl (Err ''value out of range'')
          else parse_digits (n * 10 + d) s)"

definition ParseUint16 :: "string \<Rightarrow> nat result" where
  "ParseUint16 s = (if s = [] then Inl (Err ''invalid syntax'') else parse_digits 0 s)"

lemma has_prefix_iff: "has_prefix s p \<longleftrightarrow> (\<exists>b. s = p @ b)"
  by (metis append_eq_conv_conj append_take_drop_id has_prefix_def)

lemma has_suffix_iff: "has_suffix s p \<longleftrightarrow> (\<exists>a. s = a @ p)"
proof
  assume "has_suffix s p"
  then have "s = take (length s - length p) s @ p"
    unfolding has_suffix_def by (metis append_take_drop_id)
  then show "\<exists>a. s = a @ p" ..
qed (auto simp: has_suffix_def)

lemma parse_digits_bound: "parse_digits n s = Inr m \<Longrightarrow> n < 65536 \<Longrightarrow> m < 65536"
  by (induction n s rule: parse_digits.induct) (auto split: option.splits if_splits)

lemma ParseUint16_bound: "ParseUint16 s = Inr n \<Longrightarrow> n < 65536"
  by (auto simp: ParseUint16_def split: if_splits dest: parse_digits_bound)

lemma str_contains_iff: "str_contains s k \<longleftrightarrow> (\<exists>a b. s = a @ k @ b)"
proof (induction s)
  case (Cons c s)
  have "has_prefix (c # s) k \<longleftrightarrow> (\<exists>b. c # s = k @ b)"
    by (metis append_eq_conv_conj append_take_drop_id has_prefix_def)
  moreover have "(\<exists>a b. c # s = a @ k @ b) \<longleftrightarrow> (\<exists>b. c # s = k @ b) \<or> (\<exists>a b. s = a @ k @ b)"
    by (metis append_Cons append_Nil list.inject neq_Nil_conv)
  ultimately show ?case
    using Cons.IH by simp
qed simp

end
