(* ===== verification/Metadata.thy ===== *)
theory Metadata
  imports Netip
begin

text \<open>
  The connection metadata that every component reads and the router updates
  (\<^verbatim>\<open>src/adapter/inbound.go\<close>), the DNS messages it carries, the process and network
  information it refers to (\<^verbatim>\<open>src/adapter/platform.go\<close>,
  \<^verbatim>\<open>src/adapter/network.go\<close>), and the record \<open>golib\<close> of the functions of
  packages outside the repository that the rule engine calls: they are parameters of the model.
\<close>

section \<open>Data of packages outside the repository\<close>

text \<open>\<^verbatim>\<open>M.Socksaddr\<close>, by the fields the sources construct it with.\<close>

record socksaddr =
  sa_Addr :: addr
  sa_Port :: u16
  sa_Fqdn :: string

text \<open>DNS resource records (\<^verbatim>\<open>dns.RR\<close>), as far as the sources look into them: the header
  and the data of the records they tell apart. Every other record is kept by its raw data.\<close>

datatype svcb_value = SVCBIPv4Hint "byte list list" | SVCBIPv6Hint "byte list list" | SVCBOther

datatype edns0_option =
    EDNS0_SUBNET (edns_Family: u16) (edns_SourceNetmask: u8) (edns_SourceScope: u8) (edns_Address: "byte list")
  | EDNS0_Other u16 "byte list"

datatype rdata =
    RD_A "byte list"
  | RD_AAAA "byte list"
  | RD_HTTPS "svcb_value list"
  | RD_SOA u32
  | RD_OPT "edns0_option list"
  | RD_Other "byte list"

definition TypeA :: u16 where "TypeA = 1"
definition TypeSOA :: u16 where "TypeSOA = 6"
definition TypeAAAA :: u16 where "TypeAAAA = 28"
definition TypeOPT :: u16 where "TypeOPT = 41"
definition TypeHTTPS :: u16 where "TypeHTTPS = 65"
definition ClassINET :: u16 where "ClassINET = 1"

record rr =
  rr_Name :: string
  rr_Rrtype :: u16
  rr_Class :: u16
  rr_Ttl :: u32
  rr_Data :: rdata

record question =
  q_Name :: string
  q_Qtype :: u16
  q_Qclass :: u16

record dns_msg =
  msg_Id :: u16
  msg_Response :: bool
  msg_Authoritative :: bool
  msg_RecursionDesired :: bool
  msg_RecursionAvailable :: bool
  msg_Rcode :: int
  msg_Question :: "question list"
  msg_Answer :: "rr list"
  msg_Ns :: "rr list"
  msg_Extra :: "rr list"

definition RcodeSuccess :: int where
  "RcodeSuccess = 0"

section \<open>Process and network information\<close>

record ConnectionOwner =
  ProcessID :: u32
  UserId :: int
  UserName :: string
  ProcessPath :: string
  AndroidPackageNames :: "string list"

text \<open>\<^verbatim>\<open>C.InterfaceType\<close> (\<^verbatim>\<open>src/constant/network.go\<close>).\<close>

type_synonym interface_type = u8

definition InterfaceTypeWIFI :: interface_type where "InterfaceTypeWIFI = 0"
definition InterfaceTypeCellular :: interface_type where "InterfaceTypeCellular = 1"
definition InterfaceTypeEthernet :: interface_type where "InterfaceTypeEthernet = 2"
definition InterfaceTypeOther :: interface_type where "InterfaceTypeOther = 3"

record control_interface =
  if_Name :: string
  if_Addresses :: "prefix list"

record NetworkInterface =
  ni_Interface :: control_interface
  ni_Type :: interface_type
  ni_Expensive :: bool
  ni_Constrained :: bool

record WIFIState =
  SSID :: string
  BSSID :: string

section \<open>The inbound context\<close>

text \<open>What the QUIC sniffer keeps between packets (\<^verbatim>\<open>qCryptoFragment\<close> of
  \<^verbatim>\<open>src/common/sniff/quic.go\<close>); nothing else is stored in \<^verbatim>\<open>SniffContext\<close>.\<close>

record qCryptoFragment =
  frag_offset :: u64
  frag_length :: u64
  frag_payload :: "byte list"

record InboundContext =
  Inbound :: string
  InboundType :: string
  IPVersion :: u8
  Network :: string
  Source :: socksaddr
  Destination :: socksaddr
  User :: string
  Outbound :: string
  Protocol :: string
  Domain :: string
  Client :: string
  SniffContext :: "qCryptoFragment list option"
  SnifferNames :: "string list"
  SniffError :: "err option"
  InboundDetour :: string
  LastInbound :: string
  OriginDestination :: socksaddr
  RouteOriginalDestination :: socksaddr
  UDPDisableDomainUnmapping :: bool
  UDPConnect :: bool
  UDPTimeout :: int
  TLSFragment :: bool
  TLSFragmentFallbackDelay :: int
  TLSRecordFragment :: bool
  NetworkStrategy :: "u8 option"
  NetworkType :: "interface_type list"
  FallbackNetworkType :: "interface_type list"
  FallbackDelay :: int
  DestinationAddresses :: "addr list"
  DNSResponse :: "dns_msg option"
  DestinationAddressMatchFromResponse :: bool
  ProcessInfo :: "ConnectionOwner option"
  SourceMACAddress :: "byte list option"
  SourceHostname :: string
  QueryType :: u16
  FakeIP :: bool
  IPCIDRMatchSource :: bool
  IPCIDRAcceptEmpty :: bool
  SourceAddressMatch :: bool
  SourcePortMatch :: bool
  DestinationAddressMatch :: bool
  DestinationPortMatch :: bool
  DidMatch :: bool
  IgnoreDestinationIPCIDRMatch :: bool

definition ResetRuleMatchCache :: "InboundContext \<Rightarrow> InboundContext" where
  "ResetRuleMatchCache c = c\<lparr>
     SourceAddressMatch := False,
     SourcePortMatch := False,
     DestinationAddressMatch := False,
     DestinationPortMatch := False,
     DidMatch := False\<rparr>"

definition ResetRuleCache :: "InboundContext \<Rightarrow> InboundContext" where
  "ResetRuleCache c = ResetRuleMatchCache (c\<lparr>IPCIDRMatchSource := False, IPCIDRAcceptEmpty := False\<rparr>)"

section \<open>Library functions\<close>

text \<open>
  An IP set of \<^verbatim>\<open>netipx\<close>, a domain matcher and a compiled regular expression are
  used through one method each, and are represented by it. The functions that make them, the
  predicates on socket addresses, and Unicode case mapping are fields of this record.
\<close>

type_synonym ipset = "addr \<Rightarrow> bool"
type_synonym matcher = "string \<Rightarrow> bool"

record golib =
  sa_IsIP :: "socksaddr \<Rightarrow> bool"
  sa_IsIPv4 :: "socksaddr \<Rightarrow> bool"
  sa_IsIPv6 :: "socksaddr \<Rightarrow> bool"
  sa_IsDomain :: "socksaddr \<Rightarrow> bool"
  sa_IsValid :: "socksaddr \<Rightarrow> bool"
  AddrFromIP :: "byte list \<Rightarrow> addr"
  IsPublicAddr :: "addr \<Rightarrow> bool"
  ParsePrefix :: "string \<Rightarrow> prefix result"
  ParseAddr :: "string \<Rightarrow> addr result"
  IPSetBuilder :: "(prefix + addr) list \<Rightarrow> ipset result"
  NewMatcher :: "string list \<Rightarrow> string list \<Rightarrow> matcher"
  NewAdGuardMatcher :: "string list \<Rightarrow> matcher"
  regexp_Compile :: "string \<Rightarrow> matcher result"
  ParseMAC :: "string \<Rightarrow> byte list result"
  HardwareAddr_String :: "byte list \<Rightarrow> string"
  IsDuplicate :: "rr \<Rightarrow> rr \<Rightarrow> bool"
  unicode_ToLower :: "string \<Rightarrow> string"
  unicode_EqualFold :: "string \<Rightarrow> string \<Rightarrow> bool"

text \<open>\<^verbatim>\<open>strings.ToLower\<close> and \<^verbatim>\<open>strings.EqualFold\<close> with their ASCII case
  written out.\<close>

definition ToLower :: "golib \<Rightarrow> string \<Rightarrow> string" where
  "ToLower lib s = (if is_ascii s then map ascii_lower s else unicode_ToLower lib s)"

definition EqualFold :: "golib \<Rightarrow> string \<Rightarrow> string \<Rightarrow> bool" where
  "EqualFold lib s t =
     (if is_ascii s \<and> is_ascii t then map ascii_lower s = map ascii_lower t else unicode_EqualFold lib s t)"

section \<open>Addresses of a DNS response\<close>

fun hint_addresses :: "golib \<Rightarrow> svcb_value \<Rightarrow> addr list" where
  "hint_addresses lib (SVCBIPv4Hint hint) =
     filter addr_IsValid (map (\<lambda>ip. addr_Unmap (AddrFromIP lib ip)) hint)"
| "hint_addresses lib (SVCBIPv6Hint hint) = filter addr_IsValid (map (AddrFromIP lib) hint)"
| "hint_addresses lib SVCBOther = []"

fun record_addresses :: "golib \<Rightarrow> rdata \<Rightarrow> addr list" where
  "record_addresses lib (RD_A a) = filter addr_IsValid [AddrFromIP lib a]"
| "record_addresses lib (RD_AAAA a) = filter addr_IsValid [AddrFromIP lib a]"
| "record_addresses lib (RD_HTTPS values) = concat (map (hint_addresses lib) values)"
| "record_addresses lib (RD_SOA _) = []"
| "record_addresses lib (RD_OPT _) = []"
| "record_addresses lib (RD_Other _) = []"

definition DNSResponseAddresses :: "golib \<Rightarrow> dns_msg option \<Rightarrow> addr list" where
  "DNSResponseAddresses lib response =
     (case response of
        None \<Rightarrow> []
      | Some msg \<Rightarrow>
          if msg_Rcode msg \<noteq> RcodeSuccess then []
          else concat (map (\<lambda>rawRecord. record_addresses lib (rr_Data rawRecord)) (msg_Answer msg)))"

definition DNSResponseAddressesForMatch :: "golib \<Rightarrow> InboundContext \<Rightarrow> addr list" where
  "DNSResponseAddressesForMatch lib c = DNSResponseAddresses lib (DNSResponse c)"

lemma hint_addresses_valid: "a \<in> set (hint_addresses lib h) \<Longrightarrow> addr_IsValid a"
  by (cases h) auto

lemma record_addresses_valid: "a \<in> set (record_addresses lib d) \<Longrightarrow> addr_IsValid a"
  by (cases d) (auto split: if_splits dest: hint_addresses_valid)

lemma DNSResponseAddresses_valid: "a \<in> set (DNSResponseAddresses lib r) \<Longrightarrow> addr_IsValid a"
  by (auto simp: DNSResponseAddresses_def split: option.splits if_splits dest: record_addresses_valid)

section \<open>Values for evaluation\<close>

text \<open>The zero values of the records, from which concrete inputs are made, and one instance of the
  library functions: addresses are told apart by their kind, sets of addresses contain what the
  prefixes and addresses they are built from contain, domains are compared for equality or by
  suffix, and an expression matches what contains it.\<close>

definition socksaddr_zero :: socksaddr where
  "socksaddr_zero = \<lparr>sa_Addr = AddrInvalid, sa_Port = 0, sa_Fqdn = []\<rparr>"

definition InboundContext_zero :: InboundContext where
  "InboundContext_zero = \<lparr>
     Inbound = [], InboundType = [], IPVersion = 0, Network = [], Source = socksaddr_zero,
     Destination = socksaddr_zero, User = [], Outbound = [], Protocol = [], Domain = [], Client = [],
     SniffContext = None, SnifferNames = [], SniffError = None, InboundDetour = [], LastInbound = [],
     OriginDestination = socksaddr_zero, RouteOriginalDestination = socksaddr_zero,
     UDPDisableDomainUnmapping = False, UDPConnect = False, UDPTimeout = 0, TLSFragment = False,
     TLSFragmentFallbackDelay = 0, TLSRecordFragment = False, NetworkStrategy = None,
     NetworkType = [], FallbackNetworkType = [], FallbackDelay = 0, DestinationAddresses = [],
     DNSResponse = None, DestinationAddressMatchFromResponse = False, ProcessInfo = None,
     SourceMACAddress = None, SourceHostname = [], QueryType = 0, FakeIP = False,
     IPCIDRMatchSource = False, IPCIDRAcceptEmpty = False, SourceAddressMatch = False,
     SourcePortMatch = False, DestinationAddressMatch = False, DestinationPortMatch = False,
     DidMatch = False, IgnoreDestinationIPCIDRMatch = False\<rparr>"

definition sample_lib :: golib where
  "sample_lib = \<lparr>
     sa_IsIP = (\<lambda>s. addr_IsValid (sa_Addr s)),
     sa_IsIPv4 = (\<lambda>s. addr_Is4 (sa_Addr s)),
     sa_IsIPv6 = (\<lambda>s. addr_Is6 (sa_Addr s)),
     sa_IsDomain = (\<lambda>s. \<not> addr_IsValid (sa_Addr s) \<and> sa_Fqdn s \<noteq> []),
     sa_IsValid = (\<lambda>s. addr_IsValid (sa_Addr s) \<or> sa_Fqdn s \<noteq> []),
     AddrFromIP = (\<lambda>bs. if length bs = 4 then Addr4 (word_rcat bs)
                       else if length bs = 16 then Addr6 (word_rcat bs) [] else AddrInvalid),
     IsPublicAddr = (\<lambda>a. \<not> prefix_Contains (Prefix (Addr4 0x0A000000) (Some 8)) a),
     ParsePrefix = (\<lambda>s. if s = ''10.0.0.0/8'' then Inr (Prefix (Addr4 0x0A000000) (Some 8))
                       else Inl (Err ''netip.ParsePrefix'')),
     ParseAddr = (\<lambda>s. Inl (Err ''netip.ParseAddr'')),
     IPSetBuilder = (\<lambda>es. Inr (\<lambda>a. list_ex (\<lambda>e. case e of Inl p \<Rightarrow> prefix_Contains p a | Inr b \<Rightarrow> a = b) es)),
     NewMatcher = (\<lambda>ds ss host. host \<in> set ds \<or> list_ex (\<lambda>suffix. has_suffix host suffix) ss),
     NewAdGuardMatcher = (\<lambda>ls host. host \<in> set ls),
     regexp_Compile = (\<lambda>e. if e = [] then Inl (Err ''regexp'') else Inr (\<lambda>s. str_contains s e)),
     ParseMAC = (\<lambda>s. Inl (Err ''net.ParseMAC'')),
     HardwareAddr_String = (\<lambda>bs. map (\<lambda>b. char_of (unat b)) bs),
     IsDuplicate = (\<lambda>a b. a = b),
     unicode_ToLower = id,
     unicode_EqualFold = (=)\<rparr>"

end
