(* ===== verification/Rule_Item.thy ===== *)
theory Rule_Item
  imports Metadata
begin

text \<open>
  The conditions of rules (\<^verbatim>\<open>src/route/rule/rule_item_*.go\<close> and the three
  interface address items). Each item has its constructor \<open>New...\<close> and its
  \<open>..._Match\<close> function; \<open>item_Match\<close> is the dynamic dispatch of the
  \<^verbatim>\<open>RuleItem\<close> interface. The \<^verbatim>\<open>String\<close> methods, used for logging only,
  are not modelled.

  What items read besides the metadata is collected in \<open>netenv\<close>: the network manager's
  view of the interfaces, the Wi-Fi state, the mode of the Clash server when one is registered, and
  whether the build is for Android.
\<close>

section \<open>Go maps with boolean values\<close>

definition map_true :: "'k list \<Rightarrow> 'k \<rightharpoonup> bool" where
  "map_true ks = fold (\<lambda>k m. m(k \<mapsto> True)) ks Map.empty"

definition map_get :: "('k \<rightharpoonup> bool) \<Rightarrow> 'k \<Rightarrow> bool" where
  "map_get m k = (case m k of None \<Rightarrow> False | Some b \<Rightarrow> b)"

section \<open>Items\<close>

record preferred_routes =
  PreferredDomain :: "string \<Rightarrow> bool"
  PreferredAddress :: "addr \<Rightarrow> bool"

record rangeItem =
  range_start :: u16
  range_end :: u16

datatype response_section = ResponseAnswer | ResponseNs | ResponseExtra

datatype (plugins only: code) rule_item =
    InboundItem "string list" "string \<rightharpoonup> bool"
  | IPVersionItem bool
  | NetworkItem "string list" "string \<rightharpoonup> bool"
  | AuthUserItem "string list" "string \<rightharpoonup> bool"
  | ProtocolItem "string list" "string \<rightharpoonup> bool"
  | ClientItem "string list" "string \<rightharpoonup> bool"
  | DomainItem matcher
  | DomainKeywordItem "string list"
  | DomainRegexItem "matcher list"
  | AdGuardDomainItem matcher
  | IPCIDRItem ipset bool
  | IPIsPrivateItem bool
  | IPAcceptAnyItem
  | PortItem "u16 list" "u16 \<rightharpoonup> bool" bool
  | PortRangeItem bool "string list" "rangeItem list"
  | ProcessItem "string list" "string \<rightharpoonup> bool"
  | ProcessPathItem "string list" "string \<rightharpoonup> bool"
  | ProcessPathRegexItem "matcher list"
  | PackageNameItem "string list" "string \<rightharpoonup> bool"
  | PackageNameRegexItem "matcher list"
  | UserItem "string list" "string \<rightharpoonup> bool"
  | UserIdItem "int list" "int \<rightharpoonup> bool"
  | OutboundItem "string list" "string \<rightharpoonup> bool" bool
  | ClashModeItem string bool
  | NetworkTypeItem "interface_type list"
  | NetworkIsExpensiveItem
  | NetworkIsConstrainedItem
  | WIFISSIDItem "string list" "string \<rightharpoonup> bool"
  | WIFIBSSIDItem "string list" "string \<rightharpoonup> bool"
  | InterfaceAddressItem "(string \<times> prefix list) list"
  | NetworkInterfaceAddressItem "(interface_type \<times> prefix list) list"
  | DefaultInterfaceAddressItem "prefix list"
  | SourceMACAddressItem "string list" "string \<rightharpoonup> bool"
  | SourceHostnameItem "string list" "string \<rightharpoonup> bool"
  | PreferredByItem "string list" "preferred_routes list"
  | QueryTypeItem "u16 list" "u16 \<rightharpoonup> bool"
  | DNSResponseRCodeItem int
  | DNSResponseRecordItem response_section "rr option list"

record netenv =
  env_DefaultNetworkInterface :: "NetworkInterface option"
  env_NetworkInterfaces :: "NetworkInterface list"
  env_Interfaces :: "control_interface list"
  env_DefaultInterface :: "control_interface option"
  env_WIFIState :: WIFIState
  env_ClashMode :: "string option"
  env_IsAndroid :: bool

section \<open>Constructors\<close>

definition NewInboundRule :: "string list \<Rightarrow> rule_item" where
  "NewInboundRule inbounds = InboundItem inbounds (map_true inbounds)"

definition NewIPVersionItem :: "bool \<Rightarrow> rule_item" where
  "NewIPVersionItem isIPv6 = IPVersionItem isIPv6"

definition NewNetworkItem :: "string list \<Rightarrow> rule_item" where
  "NewNetworkItem networks = NetworkItem networks (map_true networks)"

definition NewAuthUserItem :: "string list \<Rightarrow> rule_item" where
  "NewAuthUserItem users = AuthUserItem users (map_true users)"

definition NewProtocolItem :: "string list \<Rightarrow> rule_item" where
  "NewProtocolItem protocols = ProtocolItem protocols (map_true protocols)"

definition NewClientItem :: "string list \<Rightarrow> rule_item" where
  "NewClientItem clients = ClientItem clients (map_true clients)"

definition NewDomainItem :: "golib \<Rightarrow> string list \<Rightarrow> string list \<Rightarrow> rule_item result" where
  "NewDomainItem lib domains domainSuffixes =
     (if [] \<in> set domains then Inl (Err ''domain: empty item is not allowed'')
      else if [] \<in> set domainSuffixes then Inl (Err ''domain_suffix: empty item is not allowed'')
      else Inr (DomainItem (NewMatcher lib domains domainSuffixes)))"

definition NewRawDomainItem :: "matcher \<Rightarrow> rule_item" where
  "NewRawDomainItem m = DomainItem m"

definition NewDomainKeywordItem :: "string list \<Rightarrow> rule_item" where
  "NewDomainKeywordItem keywords = DomainKeywordItem keywords"

text \<open>The loop that compiles every expression and stops at the first that does not compile is the
  same in the three regular expression items.\<close>

fun compile_all :: "golib \<Rightarrow> string list \<Rightarrow> matcher list result" where
  "compile_all lib [] = Inr []"
| "compile_all lib (regex # rest) =
     bind_result (with_cause ''parse expression '' (regexp_Compile lib regex)) (\<lambda>m.
     bind_result (compile_all lib rest) (\<lambda>ms. Inr (m # ms)))"

definition NewDomainRegexItem :: "golib \<Rightarrow> string list \<Rightarrow> rule_item result" where
  "NewDomainRegexItem lib expressions =
     bind_result (compile_all lib expressions) (\<lambda>matchers. Inr (DomainRegexItem matchers))"

definition NewAdGuardDomainItem :: "golib \<Rightarrow> string list \<Rightarrow> rule_item" where
  "NewAdGuardDomainItem lib ruleLines = AdGuardDomainItem (NewAdGuardMatcher lib ruleLines)"

definition NewRawAdGuardDomainItem :: "matcher \<Rightarrow> rule_item" where
  "NewRawAdGuardDomainItem m = AdGuardDomainItem m"

fun parse_cidr_all :: "golib \<Rightarrow> string list \<Rightarrow> (prefix + addr) list result" where
  "parse_cidr_all lib [] = Inr []"
| "parse_cidr_all lib (prefixString # rest) =
     (case ParsePrefix lib prefixString of
        Inr prefix \<Rightarrow> bind_result (parse_cidr_all lib rest) (\<lambda>xs. Inr (Inl prefix # xs))
      | Inl err \<Rightarrow>
          (case ParseAddr lib prefixString of
             Inr addr \<Rightarrow> bind_result (parse_cidr_all lib rest) (\<lambda>xs. Inr (Inr addr # xs))
           | Inl addrErr \<Rightarrow> Inl (Cause ''parse ['' err)))"

definition NewIPCIDRItem :: "golib \<Rightarrow> bool \<Rightarrow> string list \<Rightarrow> rule_item result" where
  "NewIPCIDRItem lib isSource prefixStrings =
     bind_result (parse_cidr_all lib prefixStrings) (\<lambda>entries.
     bind_result (IPSetBuilder lib entries) (\<lambda>ipSet.
     Inr (IPCIDRItem ipSet isSource)))"

definition NewRawIPCIDRItem :: "bool \<Rightarrow> ipset \<Rightarrow> rule_item" where
  "NewRawIPCIDRItem isSource ipSet = IPCIDRItem ipSet isSource"

definition NewIPIsPrivateItem :: "bool \<Rightarrow> rule_item" where
  "NewIPIsPrivateItem isSource = IPIsPrivateItem isSource"

definition NewIPAcceptAnyItem :: rule_item where
  "NewIPAcceptAnyItem = IPAcceptAnyItem"

definition NewPortItem :: "bool \<Rightarrow> u16 list \<Rightarrow> rule_item" where
  "NewPortItem isSource ports = PortItem ports (map_true ports) isSource"

definition parse_port_range :: "string \<Rightarrow> rangeItem result" where
  "parse_port_range portRange =
     (case str_index portRange (CHR '':'') of
        None \<Rightarrow> Inl (Err ''bad port range'')
      | Some subIndex \<Rightarrow>
          bind_result
            (if subIndex > 0 then with_cause ''bad port range'' (ParseUint16 (take subIndex portRange))
             else Inr 0) (\<lambda>start.
          bind_result
            (if subIndex = length portRange - 1 then Inr 0xFFFF
             else with_cause ''bad port range'' (ParseUint16 (drop (subIndex + 1) portRange))) (\<lambda>end'.
          Inr \<lparr>range_start = of_nat start, range_end = of_nat end'\<rparr>)))"

fun parse_port_ranges :: "string list \<Rightarrow> rangeItem list result" where
  "parse_port_ranges [] = Inr []"
| "parse_port_ranges (portRange # rest) =
     bind_result (parse_port_range portRange) (\<lambda>r.
     bind_result (parse_port_ranges rest) (\<lambda>rs. Inr (r # rs)))"

definition NewPortRangeItem :: "bool \<Rightarrow> string list \<Rightarrow> rule_item result" where
  "NewPortRangeItem isSource rangeList =
     bind_result (parse_port_ranges rangeList) (\<lambda>portRangeList.
     Inr (PortRangeItem isSource rangeList portRangeList))"

definition NewProcessItem :: "string list \<Rightarrow> rule_item" where
  "NewProcessItem processNameList = ProcessItem processNameList (map_true processNameList)"

definition NewProcessPathItem :: "string list \<Rightarrow> rule_item" where
  "NewProcessPathItem processNameList = ProcessPathItem processNameList (map_true processNameList)"

definition NewProcessPathRegexItem :: "golib \<Rightarrow> string list \<Rightarrow> rule_item result" where
  "NewProcessPathRegexItem lib expressions =
     bind_result (compile_all lib expressions) (\<lambda>matchers. Inr (ProcessPathRegexItem matchers))"

definition NewPackageNameItem :: "string list \<Rightarrow> rule_item" where
  "NewPackageNameItem packageNameList = PackageNameItem packageNameList (map_true packageNameList)"

definition NewPackageNameRegexItem :: "golib \<Rightarrow> string list \<Rightarrow> rule_item result" where
  "NewPackageNameRegexItem lib expressions =
     bind_result (compile_all lib expressions) (\<lambda>matchers. Inr (PackageNameRegexItem matchers))"

definition NewUserItem :: "string list \<Rightarrow> rule_item" where
  "NewUserItem users = UserItem users (map_true users)"

definition NewUserIDItem :: "int list \<Rightarrow> rule_item" where
  "NewUserIDItem userIdList = UserIdItem userIdList (map_true userIdList)"

definition NewOutboundRule :: "string list \<Rightarrow> rule_item" where
  "NewOutboundRule outbounds =
     OutboundItem outbounds (map_true (filter (\<lambda>o'. o' \<noteq> ''any'') outbounds)) (''any'' \<in> set outbounds)"

definition NewClashModeItem :: "string \<Rightarrow> rule_item" where
  "NewClashModeItem mode = ClashModeItem mode False"

definition NewNetworkTypeItem :: "interface_type list \<Rightarrow> rule_item" where
  "NewNetworkTypeItem networkType = NetworkTypeItem networkType"

definition NewNetworkIsExpensiveItem :: rule_item where
  "NewNetworkIsExpensiveItem = NetworkIsExpensiveItem"

definition NewNetworkIsConstrainedItem :: rule_item where
  "NewNetworkIsConstrainedItem = NetworkIsConstrainedItem"

definition NewWIFISSIDItem :: "string list \<Rightarrow> rule_item" where
  "NewWIFISSIDItem ssidList = WIFISSIDItem ssidList (map_true ssidList)"

definition NewWIFIBSSIDItem :: "string list \<Rightarrow> rule_item" where
  "NewWIFIBSSIDItem bssidList = WIFIBSSIDItem bssidList (map_true bssidList)"

definition NewInterfaceAddressItem :: "(string \<times> prefix list) list \<Rightarrow> rule_item" where
  "NewInterfaceAddressItem interfaceAddresses = InterfaceAddressItem interfaceAddresses"

definition NewNetworkInterfaceAddressItem :: "(interface_type \<times> prefix list) list \<Rightarrow> rule_item" where
  "NewNetworkInterfaceAddressItem interfaceAddresses = NetworkInterfaceAddressItem interfaceAddresses"

definition NewDefaultInterfaceAddressItem :: "prefix list \<Rightarrow> rule_item" where
  "NewDefaultInterfaceAddressItem interfaceAddresses = DefaultInterfaceAddressItem interfaceAddresses"

definition NewSourceMACAddressItem :: "golib \<Rightarrow> string list \<Rightarrow> rule_item" where
  "NewSourceMACAddressItem lib addressList =
     SourceMACAddressItem addressList
       (map_true (map (\<lambda>address. case ParseMAC lib address of
                                   Inr parsed \<Rightarrow> HardwareAddr_String lib parsed
                                 | Inl err \<Rightarrow> address) addressList))"

definition NewSourceHostnameItem :: "string list \<Rightarrow> rule_item" where
  "NewSourceHostnameItem hostnameList = SourceHostnameItem hostnameList (map_true hostnameList)"

definition NewPreferredByItem :: "string list \<Rightarrow> rule_item" where
  "NewPreferredByItem outboundTags = PreferredByItem outboundTags []"

definition NewQueryTypeItem :: "u16 list \<Rightarrow> rule_item" where
  "NewQueryTypeItem typeList = QueryTypeItem typeList (map_true typeList)"

definition NewDNSResponseRCodeItem :: "int \<Rightarrow> rule_item" where
  "NewDNSResponseRCodeItem rcode = DNSResponseRCodeItem rcode"

definition NewDNSResponseRecordItem :: "response_section \<Rightarrow> rr option list \<Rightarrow> rule_item" where
  "NewDNSResponseRecordItem field records = DNSResponseRecordItem field records"

section \<open>Matching\<close>

definition InboundItem_Match :: "(string \<rightharpoonup> bool) \<Rightarrow> InboundContext \<Rightarrow> bool" where
  "InboundItem_Match inboundMap metadata = map_get inboundMap (Inbound metadata)"

definition IPVersionItem_Match :: "golib \<Rightarrow> bool \<Rightarrow> InboundContext \<Rightarrow> bool" where
  "IPVersionItem_Match lib isIPv6 metadata \<longleftrightarrow>
     IPVersion metadata \<noteq> 0 \<and> (IPVersion metadata = 6) = isIPv6 \<or>
     sa_IsIP lib (Destination metadata) \<and> sa_IsIPv6 lib (Destination metadata) = isIPv6"

definition NetworkItem_Match :: "(string \<rightharpoonup> bool) \<Rightarrow> InboundContext \<Rightarrow> bool" where
  "NetworkItem_Match networkMap metadata = map_get networkMap (Network metadata)"

definition AuthUserItem_Match :: "(string \<rightharpoonup> bool) \<Rightarrow> InboundContext \<Rightarrow> bool" where
  "AuthUserItem_Match userMap metadata = map_get userMap (User metadata)"

definition ProtocolItem_Match :: "(string \<rightharpoonup> bool) \<Rightarrow> InboundContext \<Rightarrow> bool" where
  "ProtocolItem_Match protocolMap metadata = map_get protocolMap (Protocol metadata)"

definition ClientItem_Match :: "(string \<rightharpoonup> bool) \<Rightarrow> InboundContext \<Rightarrow> bool" where
  "ClientItem_Match clientMap metadata = map_get clientMap (Client metadata)"

text \<open>The host every domain item looks at: the sniffed domain if there is one, else the
  destination's.\<close>

definition domainHost :: "InboundContext \<Rightarrow> string" where
  "domainHost metadata =
     (if Domain metadata \<noteq> [] then Domain metadata else sa_Fqdn (Destination metadata))"

definition DomainItem_Match :: "golib \<Rightarrow> matcher \<Rightarrow> InboundContext \<Rightarrow> bool" where
  "DomainItem_Match lib m metadata =
     (let host = domainHost metadata in if host = [] then False else m (ToLower lib host))"

definition DomainKeywordItem_Match :: "golib \<Rightarrow> string list \<Rightarrow> InboundContext \<Rightarrow> bool" where
  "DomainKeywordItem_Match lib keywords metadata =
     (let host = domainHost metadata
      in if host = [] then False
         else list_ex (\<lambda>keyword. str_contains (ToLower lib host) keyword) keywords)"

definition DomainRegexItem_Match :: "golib \<Rightarrow> matcher list \<Rightarrow> InboundContext \<Rightarrow> bool" where
  "DomainRegexItem_Match lib matchers metadata =
     (let host = domainHost metadata
      in if host = [] then False else list_ex (\<lambda>m. m (ToLower lib host)) matchers)"

definition AdGuardDomainItem_Match :: "golib \<Rightarrow> matcher \<Rightarrow> InboundContext \<Rightarrow> bool" where
  "AdGuardDomainItem_Match lib m metadata =
     (let host = domainHost metadata in if host = [] then False else m (ToLower lib host))"

definition IPCIDRItem_Match :: "golib \<Rightarrow> ipset \<Rightarrow> bool \<Rightarrow> InboundContext \<Rightarrow> bool" where
  "IPCIDRItem_Match lib ipSet isSource metadata =
     (if isSource \<or> IPCIDRMatchSource metadata then ipSet (sa_Addr (Source metadata))
      else if DestinationAddressMatchFromResponse metadata then
        (let addresses = DNSResponseAddressesForMatch lib metadata
         in if addresses = [] then IPCIDRAcceptEmpty metadata else list_ex ipSet addresses)
      else if sa_IsIP lib (Destination metadata) then ipSet (sa_Addr (Destination metadata))
      else if DestinationAddresses metadata \<noteq> [] then list_ex ipSet (DestinationAddresses metadata)
      else IPCIDRAcceptEmpty metadata)"

definition IPIsPrivateItem_Match :: "golib \<Rightarrow> bool \<Rightarrow> InboundContext \<Rightarrow> bool" where
  "IPIsPrivateItem_Match lib isSource metadata =
     (if isSource then \<not> IsPublicAddr lib (sa_Addr (Source metadata))
      else if DestinationAddressMatchFromResponse metadata then
        list_ex (\<lambda>a. \<not> IsPublicAddr lib a) (DNSResponseAddressesForMatch lib metadata)
      else if addr_IsValid (sa_Addr (Destination metadata)) then
        \<not> IsPublicAddr lib (sa_Addr (Destination metadata))
      else list_ex (\<lambda>a. \<not> IsPublicAddr lib a) (DestinationAddresses metadata))"

definition IPAcceptAnyItem_Match :: "golib \<Rightarrow> InboundContext \<Rightarrow> bool" where
  "IPAcceptAnyItem_Match lib metadata =
     (if DestinationAddressMatchFromResponse metadata
      then DNSResponseAddressesForMatch lib metadata \<noteq> []
      else DestinationAddresses metadata \<noteq> [])"

definition PortItem_Match :: "(u16 \<rightharpoonup> bool) \<Rightarrow> bool \<Rightarrow> InboundContext \<Rightarrow> bool" where
  "PortItem_Match portMap isSource metadata =
     (if isSource then map_get portMap (sa_Port (Source metadata))
      else map_get portMap (sa_Port (Destination metadata)))"

definition PortRangeItem_Match :: "bool \<Rightarrow> rangeItem list \<Rightarrow> InboundContext \<Rightarrow> bool" where
  "PortRangeItem_Match isSource portRangeList metadata =
     (let port = (if isSource then sa_Port (Source metadata) else sa_Port (Destination metadata))
      in list_ex (\<lambda>portRange. port \<ge> range_start portRange \<and> port \<le> range_end portRange) portRangeList)"

definition ProcessItem_Match :: "(string \<rightharpoonup> bool) \<Rightarrow> InboundContext \<Rightarrow> bool" where
  "ProcessItem_Match processMap metadata =
     (case ProcessInfo metadata of
        None \<Rightarrow> False
      | Some info \<Rightarrow>
          if ProcessPath info = [] then False else map_get processMap (filepath_Base (ProcessPath info)))"

definition ProcessPathItem_Match :: "netenv \<Rightarrow> (string \<rightharpoonup> bool) \<Rightarrow> InboundContext \<Rightarrow> bool" where
  "ProcessPathItem_Match env processMap metadata =
     (case ProcessInfo metadata of
        None \<Rightarrow> False
      | Some info \<Rightarrow>
          if ProcessPath info \<noteq> [] \<and> map_get processMap (ProcessPath info) then True
          else if env_IsAndroid env then list_ex (map_get processMap) (AndroidPackageNames info)
          else False)"

definition ProcessPathRegexItem_Match :: "matcher list \<Rightarrow> InboundContext \<Rightarrow> bool" where
  "ProcessPathRegexItem_Match matchers metadata =
     (case ProcessInfo metadata of
        None \<Rightarrow> False
      | Some info \<Rightarrow>
          if ProcessPath info = [] then False else list_ex (\<lambda>m. m (ProcessPath info)) matchers)"

definition PackageNameItem_Match :: "(string \<rightharpoonup> bool) \<Rightarrow> InboundContext \<Rightarrow> bool" where
  "PackageNameItem_Match packageMap metadata =
     (case ProcessInfo metadata of
        None \<Rightarrow> False
      | Some info \<Rightarrow>
          if AndroidPackageNames info = [] then False
          else list_ex (map_get packageMap) (AndroidPackageNames info))"

definition PackageNameRegexItem_Match :: "matcher list \<Rightarrow> InboundContext \<Rightarrow> bool" where
  "PackageNameRegexItem_Match matchers metadata =
     (case ProcessInfo metadata of
        None \<Rightarrow> False
      | Some info \<Rightarrow>
          if AndroidPackageNames info = [] then False
          else list_ex (\<lambda>m. list_ex m (AndroidPackageNames info)) matchers)"

definition UserItem_Match :: "(string \<rightharpoonup> bool) \<Rightarrow> InboundContext \<Rightarrow> bool" where
  "UserItem_Match userMap metadata =
     (case ProcessInfo metadata of
        None \<Rightarrow> False
      | Some info \<Rightarrow> if UserName info = [] then False else map_get userMap (UserName info))"

definition UserIdItem_Match :: "(int \<rightharpoonup> bool) \<Rightarrow> InboundContext \<Rightarrow> bool" where
  "UserIdItem_Match userIdMap metadata =
     (case ProcessInfo metadata of
        None \<Rightarrow> False
      | Some info \<Rightarrow> if UserId info = -1 then False else map_get userIdMap (UserId info))"

definition OutboundItem_Match :: "(string \<rightharpoonup> bool) \<Rightarrow> bool \<Rightarrow> InboundContext \<Rightarrow> bool" where
  "OutboundItem_Match outboundMap matchAny metadata =
     (if matchAny then Outbound metadata \<noteq> [] else map_get outboundMap (Outbound metadata))"

definition ClashModeItem_Start :: "rule_item \<Rightarrow> rule_item" where
  "ClashModeItem_Start item = (case item of ClashModeItem mode _ \<Rightarrow> ClashModeItem mode True | i \<Rightarrow> i)"

text \<open>\<^verbatim>\<open>PreferredByItem.Start\<close> resolves the tags through the outbound manager
  (a parameter: no outbound, an outbound without preferred routes, or its routes) and appends
  what it found, also when a later tag fails.\<close>

fun resolve_preferred ::
    "(string \<Rightarrow> preferred_routes option option) \<Rightarrow> string list \<Rightarrow> preferred_routes list \<Rightarrow>
     err option \<times> preferred_routes list" where
  "resolve_preferred mgr [] outbounds = (None, outbounds)"
| "resolve_preferred mgr (outboundTag # rest) outbounds =
     (case mgr outboundTag of
        None \<Rightarrow> (Some (Err ''outbound not found: ''), outbounds)
      | Some None \<Rightarrow> (Some (Err ''outbound type does not support preferred routes: ''), outbounds)
      | Some (Some routes) \<Rightarrow> resolve_preferred mgr rest (outbounds @ [routes]))"

definition PreferredByItem_Start ::
    "(string \<Rightarrow> preferred_routes option option) \<Rightarrow> rule_item \<Rightarrow> err option \<times> rule_item" where
  "PreferredByItem_Start mgr item =
     (case item of
        PreferredByItem outboundTags outbounds \<Rightarrow>
          (let (e, outbounds') = resolve_preferred mgr outboundTags outbounds
           in (e, PreferredByItem outboundTags outbounds'))
      | i \<Rightarrow> (None, i))"

definition item_Start ::
    "(string \<Rightarrow> preferred_routes option option) \<Rightarrow> rule_item \<Rightarrow> err option \<times> rule_item" where
  "item_Start mgr item =
     (case item of
        PreferredByItem _ _ \<Rightarrow> PreferredByItem_Start mgr item
      | ClashModeItem _ _ \<Rightarrow> (None, ClashModeItem_Start item)
      | i \<Rightarrow> (None, i))"

definition ClashModeItem_Match :: "golib \<Rightarrow> netenv \<Rightarrow> string \<Rightarrow> bool \<Rightarrow> InboundContext \<Rightarrow> bool" where
  "ClashModeItem_Match lib env mode started metadata =
     (if \<not> started then False
      else case env_ClashMode env of
             None \<Rightarrow> False
           | Some serverMode \<Rightarrow> EqualFold lib serverMode mode)"

definition NetworkTypeItem_Match :: "netenv \<Rightarrow> interface_type list \<Rightarrow> InboundContext \<Rightarrow> bool" where
  "NetworkTypeItem_Match env networkType metadata =
     (case env_DefaultNetworkInterface env of
        None \<Rightarrow> False
      | Some networkInterface \<Rightarrow> ni_Type networkInterface \<in> set networkType)"

definition NetworkIsExpensiveItem_Match :: "netenv \<Rightarrow> InboundContext \<Rightarrow> bool" where
  "NetworkIsExpensiveItem_Match env metadata =
     (case env_DefaultNetworkInterface env of None \<Rightarrow> False | Some ni \<Rightarrow> ni_Expensive ni)"

definition NetworkIsConstrainedItem_Match :: "netenv \<Rightarrow> InboundContext \<Rightarrow> bool" where
  "NetworkIsConstrainedItem_Match env metadata =
     (case env_DefaultNetworkInterface env of None \<Rightarrow> False | Some ni \<Rightarrow> ni_Constrained ni)"

definition WIFISSIDItem_Match :: "netenv \<Rightarrow> (string \<rightharpoonup> bool) \<Rightarrow> InboundContext \<Rightarrow> bool" where
  "WIFISSIDItem_Match env ssidMap metadata = map_get ssidMap (SSID (env_WIFIState env))"

definition WIFIBSSIDItem_Match :: "netenv \<Rightarrow> (string \<rightharpoonup> bool) \<Rightarrow> InboundContext \<Rightarrow> bool" where
  "WIFIBSSIDItem_Match env bssidMap metadata = map_get bssidMap (BSSID (env_WIFIState env))"

text \<open>A loop over a Go map that returns false at the first entry that fails a test visits the
  entries in an unspecified order; its result does not depend on it. \<^verbatim>\<open>common.Find\<close>
  gives the zero interface, with an empty name, when there is none.\<close>

definition InterfaceAddressItem_Match ::
    "netenv \<Rightarrow> (string \<times> prefix list) list \<Rightarrow> InboundContext \<Rightarrow> bool" where
  "InterfaceAddressItem_Match env interfaceAddresses metadata =
     list_all (\<lambda>(ifName, addresses).
       case find (\<lambda>it. if_Name it = ifName) (env_Interfaces env) of
         None \<Rightarrow> False
       | Some iface \<Rightarrow>
           if_Name iface \<noteq> [] \<and>
           \<not> list_all (\<lambda>address. list_all (\<lambda>it. \<not> prefix_Overlaps address it) (if_Addresses iface)) addresses)
     interfaceAddresses"

definition NetworkInterfaceAddressItem_Match ::
    "netenv \<Rightarrow> (interface_type \<times> prefix list) list \<Rightarrow> InboundContext \<Rightarrow> bool" where
  "NetworkInterfaceAddressItem_Match env interfaceAddresses metadata =
     list_all (\<lambda>(ifType, addresses).
       list_ex (\<lambda>networkInterface.
         ni_Type networkInterface = ifType \<and>
         list_ex (\<lambda>it. list_ex (\<lambda>prefix. prefix_Overlaps prefix it) addresses)
           (if_Addresses (ni_Interface networkInterface))) (env_NetworkInterfaces env))
     interfaceAddresses"

definition DefaultInterfaceAddressItem_Match :: "netenv \<Rightarrow> prefix list \<Rightarrow> InboundContext \<Rightarrow> bool" where
  "DefaultInterfaceAddressItem_Match env interfaceAddresses metadata =
     (case env_DefaultInterface env of
        None \<Rightarrow> False
      | Some defaultInterface \<Rightarrow>
          list_all (\<lambda>address.
            \<not> list_all (\<lambda>it. \<not> prefix_Overlaps address it) (if_Addresses defaultInterface)) interfaceAddresses)"

definition SourceMACAddressItem_Match :: "golib \<Rightarrow> (string \<rightharpoonup> bool) \<Rightarrow> InboundContext \<Rightarrow> bool" where
  "SourceMACAddressItem_Match lib addressMap metadata =
     (case SourceMACAddress metadata of
        None \<Rightarrow> False
      | Some mac \<Rightarrow> map_get addressMap (HardwareAddr_String lib mac))"

definition SourceHostnameItem_Match :: "(string \<rightharpoonup> bool) \<Rightarrow> InboundContext \<Rightarrow> bool" where
  "SourceHostnameItem_Match hostnameMap metadata =
     (if SourceHostname metadata = [] then False else map_get hostnameMap (SourceHostname metadata))"

definition PreferredByItem_Match :: "golib \<Rightarrow> preferred_routes list \<Rightarrow> InboundContext \<Rightarrow> bool" where
  "PreferredByItem_Match lib outbounds metadata \<longleftrightarrow>
     domainHost metadata \<noteq> [] \<and> list_ex (\<lambda>outbound. PreferredDomain outbound (domainHost metadata)) outbounds \<or>
     sa_IsIP lib (Destination metadata) \<and>
       list_ex (\<lambda>outbound. PreferredAddress outbound (sa_Addr (Destination metadata))) outbounds \<or>
     list_ex (\<lambda>address. list_ex (\<lambda>outbound. PreferredAddress outbound address) outbounds)
       (DestinationAddresses metadata)"

definition QueryTypeItem_Match :: "(u16 \<rightharpoonup> bool) \<Rightarrow> InboundContext \<Rightarrow> bool" where
  "QueryTypeItem_Match typeMap metadata =
     (if QueryType metadata = 0 then False else map_get typeMap (QueryType metadata))"

definition DNSResponseRCodeItem_Match :: "int \<Rightarrow> InboundContext \<Rightarrow> bool" where
  "DNSResponseRCodeItem_Match rcode metadata =
     (case DNSResponse metadata of None \<Rightarrow> False | Some response \<Rightarrow> msg_Rcode response = rcode)"

fun response_selector :: "response_section \<Rightarrow> dns_msg \<Rightarrow> rr list" where
  "response_selector ResponseAnswer message = msg_Answer message"
| "response_selector ResponseNs message = msg_Ns message"
| "response_selector ResponseExtra message = msg_Extra message"

text \<open>\<^verbatim>\<open>DNSRecordOptions.Match\<close> (\<^verbatim>\<open>src/option/dns_record.go\<close>); the
  records of a message are never nil.\<close>

definition DNSRecordOptions_Match :: "golib \<Rightarrow> rr option \<Rightarrow> rr \<Rightarrow> bool" where
  "DNSRecordOptions_Match lib expected record' =
     (case expected of None \<Rightarrow> False | Some rr \<Rightarrow> IsDuplicate lib rr record')"

definition DNSResponseRecordItem_Match ::
    "golib \<Rightarrow> response_section \<Rightarrow> rr option list \<Rightarrow> InboundContext \<Rightarrow> bool" where
  "DNSResponseRecordItem_Match lib field records metadata =
     (case DNSResponse metadata of
        None \<Rightarrow> False
      | Some response \<Rightarrow>
          list_ex (\<lambda>expected. list_ex (DNSRecordOptions_Match lib expected) (response_selector field response)) records)"

fun item_Match :: "golib \<Rightarrow> netenv \<Rightarrow> rule_item \<Rightarrow> InboundContext \<Rightarrow> bool" where
  "item_Match lib env (InboundItem _ m) = InboundItem_Match m"
| "item_Match lib env (IPVersionItem b) = IPVersionItem_Match lib b"
| "item_Match lib env (NetworkItem _ m) = NetworkItem_Match m"
| "item_Match lib env (AuthUserItem _ m) = AuthUserItem_Match m"
| "item_Match lib env (ProtocolItem _ m) = ProtocolItem_Match m"
| "item_Match lib env (ClientItem _ m) = ClientItem_Match m"
| "item_Match lib env (DomainItem m) = DomainItem_Match lib m"
| "item_Match lib env (DomainKeywordItem ks) = DomainKeywordItem_Match lib ks"
| "item_Match lib env (DomainRegexItem ms) = DomainRegexItem_Match lib ms"
| "item_Match lib env (AdGuardDomainItem m) = AdGuardDomainItem_Match lib m"
| "item_Match lib env (IPCIDRItem s b) = IPCIDRItem_Match lib s b"
| "item_Match lib env (IPIsPrivateItem b) = IPIsPrivateItem_Match lib b"
| "item_Match lib env IPAcceptAnyItem = IPAcceptAnyItem_Match lib"
| "item_Match lib env (PortItem _ m b) = PortItem_Match m b"
| "item_Match lib env (PortRangeItem b _ rs) = PortRangeItem_Match b rs"
| "item_Match lib env (ProcessItem _ m) = ProcessItem_Match m"
| "item_Match lib env (ProcessPathItem _ m) = ProcessPathItem_Match env m"
| "item_Match lib env (ProcessPathRegexItem ms) = ProcessPathRegexItem_Match ms"
| "item_Match lib env (PackageNameItem _ m) = PackageNameItem_Match m"
| "item_Match lib env (PackageNameRegexItem ms) = PackageNameRegexItem_Match ms"
| "item_Match lib env (UserItem _ m) = UserItem_Match m"
| "item_Match lib env (UserIdItem _ m) = UserIdItem_Match m"
| "item_Match lib env (OutboundItem _ m b) = OutboundItem_Match m b"
| "item_Match lib env (ClashModeItem mode started) = ClashModeItem_Match lib env mode started"
| "item_Match lib env (NetworkTypeItem ts) = NetworkTypeItem_Match env ts"
| "item_Match lib env NetworkIsExpensiveItem = NetworkIsExpensiveItem_Match env"
| "item_Match lib env NetworkIsConstrainedItem = NetworkIsConstrainedItem_Match env"
| "item_Match lib env (WIFISSIDItem _ m) = WIFISSIDItem_Match env m"
| "item_Match lib env (WIFIBSSIDItem _ m) = WIFIBSSIDItem_Match env m"
| "item_Match lib env (InterfaceAddressItem as) = InterfaceAddressItem_Match env as"
| "item_Match lib env (NetworkInterfaceAddressItem as) = NetworkInterfaceAddressItem_Match env as"
| "item_Match lib env (DefaultInterfaceAddressItem ps) = DefaultInterfaceAddressItem_Match env ps"
| "item_Match lib env (SourceMACAddressItem _ m) = SourceMACAddressItem_Match lib m"
| "item_Match lib env (SourceHostnameItem _ m) = SourceHostnameItem_Match m"
| "item_Match lib env (PreferredByItem _ os) = PreferredByItem_Match lib os"
| "item_Match lib env (QueryTypeItem _ m) = QueryTypeItem_Match m"
| "item_Match lib env (DNSResponseRCodeItem rc) = DNSResponseRCodeItem_Match rc"
| "item_Match lib env (DNSResponseRecordItem f rs) = DNSResponseRecordItem_Match lib f rs"

section \<open>Laws of the items\<close>

lemma map_of_fold_true: "fold (\<lambda>k m. m(k \<mapsto> True)) ks m x = (if x \<in> set ks then Some True else m x)"
  by (induction ks arbitrary: m) auto

lemma map_get_true [simp]: "map_get (map_true ks) k \<longleftrightarrow> k \<in> set ks"
  by (simp add: map_get_def map_true_def map_of_fold_true)

lemmas item_match_defs =
  InboundItem_Match_def IPVersionItem_Match_def NetworkItem_Match_def AuthUserItem_Match_def
  ProtocolItem_Match_def ClientItem_Match_def DomainItem_Match_def DomainKeywordItem_Match_def
  DomainRegexItem_Match_def AdGuardDomainItem_Match_def IPCIDRItem_Match_def
  IPIsPrivateItem_Match_def IPAcceptAnyItem_Match_def PortItem_Match_def PortRangeItem_Match_def
  ProcessItem_Match_def ProcessPathItem_Match_def ProcessPathRegexItem_Match_def
  PackageNameItem_Match_def PackageNameRegexItem_Match_def UserItem_Match_def UserIdItem_Match_def
  OutboundItem_Match_def ClashModeItem_Match_def NetworkTypeItem_Match_def
  NetworkIsExpensiveItem_Match_def NetworkIsConstrainedItem_Match_def WIFISSIDItem_Match_def
  WIFIBSSIDItem_Match_def InterfaceAddressItem_Match_def NetworkInterfaceAddressItem_Match_def
  DefaultInterfaceAddressItem_Match_def SourceMACAddressItem_Match_def SourceHostnameItem_Match_def
  PreferredByItem_Match_def QueryTypeItem_Match_def DNSResponseRCodeItem_Match_def
  DNSResponseRecordItem_Match_def domainHost_def DNSResponseAddressesForMatch_def

text \<open>No item looks at the bookkeeping of the rule matcher, so marking that a condition was
  looked at, or clearing the match cache, does not change what later items see.\<close>

lemma item_Match_DidMatch [simp]:
  "item_Match lib env i (metadata\<lparr>DidMatch := b\<rparr>) = item_Match lib env i metadata"
  by (cases i) (simp_all add: item_match_defs)

lemma item_Match_ResetRuleMatchCache [simp]:
  "item_Match lib env i (ResetRuleMatchCache metadata) = item_Match lib env i metadata"
  by (cases i) (simp_all add: item_match_defs ResetRuleMatchCache_def)

lemma item_Match_Ignore [simp]:
  "item_Match lib env i (metadata\<lparr>IgnoreDestinationIPCIDRMatch := b\<rparr>) = item_Match lib env i metadata"
  by (cases i) (simp_all add: item_match_defs)

text \<open>A network environment without interfaces, for evaluation.\<close>

definition netenv_zero :: netenv where
  "netenv_zero = \<lparr>env_DefaultNetworkInterface = None, env_NetworkInterfaces = [], env_Interfaces = [],
     env_DefaultInterface = None, env_WIFIState = \<lparr>SSID = [], BSSID = []\<rparr>, env_ClashMode = None,
     env_IsAndroid = False\<rparr>"

end
