(* ===== verification/Match_State.thy ===== *)
theory Match_State
  imports Prelude "HOL-Library.Multiset"
begin

unbundle bit_operations_syntax

text \<open>
  The match states of the rule engine (\<^verbatim>\<open>src/route/rule/match_state.go\<close>). A
  \<^verbatim>\<open>ruleMatchState\<close> records, one bit each, which of the four grouped conditions of a
  rule (source address, source port, destination address, destination port) have been satisfied; a
  \<^verbatim>\<open>ruleMatchStateSet\<close> is a set of such states, packed into sixteen bits.

  The packed operations are related to sets of states by the abstraction \<open>states\<close>, and the
  algebra they form is stated as the locale \<open>match_algebra\<close>, whose lemmas about runs of
  \<open>combine\<close> and \<open>merge\<close> the logical rules use.
\<close>

section \<open>The packed representation\<close>

type_synonym ruleMatchState = "8 word"
type_synonym ruleMatchStateSet = "16 word"

definition ruleMatchSourceAddress :: ruleMatchState where
  "ruleMatchSourceAddress = push_bit 0 1"

definition ruleMatchSourcePort :: ruleMatchState where
  "ruleMatchSourcePort = push_bit 1 1"

definition ruleMatchDestinationAddress :: ruleMatchState where
  "ruleMatchDestinationAddress = push_bit 2 1"

definition ruleMatchDestinationPort :: ruleMatchState where
  "ruleMatchDestinationPort = push_bit 3 1"

text \<open>\<^verbatim>\<open>has\<close> is declared beside the abstract rules (rule_abstract.go).\<close>

definition has_state :: "ruleMatchState \<Rightarrow> ruleMatchState \<Rightarrow> bool" where
  "has_state s target \<longleftrightarrow> s AND target \<noteq> 0"

definition singleRuleMatchState :: "ruleMatchState \<Rightarrow> ruleMatchStateSet" where
  "singleRuleMatchState state = push_bit (unat state) 1"

definition emptyRuleMatchState :: ruleMatchStateSet where
  "emptyRuleMatchState = singleRuleMatchState 0"

definition isEmpty :: "ruleMatchStateSet \<Rightarrow> bool" where
  "isEmpty s \<longleftrightarrow> s = 0"

definition contains :: "ruleMatchStateSet \<Rightarrow> ruleMatchState \<Rightarrow> bool" where
  "contains s state \<longleftrightarrow> s AND push_bit (unat state) 1 \<noteq> 0"

definition add_state :: "ruleMatchStateSet \<Rightarrow> ruleMatchState \<Rightarrow> ruleMatchStateSet" where
  "add_state s state = s OR singleRuleMatchState state"

definition merge :: "ruleMatchStateSet \<Rightarrow> ruleMatchStateSet \<Rightarrow> ruleMatchStateSet" where
  "merge s other = s OR other"

text \<open>The values of the loop variable in \<^verbatim>\<open>for state := 0; state < 16; state++\<close>.\<close>

definition all_states :: "ruleMatchState list" where
  "all_states = map of_nat [0..<16]"

definition combine :: "ruleMatchStateSet \<Rightarrow> ruleMatchStateSet \<Rightarrow> ruleMatchStateSet" where
  "combine s other =
     (if isEmpty s \<or> isEmpty other then 0
      else fold (\<lambda>left combined.
             if \<not> contains s left then combined
             else fold (\<lambda>right combined.
                    if \<not> contains other right then combined
                    else add_state combined (left OR right)) all_states combined)
           all_states 0)"

definition withBase :: "ruleMatchStateSet \<Rightarrow> ruleMatchState \<Rightarrow> ruleMatchStateSet" where
  "withBase s base =
     (if isEmpty s then 0
      else fold (\<lambda>state acc. if \<not> contains s state then acc else add_state acc (state OR base))
             all_states 0)"

definition filter_states :: "ruleMatchStateSet \<Rightarrow> (ruleMatchState \<Rightarrow> bool) \<Rightarrow> ruleMatchStateSet" where
  "filter_states s allowed =
     fold (\<lambda>state filtered.
        if \<not> contains s state then filtered
        else if allowed state then add_state filtered state else filtered) all_states 0"

section \<open>Sets of states\<close>

definition states :: "ruleMatchStateSet \<Rightarrow> ruleMatchState set" where
  "states s = {x. x < 16 \<and> contains s x}"

lemma set_all_states [simp]: "set all_states = {x. x < 16}"
proof -
  have "x \<in> of_nat ` {0..<16}" if "x < 16" for x :: "8 word"
  proof -
    have "x = of_nat (unat x)" by simp
    moreover have "unat x \<in> {0..<16}"
      using that by (simp add: unat_less_16)
    ultimately show ?thesis by (rule image_eqI)
  qed
  moreover have "(of_nat n :: 8 word) < 16" if "n < 16" for n
    using that by (simp add: unat_less_16 unat_of_nat)
  ultimately show ?thesis
    by (auto simp: all_states_def)
qed

lemma contains_iff_bit: "contains s x \<longleftrightarrow> bit s (unat x)"
proof -
  have "s AND push_bit n 1 \<noteq> 0 \<longleftrightarrow> bit s n" for n
    by (metis and_exp_eq_0_iff_not_bit push_bit_of_1)
  then show ?thesis by (simp add: contains_def)
qed

lemma contains_zero [simp]: "\<not> contains 0 x"
  by (simp add: contains_def)

lemma contains_below_16 [dest]: "contains s x \<Longrightarrow> x < 16"
  using bit_imp_le_length [of s "unat x"] by (simp add: contains_iff_bit unat_less_16)

lemma mem_states [state_simps]: "x \<in> states s \<longleftrightarrow> contains s x"
  by (auto simp: states_def)

lemma states_below_16: "x \<in> states s \<Longrightarrow> x < 16"
  by (simp add: states_def)

text \<open>A packed set is determined by its states.\<close>

lemma states_inject: "states s = states t \<longleftrightarrow> s = t"
proof
  assume eq: "states s = states t"
  show "s = t"
  proof (rule bit_word_eqI)
    fix n assume "n < LENGTH(16)"
    then have n: "n < 16" by simp
    then have "unat (of_nat n :: 8 word) = n"
      by (simp add: unat_of_nat)
    with eq show "bit s n \<longleftrightarrow> bit t n"
      by (metis contains_iff_bit mem_states)
  qed
qed simp

lemma isEmpty_iff_states [state_simps]: "isEmpty s \<longleftrightarrow> states s = {}"
proof -
  have "states 0 = {}"
    by (simp add: states_def contains_def)
  then show ?thesis
    unfolding isEmpty_def using states_inject [of s 0] by simp
qed

lemma states_zero [simp]: "states 0 = {}"
  using isEmpty_iff_states [of 0] by (simp add: isEmpty_def)

lemma contains_single [state_simps]:
  "contains (singleRuleMatchState y) x \<longleftrightarrow> x = y \<and> y < 16"
proof -
  have "contains (singleRuleMatchState y) x \<longleftrightarrow> unat y = unat x \<and> unat x < 16"
    by (auto simp: contains_iff_bit singleRuleMatchState_def bit_simps)
  then show ?thesis
    by (auto simp: unat_less_16 word_unat_eq_iff)
qed

lemma contains_merge [state_simps]: "contains (merge s t) x \<longleftrightarrow> contains s x \<or> contains t x"
  by (simp add: contains_iff_bit merge_def bit_or_iff)

lemma contains_add [state_simps]:
  "contains (add_state s y) x \<longleftrightarrow> contains s x \<or> x = y \<and> y < 16"
  using contains_merge [of s "singleRuleMatchState y" x]
  by (simp add: add_state_def merge_def contains_single)

lemma states_single [simp]: "y < 16 \<Longrightarrow> states (singleRuleMatchState y) = {y}"
  by (auto simp: state_simps)

lemma states_empty_state [simp]: "states emptyRuleMatchState = {0}"
  by (simp add: emptyRuleMatchState_def)

lemma states_merge [simp]: "states (merge s t) = states s \<union> states t"
  by (auto simp: state_simps)

text \<open>\<open>combine\<close> unions every state of one set with every state of the other.\<close>

lemma contains_combine_inner:
  "contains (fold (\<lambda>right combined. if \<not> contains t right then combined
       else add_state combined (left OR right)) all_states acc) x
   \<longleftrightarrow> contains acc x \<or> (\<exists>right. contains t right \<and> x = left OR right \<and> x < 16)"
  by (subst fold_collect [where P = "\<lambda>a. contains a x"
        and Q = "\<lambda>right. contains t right \<and> x = left OR right \<and> x < 16"])
     (auto simp: state_simps)

lemma contains_combine:
  "contains (combine s t) x \<longleftrightarrow> (\<exists>a b. contains s a \<and> contains t b \<and> x = a OR b)"
proof (cases "isEmpty s \<or> isEmpty t")
  case True
  then show ?thesis
    by (auto simp: combine_def state_simps contains_def)
next
  case False
  have "contains (combine s t) x \<longleftrightarrow>
    (\<exists>left\<in>set all_states. contains s left \<and>
       (\<exists>right. contains t right \<and> x = left OR right \<and> x < 16))"
    using False unfolding combine_def
    by (simp, subst fold_collect [where P = "\<lambda>a. contains a x"
          and Q = "\<lambda>left. contains s left \<and> (\<exists>right. contains t right \<and> x = left OR right \<and> x < 16)"])
       (auto simp: contains_combine_inner)
  then show ?thesis
    unfolding set_all_states by (metis contains_below_16 mem_Collect_eq or_less_16)
qed

lemma states_combine [simp]: "states (combine s t) = {a OR b | a b. a \<in> states s \<and> b \<in> states t}"
  unfolding mem_states contains_combine set_eq_iff mem_Collect_eq by blast

text \<open>\<open>withBase\<close> adds the bits of one state to every state of a set.\<close>

lemma contains_withBase:
  assumes "b < 16"
  shows "contains (withBase s b) x \<longleftrightarrow> (\<exists>a. contains s a \<and> x = a OR b)"
proof (cases "isEmpty s")
  case True
  then show ?thesis
    by (simp add: withBase_def isEmpty_def contains_def)
next
  case False
  have "contains (withBase s b) x \<longleftrightarrow> (\<exists>a\<in>set all_states. contains s a \<and> x = a OR b \<and> x < 16)"
    using False unfolding withBase_def
    by (simp, subst fold_collect [where P = "\<lambda>acc. contains acc x"
          and Q = "\<lambda>a. contains s a \<and> x = a OR b \<and> x < 16"])
       (auto simp: state_simps)
  with assms show ?thesis by (auto intro: or_less_16)
qed

lemma states_withBase [simp]: "b < 16 \<Longrightarrow> states (withBase s b) = (\<lambda>a. a OR b) ` states s"
  by (auto simp: mem_states contains_withBase)

lemma contains_filter:
  "contains (filter_states s allowed) x \<longleftrightarrow> contains s x \<and> allowed x"
  unfolding filter_states_def
  by (subst fold_collect [where P = "\<lambda>acc. contains acc x"
        and Q = "\<lambda>a. contains s a \<and> allowed a \<and> x = a"])
     (auto simp: state_simps)

lemma states_filter [simp]: "states (filter_states s allowed) = {x \<in> states s. allowed x}"
  by (auto simp: mem_states contains_filter)

section \<open>The algebra of state sets\<close>

text \<open>
  \<open>merge\<close> and \<open>combine\<close> form a commutative semiring without zero divisors, with the empty
  set of states as zero and the set holding only the empty state as one. The logical rules fold one
  or the other over their sub-rules; the lemmas say when such a fold is zero and that the order of
  the sub-rules does not matter.
\<close>

locale match_algebra =
  fixes zero :: 'a
    and one :: 'a
    and plus :: "'a \<Rightarrow> 'a \<Rightarrow> 'a"
    and times :: "'a \<Rightarrow> 'a \<Rightarrow> 'a"
  assumes plus_assoc: "plus (plus x y) z = plus x (plus y z)"
    and plus_comm: "plus x y = plus y x"
    and plus_zero: "plus zero x = x"
    and plus_idem: "plus x x = x"
    and times_assoc: "times (times x y) z = times x (times y z)"
    and times_comm: "times x y = times y x"
    and times_one: "times one x = x"
    and times_zero: "times zero x = zero"
    and distrib: "times x (plus y z) = plus (times x y) (times x z)"
    and plus_zero_iff: "plus x y = zero \<longleftrightarrow> x = zero \<and> y = zero"
    and times_zero_iff: "times x y = zero \<longleftrightarrow> x = zero \<or> y = zero"
begin

lemma foldl_times_zero_iff: "foldl times x ys = zero \<longleftrightarrow> x = zero \<or> zero \<in> set ys"
  by (induction ys arbitrary: x) (auto simp: times_zero_iff)

lemma foldl_plus_zero_iff: "foldl plus x ys = zero \<longleftrightarrow> x = zero \<and> (\<forall>y\<in>set ys. y = zero)"
  by (induction ys arbitrary: x) (auto simp: plus_zero_iff)

lemma foldl_times_move: "foldl times (times x y) zs = times x (foldl times y zs)"
  by (induction zs arbitrary: y) (simp_all add: times_assoc)

lemma foldl_plus_move: "foldl plus (plus x y) zs = plus x (foldl plus y zs)"
  by (induction zs arbitrary: y) (simp_all add: plus_assoc)

lemma foldl_times_remove1:
  "y \<in> set ys \<Longrightarrow> foldl times x ys = times y (foldl times x (remove1 y ys))"
  by (induction ys arbitrary: x) (auto simp: times_comm foldl_times_move, metis foldl_times_move times_comm)

lemma foldl_plus_remove1:
  "y \<in> set ys \<Longrightarrow> foldl plus x ys = plus y (foldl plus x (remove1 y ys))"
  by (induction ys arbitrary: x) (auto simp: plus_comm foldl_plus_move, metis foldl_plus_move plus_comm)

lemma foldl_times_perm: "mset xs = mset ys \<Longrightarrow> foldl times a xs = foldl times a ys"
proof (induction xs arbitrary: ys)
  case (Cons x xs)
  then have "x \<in> set ys" by (metis list.set_intros(1) mset_eq_setD)
  moreover have "mset xs = mset (remove1 x ys)" using Cons.prems by (metis add_mset_remove_trivial mset.simps(2) mset_remove1)
  ultimately show ?case
    using Cons.IH [of "remove1 x ys"] foldl_times_remove1 [of x ys a] foldl_times_remove1 [of x "x # xs" a]
    by simp
qed simp

lemma foldl_plus_perm: "mset xs = mset ys \<Longrightarrow> foldl plus a xs = foldl plus a ys"
proof (induction xs arbitrary: ys)
  case (Cons x xs)
  then have "x \<in> set ys" by (metis list.set_intros(1) mset_eq_setD)
  moreover have "mset xs = mset (remove1 x ys)" using Cons.prems by (metis add_mset_remove_trivial mset.simps(2) mset_remove1)
  ultimately show ?case
    using Cons.IH [of "remove1 x ys"] foldl_plus_remove1 [of x ys a] foldl_plus_remove1 [of x "x # xs" a]
    by simp
qed simp

end

interpretation ms: match_algebra 0 emptyRuleMatchState merge combine
proof
  fix x y z :: ruleMatchStateSet
  show "merge (merge x y) z = merge x (merge y z)" "merge x y = merge y x" "merge 0 x = x" "merge x x = x"
    by (simp_all add: merge_def ac_simps)
  show "combine (combine x y) z = combine x (combine y z)"
    unfolding states_inject [symmetric] states_combine by (auto simp: or.assoc) (metis or.assoc)+
  show "combine x y = combine y x"
    unfolding states_inject [symmetric] states_combine by (auto intro: or.commute)
  show "combine emptyRuleMatchState x = x" "combine 0 x = 0"
    unfolding states_inject [symmetric] states_combine by auto
  show "combine x (merge y z) = merge (combine x y) (combine x z)"
    unfolding states_inject [symmetric] by auto
  show "merge x y = 0 \<longleftrightarrow> x = 0 \<and> y = 0" "combine x y = 0 \<longleftrightarrow> x = 0 \<or> y = 0"
    by (auto simp: states_inject [symmetric])
qed

end
