(* ===== verification/Rule_Match.thy ===== *)
theory Rule_Match
  imports Rule_Item Match_State
begin

text \<open>
  The matching of default and logical rules (\<^verbatim>\<open>src/route/rule/rule_abstract.go\<close>), with the
  headless rules of rule sets as their first instance.

  A default rule sorts its items into groups; its record is parametric in the type of its rule set
  item and of its action, so that the rules of rule sets (which have neither), the route rules and
  the DNS rules are instances. The matcher of the rule set item is an argument of the operations.
  Metadata is passed by pointer in the code and the default rule marks it (\<open>DidMatch\<close>), so
  the operations return the metadata as well.
\<close>

section \<open>Default rules\<close>

datatype 'rs any_item = PlainItem rule_item | SetItem 'rs

record ('rs, 'act) abstractDefaultRule =
  items :: "rule_item list"
  sourceAddressItems :: "rule_item list"
  sourcePortItems :: "rule_item list"
  destinationAddressItems :: "rule_item list"
  destinationIPCIDRItems :: "rule_item list"
  destinationPortItems :: "rule_item list"
  allItems :: "'rs any_item list"
  ruleSetItem :: "'rs option"
  invert :: bool
  action :: "'act option"

type_synonym 'rs set_matcher = "'rs \<Rightarrow> InboundContext \<Rightarrow> ruleMatchState \<Rightarrow> ruleMatchStateSet"

definition matchAnyItem :: "golib \<Rightarrow> netenv \<Rightarrow> rule_item list \<Rightarrow> InboundContext \<Rightarrow> bool" where
  "matchAnyItem lib env is metadata = list_ex (\<lambda>it. item_Match lib env it metadata) is"

definition destinationIPCIDRMatchesSource ::
    "('rs, 'act) abstractDefaultRule \<Rightarrow> InboundContext \<Rightarrow> bool" where
  "destinationIPCIDRMatchesSource r metadata \<longleftrightarrow>
     \<not> IgnoreDestinationIPCIDRMatch metadata \<and> IPCIDRMatchSource metadata \<and> destinationIPCIDRItems r \<noteq> []"

definition destinationIPCIDRMatchesDestination ::
    "('rs, 'act) abstractDefaultRule \<Rightarrow> InboundContext \<Rightarrow> bool" where
  "destinationIPCIDRMatchesDestination r metadata \<longleftrightarrow>
     \<not> IgnoreDestinationIPCIDRMatch metadata \<and> \<not> IPCIDRMatchSource metadata \<and> destinationIPCIDRItems r \<noteq> []"

definition requiresSourceAddressMatch ::
    "('rs, 'act) abstractDefaultRule \<Rightarrow> InboundContext \<Rightarrow> bool" where
  "requiresSourceAddressMatch r metadata \<longleftrightarrow>
     sourceAddressItems r \<noteq> [] \<or> destinationIPCIDRMatchesSource r metadata"

definition requiresDestinationAddressMatch ::
    "('rs, 'act) abstractDefaultRule \<Rightarrow> InboundContext \<Rightarrow> bool" where
  "requiresDestinationAddressMatch r metadata \<longleftrightarrow>
     destinationAddressItems r \<noteq> [] \<or> destinationIPCIDRMatchesDestination r metadata"

definition invertedFailure ::
    "('rs, 'act) abstractDefaultRule \<Rightarrow> ruleMatchState \<Rightarrow> ruleMatchStateSet" where
  "invertedFailure r base = (if invert r then withBase emptyRuleMatchState base else 0)"

text \<open>One of the five tests that set a bit of the base state: a group of items is looked at when the
  test is enabled, and the metadata is marked then. The two tests of the destination IP items are
  skipped, but still mark the metadata, when the bit is set already.\<close>

definition match_group ::
    "golib \<Rightarrow> netenv \<Rightarrow> bool \<Rightarrow> bool \<Rightarrow> rule_item list \<Rightarrow> ruleMatchState \<Rightarrow>
     ruleMatchState \<times> InboundContext \<Rightarrow> ruleMatchState \<times> InboundContext" where
  "match_group lib env enabled skip is flag = (\<lambda>(baseState, metadata).
     if enabled then
       (let metadata' = metadata\<lparr>DidMatch := True\<rparr>
        in (if \<not> (skip \<and> has_state baseState flag) \<and> matchAnyItem lib env is metadata'
            then baseState OR flag else baseState, metadata'))
     else (baseState, metadata))"

definition match_groups ::
    "golib \<Rightarrow> netenv \<Rightarrow> ('rs, 'act) abstractDefaultRule \<Rightarrow>
     ruleMatchState \<times> InboundContext \<Rightarrow> ruleMatchState \<times> InboundContext" where
  "match_groups lib env r s0 =
     (let s1 = match_group lib env (sourceAddressItems r \<noteq> []) False (sourceAddressItems r)
                 ruleMatchSourceAddress s0;
          s2 = match_group lib env (destinationIPCIDRMatchesSource r (snd s1)) True (destinationIPCIDRItems r)
                 ruleMatchSourceAddress s1;
          s3 = match_group lib env (sourcePortItems r \<noteq> []) False (sourcePortItems r)
                 ruleMatchSourcePort s2;
          s4 = match_group lib env (destinationAddressItems r \<noteq> []) False (destinationAddressItems r)
                 ruleMatchDestinationAddress s3;
          s5 = match_group lib env (destinationIPCIDRMatchesDestination r (snd s4)) True (destinationIPCIDRItems r)
                 ruleMatchDestinationAddress s4
      in match_group lib env (destinationPortItems r \<noteq> []) False (destinationPortItems r)
           ruleMatchDestinationPort s5)"

fun match_items :: "golib \<Rightarrow> netenv \<Rightarrow> rule_item list \<Rightarrow> InboundContext \<Rightarrow> bool \<times> InboundContext" where
  "match_items lib env [] metadata = (True, metadata)"
| "match_items lib env (item # rest) metadata =
     (let metadata' = metadata\<lparr>DidMatch := True\<rparr>
      in if item_Match lib env item metadata' then match_items lib env rest metadata'
         else (False, metadata'))"

definition state_allowed ::
    "('rs, 'act) abstractDefaultRule \<Rightarrow> InboundContext \<Rightarrow> ruleMatchState \<Rightarrow> bool" where
  "state_allowed r metadata state =
     (if requiresSourceAddressMatch r metadata \<and> \<not> has_state state ruleMatchSourceAddress then False
      else if sourcePortItems r \<noteq> [] \<and> \<not> has_state state ruleMatchSourcePort then False
      else if requiresDestinationAddressMatch r metadata \<and> \<not> has_state state ruleMatchDestinationAddress then False
      else if destinationPortItems r \<noteq> [] \<and> \<not> has_state state ruleMatchDestinationPort then False
      else True)"

definition default_matchStatesWithBase ::
    "golib \<Rightarrow> netenv \<Rightarrow> 'rs set_matcher \<Rightarrow> ('rs, 'act) abstractDefaultRule \<Rightarrow>
     InboundContext \<Rightarrow> ruleMatchState \<Rightarrow> ruleMatchStateSet \<times> InboundContext" where
  "default_matchStatesWithBase lib env setm r metadata inheritedBase =
     (if allItems r = [] then (withBase emptyRuleMatchState inheritedBase, metadata)
      else
        let evaluationBase = (if invert r then 0 else inheritedBase);
            (baseState, metadata1) = match_groups lib env r (evaluationBase, metadata);
            (ok, metadata2) = match_items lib env (items r) metadata1
        in if \<not> ok then (invertedFailure r inheritedBase, metadata2)
           else
             let (stateSet0, metadata3) =
                   (case ruleSetItem r of
                      Some item \<Rightarrow>
                        (let m = metadata2\<lparr>DidMatch := True\<rparr> in (setm item m baseState, m))
                    | None \<Rightarrow> (singleRuleMatchState baseState, metadata2));
                 stateSet = filter_states stateSet0 (state_allowed r metadata3)
             in if isEmpty stateSet then (invertedFailure r inheritedBase, metadata3)
                else if invert r then
                  (if IgnoreDestinationIPCIDRMatch metadata3 \<and> stateSet = emptyRuleMatchState \<and>
                      \<not> DidMatch metadata3 \<and> destinationIPCIDRItems r \<noteq> []
                   then (withBase emptyRuleMatchState inheritedBase, metadata3)
                   else (0, metadata3))
                else (stateSet, metadata3))"

definition default_matchStates ::
    "golib \<Rightarrow> netenv \<Rightarrow> 'rs set_matcher \<Rightarrow> ('rs, 'act) abstractDefaultRule \<Rightarrow>
     InboundContext \<Rightarrow> ruleMatchStateSet \<times> InboundContext" where
  "default_matchStates lib env setm r metadata = default_matchStatesWithBase lib env setm r metadata 0"

definition default_Match ::
    "golib \<Rightarrow> netenv \<Rightarrow> 'rs set_matcher \<Rightarrow> ('rs, 'act) abstractDefaultRule \<Rightarrow>
     InboundContext \<Rightarrow> bool \<times> InboundContext" where
  "default_Match lib env setm r metadata =
     (let (stateSet, metadata') = default_matchStates lib env setm r metadata
      in (\<not> isEmpty stateSet, metadata'))"

section \<open>Logical rules\<close>

text \<open>The nested rules are matched on copies of the metadata with the rule cache cleared, so only
  the sets of states they return are visible to the loop; \<open>nested\<close> is the list of their
  matchers. The loop of a conjunction stops at the first rule that does not match.\<close>

type_synonym rule_matcher = "InboundContext \<Rightarrow> ruleMatchState \<Rightarrow> ruleMatchStateSet"

definition LogicalTypeAnd :: string where "LogicalTypeAnd = ''and''"
definition LogicalTypeOr :: string where "LogicalTypeOr = ''or''"

fun logical_and_loop ::
    "rule_matcher list \<Rightarrow> InboundContext \<Rightarrow> ruleMatchState \<Rightarrow> ruleMatchStateSet \<Rightarrow> ruleMatchStateSet option" where
  "logical_and_loop [] metadata base stateSet = Some stateSet"
| "logical_and_loop (rule # rest) metadata base stateSet =
     (let nestedStateSet = rule (ResetRuleCache metadata) base
      in if isEmpty nestedStateSet then None
         else logical_and_loop rest metadata base (combine stateSet nestedStateSet))"

definition logical_matchStatesWithBase ::
    "string \<Rightarrow> bool \<Rightarrow> rule_matcher list \<Rightarrow> InboundContext \<Rightarrow> ruleMatchState \<Rightarrow> ruleMatchStateSet" where
  "logical_matchStatesWithBase mode inverted nested metadata base =
     (let evaluationBase = (if inverted then 0 else base);
          failure = (if inverted then withBase emptyRuleMatchState base else 0)
      in if mode = LogicalTypeAnd then
           (case logical_and_loop nested metadata evaluationBase (withBase emptyRuleMatchState evaluationBase) of
              None \<Rightarrow> failure
            | Some stateSet \<Rightarrow> if inverted then 0 else stateSet)
         else
           let stateSet = foldl (\<lambda>s rule. merge s (rule (ResetRuleCache metadata) evaluationBase)) 0 nested
           in if isEmpty stateSet then failure else if inverted then 0 else stateSet)"

section \<open>Headless rules\<close>

datatype headless_rule =
    DefaultHeadlessRule "(unit, unit) abstractDefaultRule"
  | LogicalHeadlessRule string "headless_rule list" bool

text \<open>A default headless rule has no rule set item.\<close>

fun headless_matchStatesWithBase :: "golib \<Rightarrow> netenv \<Rightarrow> headless_rule \<Rightarrow> rule_matcher" where
  "headless_matchStatesWithBase lib env (DefaultHeadlessRule r) metadata base =
     fst (default_matchStatesWithBase lib env (\<lambda>_ _ _. 0) r metadata base)"
| "headless_matchStatesWithBase lib env (LogicalHeadlessRule mode rules inverted) metadata base =
     logical_matchStatesWithBase mode inverted (map (headless_matchStatesWithBase lib env) rules) metadata base"

definition headless_matchStates :: "golib \<Rightarrow> netenv \<Rightarrow> headless_rule \<Rightarrow> InboundContext \<Rightarrow> ruleMatchStateSet" where
  "headless_matchStates lib env rule metadata = headless_matchStatesWithBase lib env rule metadata 0"

definition headless_Match :: "golib \<Rightarrow> netenv \<Rightarrow> headless_rule \<Rightarrow> InboundContext \<Rightarrow> bool" where
  "headless_Match lib env rule metadata \<longleftrightarrow> \<not> isEmpty (headless_matchStates lib env rule metadata)"

section \<open>What the groups of a default rule contribute\<close>

text \<open>The bits found by the groups: each of the four is set when some item of its groups matches.
  The destination IP items belong to the destination address, or to the source address when the
  rule set item that refers to the rule asks for it.\<close>

definition hit_source_address where
  "hit_source_address lib env r metadata \<longleftrightarrow>
     matchAnyItem lib env (sourceAddressItems r) metadata \<or>
     destinationIPCIDRMatchesSource r metadata \<and> matchAnyItem lib env (destinationIPCIDRItems r) metadata"

definition hit_source_port where
  "hit_source_port lib env r metadata \<longleftrightarrow> matchAnyItem lib env (sourcePortItems r) metadata"

definition hit_destination_address where
  "hit_destination_address lib env r metadata \<longleftrightarrow>
     matchAnyItem lib env (destinationAddressItems r) metadata \<or>
     destinationIPCIDRMatchesDestination r metadata \<and> matchAnyItem lib env (destinationIPCIDRItems r) metadata"

definition hit_destination_port where
  "hit_destination_port lib env r metadata \<longleftrightarrow> matchAnyItem lib env (destinationPortItems r) metadata"

definition bits_of :: "bool \<Rightarrow> bool \<Rightarrow> bool \<Rightarrow> bool \<Rightarrow> ruleMatchState" where
  "bits_of sa sp da dp =
     (if sa then ruleMatchSourceAddress else 0) OR (if sp then ruleMatchSourcePort else 0) OR
     (if da then ruleMatchDestinationAddress else 0) OR (if dp then ruleMatchDestinationPort else 0)"

definition hit_bits where
  "hit_bits lib env r metadata =
     bits_of (hit_source_address lib env r metadata) (hit_source_port lib env r metadata)
       (hit_destination_address lib env r metadata) (hit_destination_port lib env r metadata)"

lemmas flag_defs = ruleMatchSourceAddress_def ruleMatchSourcePort_def
  ruleMatchDestinationAddress_def ruleMatchDestinationPort_def

lemma has_state_exp: "has_state s (2 ^ n) \<longleftrightarrow> bit s n"
  by (simp add: has_state_def and_exp_eq_0_iff_not_bit)

lemma flag_exps:
  "ruleMatchSourceAddress = 2 ^ 0" "ruleMatchSourcePort = 2 ^ 1"
  "ruleMatchDestinationAddress = 2 ^ 2" "ruleMatchDestinationPort = 2 ^ 3"
  by (simp_all add: flag_defs)

lemma has_state_flags:
  "has_state s ruleMatchSourceAddress \<longleftrightarrow> bit s 0"
  "has_state s ruleMatchSourcePort \<longleftrightarrow> bit s 1"
  "has_state s ruleMatchDestinationAddress \<longleftrightarrow> bit s 2"
  "has_state s ruleMatchDestinationPort \<longleftrightarrow> bit s 3"
  unfolding flag_exps has_state_exp by simp_all

lemma has_state_or [simp]: "has_state (a OR b) flag \<longleftrightarrow> has_state a flag \<or> has_state b flag"
  by (simp add: has_state_def and.commute [of _ flag] bit.conj_disj_distrib or_eq_0_iff)

lemma has_state_zero [simp]: "\<not> has_state 0 flag"
  by (simp add: has_state_def)

lemma has_state_bits_of [simp]:
  "has_state (bits_of sa sp da dp) ruleMatchSourceAddress \<longleftrightarrow> sa"
  "has_state (bits_of sa sp da dp) ruleMatchSourcePort \<longleftrightarrow> sp"
  "has_state (bits_of sa sp da dp) ruleMatchDestinationAddress \<longleftrightarrow> da"
  "has_state (bits_of sa sp da dp) ruleMatchDestinationPort \<longleftrightarrow> dp"
  by (auto simp: bits_of_def has_state_def flag_defs)

lemma bits_of_less_16 [simp, intro]: "bits_of sa sp da dp < 16"
  by (auto simp: bits_of_def flag_defs)

lemma or_exp_absorb:
  fixes b :: ruleMatchState
  assumes "has_state b (2 ^ n)"
  shows "b OR 2 ^ n = b"
  using assms unfolding has_state_exp
  by (intro bit_eqI) (auto simp: bit_or_iff bit_exp_iff)

lemma or_flag_absorb [simp]:
  "has_state b ruleMatchSourceAddress \<Longrightarrow> b OR ruleMatchSourceAddress = b"
  "has_state b ruleMatchSourcePort \<Longrightarrow> b OR ruleMatchSourcePort = b"
  "has_state b ruleMatchDestinationAddress \<Longrightarrow> b OR ruleMatchDestinationAddress = b"
  "has_state b ruleMatchDestinationPort \<Longrightarrow> b OR ruleMatchDestinationPort = b"
  unfolding flag_exps by (rule or_exp_absorb, assumption)+

text \<open>A group contributes its flag when it is looked at and one of its items matches; a skipped
  group would have contributed a flag that is there already.\<close>

lemma match_group_eq:
  assumes "\<And>b. has_state b flag \<Longrightarrow> b OR flag = b"
  shows "match_group lib env enabled skip is flag (b, metadata) =
     (b OR (if enabled \<and> matchAnyItem lib env is metadata then flag else 0),
      metadata\<lparr>DidMatch := DidMatch metadata \<or> enabled\<rparr>)"
  using assms by (auto simp: match_group_def matchAnyItem_def Let_def)

lemma matchAnyItem_DidMatch [simp]:
  "matchAnyItem lib env is (metadata\<lparr>DidMatch := b\<rparr>) = matchAnyItem lib env is metadata"
  by (simp add: matchAnyItem_def)

lemma matchAnyItem_Nil [simp]: "\<not> matchAnyItem lib env [] metadata"
  by (simp add: matchAnyItem_def)

lemma ipcidr_side_DidMatch [simp]:
  "destinationIPCIDRMatchesSource r (metadata\<lparr>DidMatch := b\<rparr>) = destinationIPCIDRMatchesSource r metadata"
  "destinationIPCIDRMatchesDestination r (metadata\<lparr>DidMatch := b\<rparr>) = destinationIPCIDRMatchesDestination r metadata"
  by (simp_all add: destinationIPCIDRMatchesSource_def destinationIPCIDRMatchesDestination_def)

definition looks_at_groups where
  "looks_at_groups r metadata \<longleftrightarrow>
     sourceAddressItems r \<noteq> [] \<or> destinationIPCIDRMatchesSource r metadata \<or> sourcePortItems r \<noteq> [] \<or>
     destinationAddressItems r \<noteq> [] \<or> destinationIPCIDRMatchesDestination r metadata \<or>
     destinationPortItems r \<noteq> []"

lemma flag_or_flag:
  fixes f :: "'a::len word"
  shows "(if a then f else 0) OR (if b then f else 0) = (if a \<or> b then f else 0)"
  by auto

lemma match_groups_eq:
  "match_groups lib env r (b, metadata) =
     (b OR hit_bits lib env r metadata, metadata\<lparr>DidMatch := DidMatch metadata \<or> looks_at_groups r metadata\<rparr>)"
proof -
  have nonempty: "(is \<noteq> [] \<and> matchAnyItem lib env is metadata) = matchAnyItem lib env is metadata" for "is"
    by (cases "is") simp_all
  have sort: "((((((b OR s1) OR s2) OR p) OR d1) OR d2) OR q) = b OR ((s1 OR s2) OR p OR (d1 OR d2) OR q)"
    for s1 s2 p d1 d2 q :: ruleMatchState
    by (simp only: or.assoc)
  have "fst (match_groups lib env r (b, metadata)) = b OR hit_bits lib env r metadata"
    unfolding match_groups_def Let_def
    by (simp only: match_group_eq or_flag_absorb snd_conv fst_conv matchAnyItem_DidMatch
        ipcidr_side_DidMatch nonempty hit_bits_def bits_of_def hit_source_address_def
        hit_source_port_def hit_destination_address_def hit_destination_port_def sort flag_or_flag)
  moreover have "snd (match_groups lib env r (b, metadata)) =
      metadata\<lparr>DidMatch := DidMatch metadata \<or> looks_at_groups r metadata\<rparr>"
    unfolding match_groups_def Let_def
    by (simp only: match_group_eq or_flag_absorb snd_conv ipcidr_side_DidMatch)
      (simp, rule arg_cong [where f = "\<lambda>b. metadata\<lparr>DidMatch := b\<rparr>"], auto simp: looks_at_groups_def)
  ultimately show ?thesis
    by (metis prod.collapse)
qed

lemma match_items_eq:
  "match_items lib env is metadata =
     (list_all (\<lambda>i. item_Match lib env i metadata) is,
      metadata\<lparr>DidMatch := DidMatch metadata \<or> is \<noteq> []\<rparr>)"
  by (induction "is" arbitrary: metadata) (auto simp: Let_def)

section \<open>Closed form of the default rule\<close>

definition items_match where
  "items_match lib env r metadata \<longleftrightarrow> list_all (\<lambda>i. item_Match lib env i metadata) (items r)"

lemma required_DidMatch [simp]:
  "requiresSourceAddressMatch r (metadata\<lparr>DidMatch := b\<rparr>) = requiresSourceAddressMatch r metadata"
  "requiresDestinationAddressMatch r (metadata\<lparr>DidMatch := b\<rparr>) = requiresDestinationAddressMatch r metadata"
  by (simp_all add: requiresSourceAddressMatch_def requiresDestinationAddressMatch_def)

lemma state_allowed_DidMatch [simp]:
  "state_allowed r (metadata\<lparr>DidMatch := b\<rparr>) = state_allowed r metadata"
  by (simp add: state_allowed_def fun_eq_iff)

text \<open>The states the conditions of a rule give before inversion, from a base state.\<close>

definition condition_states where
  "condition_states lib env setm r metadata b =
     (if items_match lib env r metadata
      then filter_states
             (case ruleSetItem r of
                None \<Rightarrow> singleRuleMatchState (b OR hit_bits lib env r metadata)
              | Some item \<Rightarrow> setm item (metadata\<lparr>DidMatch := True\<rparr>) (b OR hit_bits lib env r metadata))
             (state_allowed r metadata)
      else 0)"

text \<open>The exception for inverted rules in a pre-match that ignores the destination IP items: a rule
  none of whose conditions was looked at is not inverted.\<close>

definition nothing_looked_at where
  "nothing_looked_at r metadata \<longleftrightarrow>
     \<not> DidMatch metadata \<and> \<not> looks_at_groups r metadata \<and> items r = [] \<and> ruleSetItem r = None"

lemma isEmpty_zero [simp]: "isEmpty 0"
  by (simp add: isEmpty_def)

theorem default_matchStatesWithBase_eq:
  assumes "allItems r \<noteq> []"
  shows "fst (default_matchStatesWithBase lib env setm r metadata base) =
    (let s = condition_states lib env setm r metadata (if invert r then 0 else base)
     in if isEmpty s then invertedFailure r base
        else if invert r then
          (if IgnoreDestinationIPCIDRMatch metadata \<and> s = emptyRuleMatchState \<and>
              nothing_looked_at r metadata \<and> destinationIPCIDRItems r \<noteq> []
           then withBase emptyRuleMatchState base else 0)
        else s)"
proof (cases "items_match lib env r metadata")
  case False
  then show ?thesis
    using assms
    by (simp add: default_matchStatesWithBase_def match_groups_eq match_items_eq Let_def
        condition_states_def items_match_def)
next
  case True
  then show ?thesis
    using assms
    by (cases "ruleSetItem r")
      (simp_all add: default_matchStatesWithBase_def match_groups_eq match_items_eq Let_def
        condition_states_def items_match_def nothing_looked_at_def)
qed

section \<open>The interface of state matchers\<close>

text \<open>
  The interface \<^verbatim>\<open>ruleStateMatcherWithBase\<close> of \<^verbatim>\<open>match_state.go\<close>: rules,
  rule sets and rule set items are matched from a base state that holds the groups an enclosing rule
  has matched already. Its implementers keep the bits of the base, and matching from a larger base
  gives the larger states: an enclosing match never makes a nested rule fail.
\<close>

locale state_matcher =
  fixes m :: rule_matcher
  assumes keeps_base: "b < 16 \<Longrightarrow> x \<in> states (m metadata b) \<Longrightarrow> x OR b = x"
    and shift: "b < 16 \<Longrightarrow> c < 16 \<Longrightarrow> x \<in> states (m metadata b) \<Longrightarrow> x OR c \<in> states (m metadata (b OR c))"
begin

lemma has_base_flag:
  "b < 16 \<Longrightarrow> has_state b flag \<Longrightarrow> x \<in> states (m metadata b) \<Longrightarrow> has_state x flag"
  using keeps_base has_state_or by metis

lemma nonempty_mono:
  "b < 16 \<Longrightarrow> c < 16 \<Longrightarrow> \<not> isEmpty (m metadata b) \<Longrightarrow> \<not> isEmpty (m metadata (b OR c))"
  using shift [of b c _ metadata] unfolding isEmpty_iff_states by blast

lemma nonempty_from_zero:
  "b < 16 \<Longrightarrow> \<not> isEmpty (m metadata 0) \<Longrightarrow> \<not> isEmpty (m metadata b)"
  using nonempty_mono [of 0 b metadata] by simp

end

lemma or_rotate:
  fixes x b c :: ruleMatchState
  shows "(b OR c) OR x = (b OR x) OR c"
  by (simp only: or.assoc or.commute [of c])

lemma or_inner:
  fixes x b :: ruleMatchState
  shows "(b OR x) OR b = b OR x"
  by (simp only: or.commute [of "b OR x"] or.left_idem)

lemma or_part:
  fixes x b h :: ruleMatchState
  assumes "x OR (b OR h) = x"
  shows "x OR b = x"
proof -
  have "x OR b = (x OR (b OR h)) OR b"
    using assms by simp
  also have "\<dots> = x OR ((b OR h) OR b)"
    by (simp only: or.assoc)
  also have "\<dots> = x"
    using assms by (simp only: or_inner)
  finally show ?thesis .
qed

lemma or_less_16' [simp, intro]: "x < 16 \<Longrightarrow> y < 16 \<Longrightarrow> x OR y < (16 :: ruleMatchState)"
  by (rule or_less_16)

lemma state_matcher_const:
  assumes "\<And>metadata b. b < 16 \<Longrightarrow> states (m metadata b) = (if P metadata then {b} else {})"
  shows "state_matcher m"
  by unfold_locales (auto simp: assms split: if_splits)

lemma state_matcher_merge:
  assumes "state_matcher m" "state_matcher n"
  shows "state_matcher (\<lambda>metadata b. merge (m metadata b) (n metadata b))"
proof
  fix b x c :: ruleMatchState and metadata
  assume b: "b < 16" and x: "x \<in> states (merge (m metadata b) (n metadata b))"
  show "x OR b = x"
    using x state_matcher.keeps_base [OF assms(1) b, of x metadata]
      state_matcher.keeps_base [OF assms(2) b, of x metadata] by auto
  assume c: "c < 16"
  show "x OR c \<in> states (merge (m metadata (b OR c)) (n metadata (b OR c)))"
    using x state_matcher.shift [OF assms(1) b c, of x metadata]
      state_matcher.shift [OF assms(2) b c, of x metadata] by auto
qed

lemma state_matcher_combine:
  assumes "state_matcher m" "state_matcher n"
  shows "state_matcher (\<lambda>metadata b. combine (m metadata b) (n metadata b))"
proof
  fix b x :: ruleMatchState and metadata
  assume b: "b < 16" and "x \<in> states (combine (m metadata b) (n metadata b))"
  then obtain y z where yz: "x = y OR z" "y \<in> states (m metadata b)" "z \<in> states (n metadata b)"
    by auto
  show "x OR b = x"
    using state_matcher.keeps_base [OF assms(2) b yz(3)] yz(1) by (simp add: or.assoc)
  fix c :: ruleMatchState
  assume c: "c < 16"
  have "y OR c \<in> states (m metadata (b OR c))" "z OR c \<in> states (n metadata (b OR c))"
    using state_matcher.shift [OF assms(1) b c yz(2)] state_matcher.shift [OF assms(2) b c yz(3)] .
  moreover have "x OR c = (y OR c) OR (z OR c)"
    using yz(1) by (simp add: ac_simps)
  ultimately show "x OR c \<in> states (combine (m metadata (b OR c)) (n metadata (b OR c)))"
    by auto
qed

lemma state_matcher_pre: "state_matcher m \<Longrightarrow> state_matcher (\<lambda>metadata. m (g metadata))"
  unfolding state_matcher_def by blast

lemma state_matcher_foldl_merge:
  assumes "state_matcher a" "\<forall>m\<in>set ms. state_matcher m"
  shows "state_matcher (\<lambda>metadata b. foldl (\<lambda>s m. merge s (m (g metadata) b)) (a metadata b) ms)"
  using assms
proof (induction ms arbitrary: a)
  case (Cons m ms)
  have "state_matcher (\<lambda>metadata. m (g metadata))"
    using Cons.prems(2) by (simp add: state_matcher_pre)
  then show ?case
    using Cons.IH [OF state_matcher_merge [OF Cons.prems(1)], of "\<lambda>metadata. m (g metadata)"] Cons.prems(2)
    by simp
qed simp

lemma state_matcher_foldl_combine:
  assumes "state_matcher a" "\<forall>m\<in>set ms. state_matcher m"
  shows "state_matcher (\<lambda>metadata b. foldl (\<lambda>s m. combine s (m (g metadata) b)) (a metadata b) ms)"
  using assms
proof (induction ms arbitrary: a)
  case (Cons m ms)
  have "state_matcher (\<lambda>metadata. m (g metadata))"
    using Cons.prems(2) by (simp add: state_matcher_pre)
  then show ?case
    using Cons.IH [OF state_matcher_combine [OF Cons.prems(1)], of "\<lambda>metadata. m (g metadata)"] Cons.prems(2)
    by simp
qed simp

lemma state_matcher_zero: "state_matcher (\<lambda>_ _. 0)"
  by unfold_locales simp_all

lemma state_matcher_empty_withBase: "state_matcher (\<lambda>_. withBase emptyRuleMatchState)"
  by (rule state_matcher_const [where P = "\<lambda>_. True"]) simp

section \<open>Semantics of default rules\<close>

lemma hit_bits_less_16 [simp, intro]: "hit_bits lib env r metadata < 16"
  by (simp add: hit_bits_def)

lemma state_allowed_iff:
  "state_allowed r metadata x \<longleftrightarrow>
     (requiresSourceAddressMatch r metadata \<longrightarrow> has_state x ruleMatchSourceAddress) \<and>
     (sourcePortItems r \<noteq> [] \<longrightarrow> has_state x ruleMatchSourcePort) \<and>
     (requiresDestinationAddressMatch r metadata \<longrightarrow> has_state x ruleMatchDestinationAddress) \<and>
     (destinationPortItems r \<noteq> [] \<longrightarrow> has_state x ruleMatchDestinationPort)"
  by (simp add: state_allowed_def)

lemma state_allowed_or: "state_allowed r metadata x \<Longrightarrow> state_allowed r metadata (x OR c)"
  by (auto simp: state_allowed_iff)

lemma states_condition_None:
  assumes "ruleSetItem r = None" "b < 16"
  shows "states (condition_states lib env setm r metadata b) =
     (if items_match lib env r metadata \<and> state_allowed r metadata (b OR hit_bits lib env r metadata)
      then {b OR hit_bits lib env r metadata} else {})"
  using assms by (auto simp: condition_states_def)

lemma condition_state_matcher:
  assumes "\<And>item. ruleSetItem r = Some item \<Longrightarrow> state_matcher (setm item)"
  shows "state_matcher (condition_states lib env setm r)"
proof (cases "ruleSetItem r")
  case None
  have allowed: "state_allowed r metadata ((b OR c) OR h)" if "state_allowed r metadata (b OR h)"
    for metadata b c h
    using state_allowed_or [OF that, of c] or_rotate [of b c h] by simp
  show ?thesis
  proof
    fix b x c :: ruleMatchState and metadata
    assume b: "b < 16" and x: "x \<in> states (condition_states lib env setm r metadata b)"
    then have x_def: "x = b OR hit_bits lib env r metadata" and ok: "items_match lib env r metadata"
      and al: "state_allowed r metadata (b OR hit_bits lib env r metadata)"
      by (simp_all add: states_condition_None [OF None] split: if_splits)
    show "x OR b = x"
      unfolding x_def by (rule or_inner)
    assume c: "c < 16"
    show "x OR c \<in> states (condition_states lib env setm r metadata (b OR c))"
      using b c ok allowed [OF al, of c] or_rotate [of b c "hit_bits lib env r metadata"]
      by (simp add: x_def states_condition_None [OF None])
  qed
next
  case (Some item)
  let ?h = "hit_bits lib env r"
  note sm = assms [OF Some]
  have mem: "x \<in> states (condition_states lib env setm r metadata b) \<longleftrightarrow>
      items_match lib env r metadata \<and> state_allowed r metadata x \<and>
      x \<in> states (setm item (metadata\<lparr>DidMatch := True\<rparr>) (b OR ?h metadata))" for x metadata b
    by (auto simp: condition_states_def Some)
  show ?thesis
  proof
    fix b x :: ruleMatchState and metadata
    assume b: "b < 16" and x: "x \<in> states (condition_states lib env setm r metadata b)"
    have "x OR (b OR ?h metadata) = x"
      using state_matcher.keeps_base [OF sm] b x unfolding mem by auto
    then show "x OR b = x"
      by (rule or_part)
    fix c :: ruleMatchState
    assume c: "c < 16"
    show "x OR c \<in> states (condition_states lib env setm r metadata (b OR c))"
      using state_matcher.shift [OF sm, of "b OR ?h metadata" c x "metadata\<lparr>DidMatch := True\<rparr>"] b c x
        state_allowed_or [of r metadata x c] or_rotate [of b c "?h metadata"]
      unfolding mem by simp
  qed
qed

lemma default_state_matcher:
  assumes "\<And>item. ruleSetItem r = Some item \<Longrightarrow> state_matcher (setm item)"
  shows "state_matcher (\<lambda>metadata b. fst (default_matchStatesWithBase lib env setm r metadata b))"
proof (cases "allItems r = []")
  case True
  then show ?thesis
    using state_matcher_empty_withBase by (simp add: default_matchStatesWithBase_def)
next
  case False
  note eq = default_matchStatesWithBase_eq [OF False]
  show ?thesis
  proof (cases "invert r")
    case True
    show ?thesis
      by (rule state_matcher_const [where P = "\<lambda>metadata.
            isEmpty (condition_states lib env setm r metadata 0) \<or>
            IgnoreDestinationIPCIDRMatch metadata \<and>
            condition_states lib env setm r metadata 0 = emptyRuleMatchState \<and>
            nothing_looked_at r metadata \<and> destinationIPCIDRItems r \<noteq> []"])
        (simp add: eq True Let_def invertedFailure_def)
  next
    case False
    have "fst (default_matchStatesWithBase lib env setm r metadata b) = condition_states lib env setm r metadata b"
      for metadata b
      using False by (simp add: eq Let_def invertedFailure_def isEmpty_def)
    then show ?thesis
      using condition_state_matcher [OF assms] by simp
  qed
qed

text \<open>The general form of the semantics: from a base state, a rule without rule sets matches exactly
  when every item outside the groups matches and every group that is not empty has an item that
  matches, or is part of the base.\<close>

definition default_accepts where
  "default_accepts lib env r metadata b \<longleftrightarrow>
     items_match lib env r metadata \<and> state_allowed r metadata (b OR hit_bits lib env r metadata)"

lemma states_default_None:
  assumes "allItems r \<noteq> []" "ruleSetItem r = None" "base < 16" "\<not> IgnoreDestinationIPCIDRMatch metadata"
  shows "states (fst (default_matchStatesWithBase lib env setm r metadata base)) =
     (if invert r then (if default_accepts lib env r metadata 0 then {} else {base})
      else if default_accepts lib env r metadata base then {base OR hit_bits lib env r metadata} else {})"
  using assms
  by (simp add: default_matchStatesWithBase_eq Let_def isEmpty_iff_states states_condition_None
      default_accepts_def invertedFailure_def)

lemma has_hit_bits [simp]:
  "has_state (hit_bits lib env r metadata) ruleMatchSourceAddress = hit_source_address lib env r metadata"
  "has_state (hit_bits lib env r metadata) ruleMatchSourcePort = hit_source_port lib env r metadata"
  "has_state (hit_bits lib env r metadata) ruleMatchDestinationAddress = hit_destination_address lib env r metadata"
  "has_state (hit_bits lib env r metadata) ruleMatchDestinationPort = hit_destination_port lib env r metadata"
  by (simp_all add: hit_bits_def)

lemma matchAnyItem_iff: "matchAnyItem lib env is metadata \<longleftrightarrow> (\<exists>i\<in>set is. item_Match lib env i metadata)"
  by (simp add: matchAnyItem_def list_ex_iff)

lemmas hit_defs = hit_source_address_def hit_source_port_def hit_destination_address_def
  hit_destination_port_def requiresSourceAddressMatch_def requiresDestinationAddressMatch_def
  destinationIPCIDRMatchesSource_def destinationIPCIDRMatchesDestination_def

section \<open>Semantics of logical rules\<close>

lemma logical_and_loop_eq:
  "logical_and_loop nested metadata b s =
     (if \<exists>m\<in>set nested. isEmpty (m (ResetRuleCache metadata) b) then None
      else Some (foldl (\<lambda>s m. combine s (m (ResetRuleCache metadata) b)) s nested))"
  by (induction nested arbitrary: s) (auto simp: Let_def)

lemma foldl_combine_map:
  "foldl (\<lambda>s m. combine s (m metadata b)) s ms = foldl combine s (map (\<lambda>m :: rule_matcher. m metadata b) ms)"
  "foldl (\<lambda>s m. merge s (m metadata b)) s ms = foldl merge s (map (\<lambda>m :: rule_matcher. m metadata b) ms)"
  by (induction ms arbitrary: s) simp_all

lemma isEmpty_empty_withBase [simp]: "b < 16 \<Longrightarrow> \<not> isEmpty (withBase emptyRuleMatchState b)"
  by (simp add: isEmpty_iff_states)

text \<open>The conjunction, as a fold that does not stop early: the product of an empty set is empty.\<close>

lemma logical_and_eq:
  assumes "base < 16"
  shows "logical_matchStatesWithBase LogicalTypeAnd False nested metadata base =
     foldl combine (withBase emptyRuleMatchState base)
       (map (\<lambda>m. m (ResetRuleCache metadata) base) nested)"
proof (cases "\<exists>m\<in>set nested. isEmpty (m (ResetRuleCache metadata) base)")
  case True
  then have "foldl combine (withBase emptyRuleMatchState base)
      (map (\<lambda>m. m (ResetRuleCache metadata) base) nested) = 0"
    by (auto simp: ms.foldl_times_zero_iff isEmpty_def)
  then show ?thesis
    using True by (simp add: logical_matchStatesWithBase_def logical_and_loop_eq)
qed (simp add: logical_matchStatesWithBase_def logical_and_loop_eq foldl_combine_map)

lemma logical_or_eq:
  "mode \<noteq> LogicalTypeAnd \<Longrightarrow>
   logical_matchStatesWithBase mode False nested metadata base =
     foldl merge 0 (map (\<lambda>m. m (ResetRuleCache metadata) base) nested)"
  by (simp add: logical_matchStatesWithBase_def Let_def foldl_combine_map isEmpty_def)

lemma logical_invert_eq:
  assumes "base < 16"
  shows "logical_matchStatesWithBase mode True nested metadata base =
     (if isEmpty (logical_matchStatesWithBase mode False nested metadata 0)
      then withBase emptyRuleMatchState base else 0)"
proof (cases "mode = LogicalTypeAnd")
  case True
  have "isEmpty (foldl combine (withBase emptyRuleMatchState 0) (map (\<lambda>m. m (ResetRuleCache metadata) 0) nested)) \<longleftrightarrow>
      (\<exists>m\<in>set nested. isEmpty (m (ResetRuleCache metadata) 0))"
    using isEmpty_empty_withBase [of 0] by (auto simp: isEmpty_def ms.foldl_times_zero_iff)
  then show ?thesis
    using True by (simp add: logical_matchStatesWithBase_def Let_def logical_and_loop_eq foldl_combine_map)
next
  case False
  then show ?thesis
    by (simp add: logical_matchStatesWithBase_def Let_def)
qed

text \<open>A logical rule matches when all, or any, of its rules do; an inverted one when it is not so.
  Its rules are matched from the base of the rule, or from nothing when it is inverted.\<close>

lemma logical_nonempty_iff:
  assumes "base < 16"
  shows "\<not> isEmpty (logical_matchStatesWithBase mode inverted nested metadata base) \<longleftrightarrow>
     inverted \<noteq>
       (let match = (\<lambda>m. \<not> isEmpty (m (ResetRuleCache metadata) (if inverted then 0 else base)))
        in if mode = LogicalTypeAnd then \<forall>m\<in>set nested. match m else \<exists>m\<in>set nested. match m)"
proof -
  have plain: "\<not> isEmpty (logical_matchStatesWithBase mode False nested metadata b) \<longleftrightarrow>
       (let match = (\<lambda>m. \<not> isEmpty (m (ResetRuleCache metadata) b))
        in if mode = LogicalTypeAnd then \<forall>m\<in>set nested. match m else \<exists>m\<in>set nested. match m)"
    if "b < 16" for b
    using that isEmpty_empty_withBase [of b]
    by (auto simp: logical_and_eq logical_or_eq isEmpty_def ms.foldl_times_zero_iff ms.foldl_plus_zero_iff Let_def)
  show ?thesis
    using plain [of base] plain [of 0] assms by (cases inverted; cases "mode = LogicalTypeAnd") (auto simp: logical_invert_eq Let_def)
qed

lemma logical_perm:
  assumes "mset nested = mset nested'" "base < 16"
  shows "logical_matchStatesWithBase mode inverted nested metadata base =
    logical_matchStatesWithBase mode inverted nested' metadata base"
proof -
  have plain: "logical_matchStatesWithBase mode False nested metadata b =
      logical_matchStatesWithBase mode False nested' metadata b" if "b < 16" for b
    using ms.foldl_times_perm ms.foldl_plus_perm assms(1) that
    by (cases "mode = LogicalTypeAnd") (simp_all add: logical_and_eq logical_or_eq)
  show ?thesis
    using plain [of base] plain [of 0] assms(2) by (cases inverted) (simp_all add: logical_invert_eq)
qed

lemma logical_state_matcher:
  assumes "\<forall>m\<in>set nested. state_matcher m"
  shows "state_matcher (logical_matchStatesWithBase mode inverted nested)"
proof (cases inverted)
  case True
  show ?thesis
    by (rule state_matcher_const [where P = "\<lambda>metadata.
          isEmpty (logical_matchStatesWithBase mode False nested metadata 0)"])
      (simp add: True logical_invert_eq)
next
  case False
  show ?thesis
  proof (cases "mode = LogicalTypeAnd")
    case True
    have "state_matcher (\<lambda>metadata b. foldl (\<lambda>s m. combine s (m (ResetRuleCache metadata) b))
        (withBase emptyRuleMatchState b) nested)"
      by (rule state_matcher_foldl_combine [OF state_matcher_empty_withBase assms])
    then show ?thesis
      using False True unfolding state_matcher_def
      by (simp add: logical_and_eq foldl_combine_map)
  next
    case or: False
    have "state_matcher (\<lambda>metadata b. foldl (\<lambda>s m. merge s (m (ResetRuleCache metadata) b)) 0 nested)"
      by (rule state_matcher_foldl_merge [OF state_matcher_zero assms])
    then show ?thesis
      using False or unfolding state_matcher_def
      by (simp add: logical_or_eq foldl_combine_map)
  qed
qed

section \<open>Ignoring the destination IP items\<close>

text \<open>The flag that makes a pre-match ignore the destination IP items is of no consequence for a rule
  that has none.\<close>

abbreviation ignore_ip :: "bool \<Rightarrow> InboundContext \<Rightarrow> InboundContext" where
  "ignore_ip b metadata \<equiv> metadata\<lparr>IgnoreDestinationIPCIDRMatch := b\<rparr>"

lemma ResetRuleCache_ignore [simp]: "ResetRuleCache (ignore_ip b metadata) = ignore_ip b (ResetRuleCache metadata)"
  by (simp add: ResetRuleCache_def ResetRuleMatchCache_def)

lemma ResetRuleMatchCache_ignore [simp]:
  "ResetRuleMatchCache (ignore_ip b metadata) = ignore_ip b (ResetRuleMatchCache metadata)"
  by (simp add: ResetRuleMatchCache_def)

lemma matchAnyItem_ignore [simp]:
  "matchAnyItem lib env is (ignore_ip b metadata) = matchAnyItem lib env is metadata"
  by (simp add: matchAnyItem_def)

lemma default_ignore:
  assumes none: "destinationIPCIDRItems r = []"
    and setm: "\<And>item m c. ruleSetItem r = Some item \<Longrightarrow> setm item (ignore_ip b m) c = setm item m c"
  shows "fst (default_matchStatesWithBase lib env setm r (ignore_ip b metadata) base) =
    fst (default_matchStatesWithBase lib env setm r metadata base)"
proof (cases "allItems r = []")
  case True
  then show ?thesis
    by (simp add: default_matchStatesWithBase_def)
next
  case False
  have comm: "(ignore_ip b metadata)\<lparr>DidMatch := True\<rparr> = ignore_ip b (metadata\<lparr>DidMatch := True\<rparr>)"
    by simp
  have req: "hit_bits lib env r (ignore_ip b metadata) = hit_bits lib env r metadata"
    "state_allowed r (ignore_ip b metadata) = state_allowed r metadata"
    "items_match lib env r (ignore_ip b metadata) = items_match lib env r metadata"
    using none by (simp_all add: fun_eq_iff hit_bits_def hit_defs state_allowed_def items_match_def)
  have "condition_states lib env setm r (ignore_ip b metadata) c = condition_states lib env setm r metadata c" for c
    unfolding condition_states_def req comm using setm by (simp split: option.splits)
  then show ?thesis
    using none by (simp add: default_matchStatesWithBase_eq [OF False] Let_def)
qed

fun has_ip_items :: "headless_rule \<Rightarrow> bool" where
  "has_ip_items (DefaultHeadlessRule r) \<longleftrightarrow> destinationIPCIDRItems r \<noteq> []"
| "has_ip_items (LogicalHeadlessRule mode rules inverted) \<longleftrightarrow> list_ex has_ip_items rules"

lemma logical_ignore:
  assumes "\<And>m md c. m \<in> set nested \<Longrightarrow> m (ignore_ip b md) c = m md c"
  shows "logical_matchStatesWithBase mode inverted nested (ignore_ip b metadata) base =
    logical_matchStatesWithBase mode inverted nested metadata base"
proof -
  have eq: "map (\<lambda>m. m (ignore_ip b (ResetRuleCache metadata)) c) nested =
      map (\<lambda>m. m (ResetRuleCache metadata) c) nested" for c
    using assms by simp
  have "(\<exists>m\<in>set nested. isEmpty (m (ignore_ip b (ResetRuleCache metadata)) c)) \<longleftrightarrow>
      (\<exists>m\<in>set nested. isEmpty (m (ResetRuleCache metadata) c))" for c
    using arg_cong [OF eq [of c], of "list_ex isEmpty"] by (simp add: list_ex_iff)
  then have loop: "logical_and_loop nested (ignore_ip b metadata) c s = logical_and_loop nested metadata c s" for c s
    by (simp add: logical_and_loop_eq foldl_combine_map eq)
  show ?thesis
    by (simp add: logical_matchStatesWithBase_def loop foldl_combine_map eq)
qed

lemma headless_ignore:
  "\<not> has_ip_items rule \<Longrightarrow>
   headless_matchStatesWithBase lib env rule (ignore_ip b metadata) base =
   headless_matchStatesWithBase lib env rule metadata base"
proof (induction rule arbitrary: metadata base)
  case (DefaultHeadlessRule r)
  then show ?case
    by (simp add: default_ignore)
next
  case (LogicalHeadlessRule mode rules inverted)
  then show ?case
    by (auto intro!: logical_ignore simp: list_ex_iff)
qed

section \<open>Headless rules are state matchers\<close>

lemma headless_state_matcher: "state_matcher (headless_matchStatesWithBase lib env rule)"
proof (induction rule)
  case (DefaultHeadlessRule r)
  have "state_matcher (\<lambda>metadata b. fst (default_matchStatesWithBase lib env (\<lambda>_ _ _. 0) r metadata b))"
    by (rule default_state_matcher) (rule state_matcher_zero)
  then show ?case
    by simp
next
  case (LogicalHeadlessRule mode rules inverted)
  then show ?case
    using logical_state_matcher [of "map (headless_matchStatesWithBase lib env) rules" mode inverted]
    by simp
qed

interpretation hm: state_matcher "headless_matchStatesWithBase lib env rule" for lib env rule
  by (rule headless_state_matcher)

section \<open>Properties\<close>

text \<open>
  C2. The documented formula of a default rule: a rule without rule sets matches, or does not match
  when it is inverted, exactly when every item outside the groups matches and each of the four
  groups (source address, source port, destination address with the destination IP items,
  destination port) is empty or has an item that matches.
\<close>

theorem default_rule_formula:
  assumes "allItems r \<noteq> []" "ruleSetItem r = None"
    and "\<not> IgnoreDestinationIPCIDRMatch metadata" "\<not> IPCIDRMatchSource metadata"
  shows "fst (default_Match lib env setm r metadata) \<longleftrightarrow>
    invert r \<noteq>
      ((\<forall>i\<in>set (items r). item_Match lib env i metadata) \<and>
       (sourceAddressItems r \<noteq> [] \<longrightarrow> (\<exists>i\<in>set (sourceAddressItems r). item_Match lib env i metadata)) \<and>
       (sourcePortItems r \<noteq> [] \<longrightarrow> (\<exists>i\<in>set (sourcePortItems r). item_Match lib env i metadata)) \<and>
       (destinationAddressItems r @ destinationIPCIDRItems r \<noteq> [] \<longrightarrow>
          (\<exists>i\<in>set (destinationAddressItems r @ destinationIPCIDRItems r). item_Match lib env i metadata)) \<and>
       (destinationPortItems r \<noteq> [] \<longrightarrow> (\<exists>i\<in>set (destinationPortItems r). item_Match lib env i metadata)))"
proof -
  have "fst (default_Match lib env setm r metadata) \<longleftrightarrow> invert r \<noteq> default_accepts lib env r metadata 0"
    using states_default_None [OF assms(1,2) _ assms(3), of 0]
    by (simp add: default_Match_def default_matchStates_def isEmpty_iff_states split_beta)
  also have "default_accepts lib env r metadata 0 \<longleftrightarrow>
      (\<forall>i\<in>set (items r). item_Match lib env i metadata) \<and>
       (sourceAddressItems r \<noteq> [] \<longrightarrow> (\<exists>i\<in>set (sourceAddressItems r). item_Match lib env i metadata)) \<and>
       (sourcePortItems r \<noteq> [] \<longrightarrow> (\<exists>i\<in>set (sourcePortItems r). item_Match lib env i metadata)) \<and>
       (destinationAddressItems r @ destinationIPCIDRItems r \<noteq> [] \<longrightarrow>
          (\<exists>i\<in>set (destinationAddressItems r @ destinationIPCIDRItems r). item_Match lib env i metadata)) \<and>
       (destinationPortItems r \<noteq> [] \<longrightarrow> (\<exists>i\<in>set (destinationPortItems r). item_Match lib env i metadata))"
    using assms(3,4)
    by (auto simp: default_accepts_def items_match_def list_all_iff state_allowed_iff hit_defs
        matchAnyItem_iff)
  finally show ?thesis .
qed

lemma default_rule_formula_witness:
  "\<exists>r :: (unit, unit) abstractDefaultRule.
     allItems r \<noteq> [] \<and> ruleSetItem r = None \<and>
     fst (default_Match sample_lib netenv_zero (\<lambda>_ _ _. 0) r
       (InboundContext_zero\<lparr>Network := ''tcp'', Destination := socksaddr_zero\<lparr>sa_Port := 443\<rparr>\<rparr>))"
proof -
  let ?net = "NewNetworkItem [''tcp'']" and ?port = "NewPortItem False [80, 443]"
  let ?r = "\<lparr>items = [?net], sourceAddressItems = [], sourcePortItems = [], destinationAddressItems = [],
    destinationIPCIDRItems = [], destinationPortItems = [?port], allItems = [PlainItem ?net, PlainItem ?port],
    ruleSetItem = None, invert = False, action = None\<rparr> :: (unit, unit) abstractDefaultRule"
  let ?m = "InboundContext_zero\<lparr>Network := ''tcp'', Destination := socksaddr_zero\<lparr>sa_Port := 443\<rparr>\<rparr>"
  have "fst (default_Match sample_lib netenv_zero (\<lambda>_ _ _. 0) ?r ?m)"
    using default_rule_formula [of ?r ?m sample_lib netenv_zero "\<lambda>_ _ _. 0"]
    by (simp add: InboundContext_zero_def NewNetworkItem_def NewPortItem_def NetworkItem_Match_def PortItem_Match_def)
  then show ?thesis
    by (intro exI [of _ ?r]) simp
qed

text \<open>
  A logical headless rule matches when all of its rules match (mode and), or when one of them does
  (any other mode), each on metadata with the rule cache cleared; an inverted one when that is not so.
\<close>

theorem headless_logical_formula:
  "headless_Match lib env (LogicalHeadlessRule mode rules inverted) metadata \<longleftrightarrow>
     inverted \<noteq>
       (if mode = LogicalTypeAnd
        then list_all (\<lambda>rule. headless_Match lib env rule (ResetRuleCache metadata)) rules
        else list_ex (\<lambda>rule. headless_Match lib env rule (ResetRuleCache metadata)) rules)"
  using logical_nonempty_iff [of 0 mode inverted "map (headless_matchStatesWithBase lib env) rules" metadata]
  by (simp add: headless_Match_def headless_matchStates_def Let_def list_all_iff list_ex_iff)

text \<open>
  The order in which the rules of a logical headless rule are written does not matter, for the set
  of states it gives to an enclosing rule as for the match itself.
\<close>

theorem headless_logical_order:
  assumes "mset rules = mset rules'" "base < 16"
  shows "headless_matchStatesWithBase lib env (LogicalHeadlessRule mode rules inverted) metadata base =
    headless_matchStatesWithBase lib env (LogicalHeadlessRule mode rules' inverted) metadata base"
  using logical_perm [of "map (headless_matchStatesWithBase lib env) rules"
      "map (headless_matchStatesWithBase lib env) rules'" base mode inverted metadata] assms
  by simp

text \<open>
  Matching from the groups an enclosing rule has matched already never loses them, and never makes a
  headless rule fail that would match on its own, however logical and inverted rules are nested.
\<close>

theorem headless_base_kept:
  assumes "base < 16"
  shows "(\<forall>x \<in> states (headless_matchStatesWithBase lib env rule metadata base). x OR base = x) \<and>
    (headless_Match lib env rule metadata \<longrightarrow>
      \<not> isEmpty (headless_matchStatesWithBase lib env rule metadata base))"
  using hm.keeps_base [OF assms] hm.nonempty_from_zero [OF assms]
  by (auto simp: headless_Match_def headless_matchStates_def)

definition sample_headless_rule :: headless_rule where
  "sample_headless_rule =
     (let net = NewNetworkItem [''tcp'']; port = NewPortItem False [443]
      in LogicalHeadlessRule LogicalTypeAnd
           [DefaultHeadlessRule \<lparr>items = [net], sourceAddressItems = [], sourcePortItems = [],
              destinationAddressItems = [], destinationIPCIDRItems = [], destinationPortItems = [],
              allItems = [PlainItem net], ruleSetItem = None, invert = False, action = None\<rparr>,
            DefaultHeadlessRule \<lparr>items = [], sourceAddressItems = [], sourcePortItems = [],
              destinationAddressItems = [], destinationIPCIDRItems = [], destinationPortItems = [port],
              allItems = [PlainItem port], ruleSetItem = None, invert = False, action = None\<rparr>] False)"

definition sample_metadata :: InboundContext where
  "sample_metadata = InboundContext_zero\<lparr>Network := ''tcp'', Destination := socksaddr_zero\<lparr>sa_Port := 443\<rparr>\<rparr>"

lemma sample_headless_Match: "headless_Match sample_lib netenv_zero sample_headless_rule sample_metadata"
  by code_simp

lemma headless_base_kept_witness:
  "headless_Match sample_lib netenv_zero sample_headless_rule sample_metadata \<and>
   \<not> isEmpty (headless_matchStatesWithBase sample_lib netenv_zero sample_headless_rule sample_metadata 5)"
  using headless_base_kept [of 5 sample_lib netenv_zero sample_headless_rule sample_metadata]
    sample_headless_Match by simp

lemma headless_logical_order_witness:
  "headless_matchStatesWithBase sample_lib netenv_zero
     (LogicalHeadlessRule LogicalTypeOr [sample_headless_rule, LogicalHeadlessRule LogicalTypeOr [] True] False)
     sample_metadata 3 =
   headless_matchStatesWithBase sample_lib netenv_zero
     (LogicalHeadlessRule LogicalTypeOr [LogicalHeadlessRule LogicalTypeOr [] True, sample_headless_rule] False)
     sample_metadata 3"
  by (rule headless_logical_order) simp_all

end
