(* ===== verification/Rule_Build.thy ===== *)
theory Rule_Build
  imports Rule_Match
begin

text \<open>
  What the three constructors of default rules (\<^verbatim>\<open>rule_headless.go\<close>,
  \<^verbatim>\<open>rule_default.go\<close>, \<^verbatim>\<open>rule_dns.go\<close>) have in common: each is a sequence of
  conditional blocks that make an item, return its error, and append it to one of the groups and to
  the list of all items. The sequence is a list of steps, run in order by \<open>build_items\<close>.
\<close>

datatype item_group =
    G_items | G_sourceAddressItems | G_sourcePortItems | G_destinationAddressItems
  | G_destinationIPCIDRItems | G_destinationPortItems

fun append_item ::
    "item_group \<Rightarrow> rule_item \<Rightarrow> ('rs, 'act) abstractDefaultRule \<Rightarrow> ('rs, 'act) abstractDefaultRule" where
  "append_item G_items i r = r\<lparr>items := items r @ [i], allItems := allItems r @ [PlainItem i]\<rparr>"
| "append_item G_sourceAddressItems i r =
     r\<lparr>sourceAddressItems := sourceAddressItems r @ [i], allItems := allItems r @ [PlainItem i]\<rparr>"
| "append_item G_sourcePortItems i r =
     r\<lparr>sourcePortItems := sourcePortItems r @ [i], allItems := allItems r @ [PlainItem i]\<rparr>"
| "append_item G_destinationAddressItems i r =
     r\<lparr>destinationAddressItems := destinationAddressItems r @ [i], allItems := allItems r @ [PlainItem i]\<rparr>"
| "append_item G_destinationIPCIDRItems i r =
     r\<lparr>destinationIPCIDRItems := destinationIPCIDRItems r @ [i], allItems := allItems r @ [PlainItem i]\<rparr>"
| "append_item G_destinationPortItems i r =
     r\<lparr>destinationPortItems := destinationPortItems r @ [i], allItems := allItems r @ [PlainItem i]\<rparr>"

type_synonym build_step = "bool \<times> item_group \<times> rule_item result"

fun build_items ::
    "build_step list \<Rightarrow> ('rs, 'act) abstractDefaultRule \<Rightarrow> ('rs, 'act) abstractDefaultRule result" where
  "build_items [] r = Inr r"
| "build_items ((enabled, grp, item) # rest) r =
     (if enabled then bind_result item (\<lambda>i. build_items rest (append_item grp i r))
      else build_items rest r)"

text \<open>\<^verbatim>\<open>rule.ruleSetItem = item; rule.allItems = append(rule.allItems, item)\<close>.\<close>

definition append_set_item :: "'rs \<Rightarrow> ('rs, 'act) abstractDefaultRule \<Rightarrow> ('rs, 'act) abstractDefaultRule" where
  "append_set_item item r = r\<lparr>ruleSetItem := Some item, allItems := allItems r @ [SetItem item]\<rparr>"

definition new_rule :: "bool \<Rightarrow> 'act option \<Rightarrow> ('rs, 'act) abstractDefaultRule" where
  "new_rule inverted act = \<lparr>items = [], sourceAddressItems = [], sourcePortItems = [],
     destinationAddressItems = [], destinationIPCIDRItems = [], destinationPortItems = [],
     allItems = [], ruleSetItem = None, invert = inverted, action = act\<rparr>"

section \<open>Well-formed rules\<close>

text \<open>The list of all items holds exactly the items of the groups and the rule set item, and every
  item is in a group of its kind.\<close>

definition group_lists :: "('rs, 'act) abstractDefaultRule \<Rightarrow> rule_item list" where
  "group_lists r = items r @ sourceAddressItems r @ sourcePortItems r @ destinationAddressItems r @
     destinationIPCIDRItems r @ destinationPortItems r"

definition all_items_complete :: "('rs, 'act) abstractDefaultRule \<Rightarrow> bool" where
  "all_items_complete r \<longleftrightarrow>
     mset (allItems r) = image_mset PlainItem (mset (group_lists r)) +
       (case ruleSetItem r of None \<Rightarrow> {#} | Some item \<Rightarrow> {#SetItem item#})"

fun group_of :: "rule_item \<Rightarrow> item_group" where
  "group_of (DomainItem _) = G_destinationAddressItems"
| "group_of (DomainKeywordItem _) = G_destinationAddressItems"
| "group_of (DomainRegexItem _) = G_destinationAddressItems"
| "group_of (AdGuardDomainItem _) = G_destinationAddressItems"
| "group_of (IPCIDRItem _ isSource) = (if isSource then G_sourceAddressItems else G_destinationIPCIDRItems)"
| "group_of (IPIsPrivateItem isSource) = (if isSource then G_sourceAddressItems else G_destinationIPCIDRItems)"
| "group_of IPAcceptAnyItem = G_destinationIPCIDRItems"
| "group_of (PortItem _ _ isSource) = (if isSource then G_sourcePortItems else G_destinationPortItems)"
| "group_of (PortRangeItem isSource _ _) = (if isSource then G_sourcePortItems else G_destinationPortItems)"
| "group_of _ = G_items"

fun group_list :: "item_group \<Rightarrow> ('rs, 'act) abstractDefaultRule \<Rightarrow> rule_item list" where
  "group_list G_items r = items r"
| "group_list G_sourceAddressItems r = sourceAddressItems r"
| "group_list G_sourcePortItems r = sourcePortItems r"
| "group_list G_destinationAddressItems r = destinationAddressItems r"
| "group_list G_destinationIPCIDRItems r = destinationIPCIDRItems r"
| "group_list G_destinationPortItems r = destinationPortItems r"

definition well_sorted :: "('rs, 'act) abstractDefaultRule \<Rightarrow> bool" where
  "well_sorted r \<longleftrightarrow> (\<forall>g. \<forall>i\<in>set (group_list g r). group_of i = g)"

definition wf_rule :: "('rs, 'act) abstractDefaultRule \<Rightarrow> bool" where
  "wf_rule r \<longleftrightarrow> all_items_complete r \<and> well_sorted r"

lemma group_list_append_item:
  "group_list g (append_item g' i r) = group_list g r @ (if g = g' then [i] else [])"
  by (cases g; cases g') simp_all

lemma mset_group_lists_append_item [simp]:
  "mset (group_lists (append_item g i r)) = add_mset i (mset (group_lists r))"
  by (cases g) (simp_all add: group_lists_def)

lemma append_item_simps [simp]:
  "allItems (append_item g i r) = allItems r @ [PlainItem i]"
  "ruleSetItem (append_item g i r) = ruleSetItem r"
  "invert (append_item g i r) = invert r"
  "action (append_item g i r) = action r"
  by (cases g; simp)+

lemma group_list_new_rule [simp]: "group_list g (new_rule inverted act) = []"
  by (cases g) (simp_all add: new_rule_def)

lemma new_rule_simps [simp]:
  "allItems (new_rule inverted act) = []" "ruleSetItem (new_rule inverted act) = None"
  "invert (new_rule inverted act) = inverted" "action (new_rule inverted act) = act"
  "group_lists (new_rule inverted act) = []"
  by (simp_all add: new_rule_def group_lists_def)

lemma wf_new_rule [simp, intro]: "wf_rule (new_rule inverted act)"
  by (simp add: wf_rule_def all_items_complete_def well_sorted_def)

lemma wf_append_item: "wf_rule r \<Longrightarrow> group_of i = g \<Longrightarrow> wf_rule (append_item g i r)"
  by (auto simp: wf_rule_def all_items_complete_def well_sorted_def group_list_append_item)

lemma wf_append_set_item:
  assumes "wf_rule r" "ruleSetItem r = None"
  shows "wf_rule (append_set_item item r)"
proof -
  have "group_list g (append_set_item item r) = group_list g r" for g
    by (cases g) (simp_all add: append_set_item_def)
  moreover have "group_lists (append_set_item item r) = group_lists r"
    by (simp add: group_lists_def append_set_item_def)
  ultimately show ?thesis
    using assms by (simp add: wf_rule_def all_items_complete_def well_sorted_def) (simp add: append_set_item_def)
qed

text \<open>A step is sound when the item it makes belongs to the group it is appended to.\<close>

definition step_sorted :: "build_step \<Rightarrow> bool" where
  "step_sorted s = (case s of (enabled, g, item) \<Rightarrow> \<forall>i. item = Inr i \<longrightarrow> group_of i = g)"

lemma build_items_wf:
  assumes "build_items steps r = Inr r'" "wf_rule r" "\<forall>s\<in>set steps. step_sorted s"
  shows "wf_rule r'"
  using assms
proof (induction steps r rule: build_items.induct)
  case (2 enabled grp item rest r)
  then show ?case
    by (cases enabled; cases item) (auto simp: step_sorted_def intro: wf_append_item)
qed simp

lemma build_items_keeps:
  "build_items steps r = Inr r' \<Longrightarrow> ruleSetItem r' = ruleSetItem r \<and> invert r' = invert r \<and> action r' = action r"
proof (induction steps r rule: build_items.induct)
  case (2 enabled grp item rest r)
  then show ?case
    by (cases enabled; cases item) auto
qed simp

text \<open>What the groups of the rule hold: one item for each enabled step of the grp, in order.\<close>

definition step_items :: "item_group \<Rightarrow> build_step list \<Rightarrow> rule_item result list" where
  "step_items g steps = map (\<lambda>(_, _, item). item) (filter (\<lambda>(enabled, grp, _). enabled \<and> grp = g) steps)"

lemma build_items_group:
  "build_items steps r = Inr r' \<Longrightarrow>
   map Inr (group_list g r') = map Inr (group_list g r) @ step_items g steps"
proof (induction steps r rule: build_items.induct)
  case (2 enabled grp item rest r)
  then show ?case
    by (cases enabled; cases item) (auto simp: step_items_def group_list_append_item)
qed (simp add: step_items_def)

lemma build_items_error:
  "build_items steps r = Inl e \<Longrightarrow> \<exists>s\<in>set steps. case s of (enabled, g, item) \<Rightarrow> enabled \<and> item = Inl e"
proof (induction steps r rule: build_items.induct)
  case (2 enabled grp item rest r)
  then show ?case
    by (cases enabled; cases item) auto
qed simp

lemma allItems_Nil_iff: "wf_rule r \<Longrightarrow> allItems r = [] \<longleftrightarrow> group_lists r = [] \<and> ruleSetItem r = None"
proof -
  assume "wf_rule r"
  then have "mset (allItems r) = image_mset PlainItem (mset (group_lists r)) +
       (case ruleSetItem r of None \<Rightarrow> {#} | Some item \<Rightarrow> {#SetItem item#})"
    by (simp add: wf_rule_def all_items_complete_def)
  then have "mset (allItems r) = {#} \<longleftrightarrow> mset (group_lists r) = {#} \<and> ruleSetItem r = None"
    by (cases "ruleSetItem r") auto
  then show ?thesis
    by simp
qed

section \<open>The groups of the items the constructors make\<close>

lemma item_groups [build_simps]:
  "group_of (NewInboundRule a) = G_items" "group_of (NewIPVersionItem b) = G_items"
  "group_of (NewNetworkItem a) = G_items" "group_of (NewAuthUserItem a) = G_items"
  "group_of (NewProtocolItem a) = G_items" "group_of (NewClientItem a) = G_items"
  "group_of (NewRawDomainItem mt) = G_destinationAddressItems"
  "group_of (NewDomainKeywordItem a) = G_destinationAddressItems"
  "group_of (NewAdGuardDomainItem lib a) = G_destinationAddressItems"
  "group_of (NewRawAdGuardDomainItem mt) = G_destinationAddressItems"
  "group_of (NewRawIPCIDRItem b s) = (if b then G_sourceAddressItems else G_destinationIPCIDRItems)"
  "group_of (NewIPIsPrivateItem b) = (if b then G_sourceAddressItems else G_destinationIPCIDRItems)"
  "group_of NewIPAcceptAnyItem = G_destinationIPCIDRItems"
  "group_of (NewPortItem b ps) = (if b then G_sourcePortItems else G_destinationPortItems)"
  "group_of (NewProcessItem a) = G_items" "group_of (NewProcessPathItem a) = G_items"
  "group_of (NewPackageNameItem a) = G_items" "group_of (NewUserItem a) = G_items"
  "group_of (NewUserIDItem ids) = G_items" "group_of (NewOutboundRule a) = G_items"
  "group_of (NewClashModeItem md) = G_items" "group_of (NewNetworkTypeItem ts) = G_items"
  "group_of NewNetworkIsExpensiveItem = G_items" "group_of NewNetworkIsConstrainedItem = G_items"
  "group_of (NewWIFISSIDItem a) = G_items" "group_of (NewWIFIBSSIDItem a) = G_items"
  "group_of (NewInterfaceAddressItem ia) = G_items" "group_of (NewNetworkInterfaceAddressItem na) = G_items"
  "group_of (NewDefaultInterfaceAddressItem da) = G_items"
  "group_of (NewSourceMACAddressItem lib a) = G_items" "group_of (NewSourceHostnameItem a) = G_items"
  "group_of (NewPreferredByItem a) = G_items" "group_of (NewQueryTypeItem qs) = G_items"
  "group_of (NewDNSResponseRCodeItem rc) = G_items" "group_of (NewDNSResponseRecordItem sec rs) = G_items"
  by (simp_all add: NewInboundRule_def NewIPVersionItem_def NewNetworkItem_def NewAuthUserItem_def
      NewProtocolItem_def NewClientItem_def NewRawDomainItem_def NewDomainKeywordItem_def
      NewAdGuardDomainItem_def NewRawAdGuardDomainItem_def NewRawIPCIDRItem_def NewIPIsPrivateItem_def
      NewIPAcceptAnyItem_def NewPortItem_def NewProcessItem_def NewProcessPathItem_def
      NewPackageNameItem_def NewUserItem_def NewUserIDItem_def NewOutboundRule_def NewClashModeItem_def
      NewNetworkTypeItem_def NewNetworkIsExpensiveItem_def NewNetworkIsConstrainedItem_def
      NewWIFISSIDItem_def NewWIFIBSSIDItem_def NewInterfaceAddressItem_def
      NewNetworkInterfaceAddressItem_def NewDefaultInterfaceAddressItem_def NewSourceMACAddressItem_def
      NewSourceHostnameItem_def NewPreferredByItem_def NewQueryTypeItem_def NewDNSResponseRCodeItem_def
      NewDNSResponseRecordItem_def)

lemma fallible_item_groups [build_simps]:
  "NewDomainItem lib a b = Inr i \<Longrightarrow> group_of i = G_destinationAddressItems"
  "NewDomainRegexItem lib a = Inr i \<Longrightarrow> group_of i = G_destinationAddressItems"
  "NewIPCIDRItem lib src a = Inr i \<Longrightarrow>
     group_of i = (if src then G_sourceAddressItems else G_destinationIPCIDRItems)"
  "NewPortRangeItem src a = Inr i \<Longrightarrow> group_of i = (if src then G_sourcePortItems else G_destinationPortItems)"
  "NewProcessPathRegexItem lib a = Inr i \<Longrightarrow> group_of i = G_items"
  "NewPackageNameRegexItem lib a = Inr i \<Longrightarrow> group_of i = G_items"
  by (auto simp: NewDomainItem_def NewDomainRegexItem_def NewIPCIDRItem_def NewPortRangeItem_def
      NewProcessPathRegexItem_def NewPackageNameRegexItem_def bind_result_Inr_iff split: if_splits)

end
