(* ===== verification/Rule_Headless.thy ===== *)
theory Rule_Headless
  imports Rule_Build
begin

text \<open>
  The options of headless rules (\<^verbatim>\<open>src/option/rule_set.go\<close>) and their constructors
  (\<^verbatim>\<open>src/route/rule/rule_headless.go\<close>), and what is read off the options about a rule set
  (\<^verbatim>\<open>src/route/rule/rule_set.go\<close>).

  The options of a rule are compared with their zero value to find rules without conditions, so the
  slices keep the difference between nil and empty. Prefixes and interface types are given as the
  values their \<^verbatim>\<open>Build\<close> methods return.
\<close>

section \<open>Options\<close>

record DefaultHeadlessRuleOptions =
  dh_QueryType :: "u16 slice"
  dh_Network :: "string slice"
  dh_Domain :: "string slice"
  dh_DomainSuffix :: "string slice"
  dh_DomainKeyword :: "string slice"
  dh_DomainRegex :: "string slice"
  dh_SourceIPCIDR :: "string slice"
  dh_IPCIDR :: "string slice"
  dh_SourcePort :: "u16 slice"
  dh_SourcePortRange :: "string slice"
  dh_Port :: "u16 slice"
  dh_PortRange :: "string slice"
  dh_ProcessName :: "string slice"
  dh_ProcessPath :: "string slice"
  dh_ProcessPathRegex :: "string slice"
  dh_PackageName :: "string slice"
  dh_PackageNameRegex :: "string slice"
  dh_NetworkType :: "interface_type slice"
  dh_NetworkIsExpensive :: bool
  dh_NetworkIsConstrained :: bool
  dh_WIFISSID :: "string slice"
  dh_WIFIBSSID :: "string slice"
  dh_NetworkInterfaceAddress :: "(interface_type \<times> prefix list) slice"
  dh_DefaultInterfaceAddress :: "prefix slice"
  dh_Invert :: bool
  dh_DomainMatcher :: "matcher option"
  dh_SourceIPSet :: "ipset option"
  dh_IPSet :: "ipset option"
  dh_AdGuardDomain :: "string slice"
  dh_AdGuardDomainMatcher :: "matcher option"

text \<open>\<^verbatim>\<open>!reflect.DeepEqual(r, defaultValue)\<close>, field by field.\<close>

definition DefaultHeadlessRule_IsValid :: "DefaultHeadlessRuleOptions \<Rightarrow> bool" where
  "DefaultHeadlessRule_IsValid r \<longleftrightarrow>
     \<not> (Option.is_none (dh_QueryType r) \<and> Option.is_none (dh_Network r) \<and> Option.is_none (dh_Domain r) \<and>
        Option.is_none (dh_DomainSuffix r) \<and> Option.is_none (dh_DomainKeyword r) \<and>
        Option.is_none (dh_DomainRegex r) \<and> Option.is_none (dh_SourceIPCIDR r) \<and>
        Option.is_none (dh_IPCIDR r) \<and> Option.is_none (dh_SourcePort r) \<and>
        Option.is_none (dh_SourcePortRange r) \<and> Option.is_none (dh_Port r) \<and>
        Option.is_none (dh_PortRange r) \<and> Option.is_none (dh_ProcessName r) \<and>
        Option.is_none (dh_ProcessPath r) \<and> Option.is_none (dh_ProcessPathRegex r) \<and>
        Option.is_none (dh_PackageName r) \<and> Option.is_none (dh_PackageNameRegex r) \<and>
        Option.is_none (dh_NetworkType r) \<and> \<not> dh_NetworkIsExpensive r \<and> \<not> dh_NetworkIsConstrained r \<and>
        Option.is_none (dh_WIFISSID r) \<and> Option.is_none (dh_WIFIBSSID r) \<and>
        Option.is_none (dh_NetworkInterfaceAddress r) \<and> Option.is_none (dh_DefaultInterfaceAddress r) \<and>
        Option.is_none (dh_DomainMatcher r) \<and> Option.is_none (dh_SourceIPSet r) \<and>
        Option.is_none (dh_IPSet r) \<and> Option.is_none (dh_AdGuardDomain r) \<and>
        Option.is_none (dh_AdGuardDomainMatcher r))"

definition RuleTypeDefault :: string where "RuleTypeDefault = ''default''"
definition RuleTypeLogical :: string where "RuleTypeLogical = ''logical''"

text \<open>The struct has the options of both types of rules; the type says which are used.\<close>

datatype HeadlessRuleOptions =
  HeadlessRuleOptions
    (hr_Type: string)
    (hr_DefaultOptions: DefaultHeadlessRuleOptions)
    (hr_Mode: string)
    (hr_Rules: "HeadlessRuleOptions list")
    (hr_Invert: bool)

fun HeadlessRule_IsValid :: "HeadlessRuleOptions \<Rightarrow> bool result"
  and LogicalHeadlessRule_all_valid :: "HeadlessRuleOptions list \<Rightarrow> bool result" where
  "HeadlessRule_IsValid (HeadlessRuleOptions ty default_options mode rules inverted) =
     (if ty = RuleTypeDefault \<or> ty = [] then Inr (DefaultHeadlessRule_IsValid default_options)
      else if ty = RuleTypeLogical then
        (if rules = [] then Inr False else LogicalHeadlessRule_all_valid rules)
      else Inl (Panic ''unknown rule type: ''))"
| "LogicalHeadlessRule_all_valid [] = Inr True"
| "LogicalHeadlessRule_all_valid (rule # rest) =
     bind_result (HeadlessRule_IsValid rule) (\<lambda>valid.
       if valid then LogicalHeadlessRule_all_valid rest else Inr False)"

definition LogicalHeadlessRule_IsValid :: "HeadlessRuleOptions list \<Rightarrow> bool result" where
  "LogicalHeadlessRule_IsValid rules = (if rules = [] then Inr False else LogicalHeadlessRule_all_valid rules)"

section \<open>Constructors\<close>

text \<open>The items of a default headless rule; \<open>nm\<close> says whether a network manager is registered.\<close>

definition headless_steps :: "golib \<Rightarrow> bool \<Rightarrow> DefaultHeadlessRuleOptions \<Rightarrow> build_step list" where
  "headless_steps lib nm options = [
     (slice (dh_QueryType options) \<noteq> [], G_items, Inr (NewQueryTypeItem (slice (dh_QueryType options)))),
     (slice (dh_Network options) \<noteq> [], G_items, Inr (NewNetworkItem (slice (dh_Network options)))),
     (slice (dh_Domain options) \<noteq> [] \<or> slice (dh_DomainSuffix options) \<noteq> [], G_destinationAddressItems,
        NewDomainItem lib (slice (dh_Domain options)) (slice (dh_DomainSuffix options))),
     (\<not> (slice (dh_Domain options) \<noteq> [] \<or> slice (dh_DomainSuffix options) \<noteq> []) \<and>
        \<not> Option.is_none (dh_DomainMatcher options), G_destinationAddressItems,
        Inr (NewRawDomainItem (the (dh_DomainMatcher options)))),
     (slice (dh_DomainKeyword options) \<noteq> [], G_destinationAddressItems,
        Inr (NewDomainKeywordItem (slice (dh_DomainKeyword options)))),
     (slice (dh_DomainRegex options) \<noteq> [], G_destinationAddressItems,
        with_cause ''domain_regex'' (NewDomainRegexItem lib (slice (dh_DomainRegex options)))),
     (slice (dh_SourceIPCIDR options) \<noteq> [], G_sourceAddressItems,
        with_cause ''source_ip_cidr'' (NewIPCIDRItem lib True (slice (dh_SourceIPCIDR options)))),
     (slice (dh_SourceIPCIDR options) = [] \<and> \<not> Option.is_none (dh_SourceIPSet options), G_sourceAddressItems,
        Inr (NewRawIPCIDRItem True (the (dh_SourceIPSet options)))),
     (slice (dh_IPCIDR options) \<noteq> [], G_destinationIPCIDRItems,
        with_cause ''ipcidr'' (NewIPCIDRItem lib False (slice (dh_IPCIDR options)))),
     (slice (dh_IPCIDR options) = [] \<and> \<not> Option.is_none (dh_IPSet options), G_destinationIPCIDRItems,
        Inr (NewRawIPCIDRItem False (the (dh_IPSet options)))),
     (slice (dh_SourcePort options) \<noteq> [], G_sourcePortItems,
        Inr (NewPortItem True (slice (dh_SourcePort options)))),
     (slice (dh_SourcePortRange options) \<noteq> [], G_sourcePortItems,
        with_cause ''source_port_range'' (NewPortRangeItem True (slice (dh_SourcePortRange options)))),
     (slice (dh_Port options) \<noteq> [], G_destinationPortItems,
        Inr (NewPortItem False (slice (dh_Port options)))),
     (slice (dh_PortRange options) \<noteq> [], G_destinationPortItems,
        with_cause ''port_range'' (NewPortRangeItem False (slice (dh_PortRange options)))),
     (slice (dh_ProcessName options) \<noteq> [], G_items, Inr (NewProcessItem (slice (dh_ProcessName options)))),
     (slice (dh_ProcessPath options) \<noteq> [], G_items, Inr (NewProcessPathItem (slice (dh_ProcessPath options)))),
     (slice (dh_ProcessPathRegex options) \<noteq> [], G_items,
        with_cause ''process_path_regex'' (NewProcessPathRegexItem lib (slice (dh_ProcessPathRegex options)))),
     (slice (dh_PackageName options) \<noteq> [], G_items, Inr (NewPackageNameItem (slice (dh_PackageName options)))),
     (slice (dh_PackageNameRegex options) \<noteq> [], G_items,
        with_cause ''package_name_regex'' (NewPackageNameRegexItem lib (slice (dh_PackageNameRegex options)))),
     (nm \<and> slice (dh_NetworkType options) \<noteq> [], G_items,
        Inr (NewNetworkTypeItem (slice (dh_NetworkType options)))),
     (nm \<and> dh_NetworkIsExpensive options, G_items, Inr NewNetworkIsExpensiveItem),
     (nm \<and> dh_NetworkIsConstrained options, G_items, Inr NewNetworkIsConstrainedItem),
     (nm \<and> slice (dh_WIFISSID options) \<noteq> [], G_items, Inr (NewWIFISSIDItem (slice (dh_WIFISSID options)))),
     (nm \<and> slice (dh_WIFIBSSID options) \<noteq> [], G_items, Inr (NewWIFIBSSIDItem (slice (dh_WIFIBSSID options)))),
     (nm \<and> slice (dh_NetworkInterfaceAddress options) \<noteq> [], G_items,
        Inr (NewNetworkInterfaceAddressItem (slice (dh_NetworkInterfaceAddress options)))),
     (nm \<and> slice (dh_DefaultInterfaceAddress options) \<noteq> [], G_items,
        Inr (NewDefaultInterfaceAddressItem (slice (dh_DefaultInterfaceAddress options)))),
     (slice (dh_AdGuardDomain options) \<noteq> [], G_destinationAddressItems,
        Inr (NewAdGuardDomainItem lib (slice (dh_AdGuardDomain options)))),
     (slice (dh_AdGuardDomain options) = [] \<and> \<not> Option.is_none (dh_AdGuardDomainMatcher options),
        G_destinationAddressItems, Inr (NewRawAdGuardDomainItem (the (dh_AdGuardDomainMatcher options))))]"

definition NewDefaultHeadlessRule ::
    "golib \<Rightarrow> bool \<Rightarrow> DefaultHeadlessRuleOptions \<Rightarrow> (unit, unit) abstractDefaultRule result" where
  "NewDefaultHeadlessRule lib nm options =
     build_items (headless_steps lib nm options) (new_rule (dh_Invert options) None)"

fun NewHeadlessRule :: "golib \<Rightarrow> bool \<Rightarrow> HeadlessRuleOptions \<Rightarrow> headless_rule result"
  and NewHeadlessSubRules :: "golib \<Rightarrow> bool \<Rightarrow> HeadlessRuleOptions list \<Rightarrow> headless_rule list result" where
  "NewHeadlessRule lib nm (HeadlessRuleOptions ty default_options mode rules inverted) =
     (if ty = [] \<or> ty = RuleTypeDefault then
        (if \<not> DefaultHeadlessRule_IsValid default_options then Inl (Err ''missing conditions'')
         else bind_result (NewDefaultHeadlessRule lib nm default_options) (\<lambda>r. Inr (DefaultHeadlessRule r)))
      else if ty = RuleTypeLogical then
        bind_result (LogicalHeadlessRule_IsValid rules) (\<lambda>valid.
          if \<not> valid then Inl (Err ''missing conditions'')
          else if mode = LogicalTypeAnd \<or> mode = LogicalTypeOr then
            bind_result (NewHeadlessSubRules lib nm rules) (\<lambda>rs. Inr (LogicalHeadlessRule mode rs inverted))
          else Inl (Err ''unknown logical mode: ''))
      else Inl (Err ''unknown rule type: ''))"
| "NewHeadlessSubRules lib nm [] = Inr []"
| "NewHeadlessSubRules lib nm (subRule # rest) =
     bind_result (with_cause ''sub rule['' (NewHeadlessRule lib nm subRule)) (\<lambda>rule.
     bind_result (NewHeadlessSubRules lib nm rest) (\<lambda>rules. Inr (rule # rules)))"

section \<open>Metadata of a rule set\<close>

record RuleSetMetadata =
  ContainsProcessRule :: bool
  ContainsWIFIRule :: bool
  ContainsIPCIDRRule :: bool
  ContainsDNSQueryTypeRule :: bool

fun has_headless_rule :: "(DefaultHeadlessRuleOptions \<Rightarrow> bool) \<Rightarrow> HeadlessRuleOptions \<Rightarrow> bool" where
  "has_headless_rule cond (HeadlessRuleOptions ty default_options mode rules inverted) =
     (if ty = RuleTypeDefault then cond default_options
      else if ty = RuleTypeLogical then list_ex (has_headless_rule cond) rules
      else False)"

definition HasHeadlessRule :: "HeadlessRuleOptions list \<Rightarrow> (DefaultHeadlessRuleOptions \<Rightarrow> bool) \<Rightarrow> bool" where
  "HasHeadlessRule rules cond = list_ex (has_headless_rule cond) rules"

definition isProcessHeadlessRule :: "DefaultHeadlessRuleOptions \<Rightarrow> bool" where
  "isProcessHeadlessRule rule \<longleftrightarrow>
     slice (dh_ProcessName rule) \<noteq> [] \<or> slice (dh_ProcessPath rule) \<noteq> [] \<or>
     slice (dh_ProcessPathRegex rule) \<noteq> [] \<or> slice (dh_PackageName rule) \<noteq> [] \<or>
     slice (dh_PackageNameRegex rule) \<noteq> []"

definition isWIFIHeadlessRule :: "DefaultHeadlessRuleOptions \<Rightarrow> bool" where
  "isWIFIHeadlessRule rule \<longleftrightarrow> slice (dh_WIFISSID rule) \<noteq> [] \<or> slice (dh_WIFIBSSID rule) \<noteq> []"

definition isIPCIDRHeadlessRule :: "DefaultHeadlessRuleOptions \<Rightarrow> bool" where
  "isIPCIDRHeadlessRule rule \<longleftrightarrow> slice (dh_IPCIDR rule) \<noteq> [] \<or> \<not> Option.is_none (dh_IPSet rule)"

definition isDNSQueryTypeHeadlessRule :: "DefaultHeadlessRuleOptions \<Rightarrow> bool" where
  "isDNSQueryTypeHeadlessRule rule \<longleftrightarrow> slice (dh_QueryType rule) \<noteq> []"

definition buildRuleSetMetadata :: "HeadlessRuleOptions list \<Rightarrow> RuleSetMetadata" where
  "buildRuleSetMetadata headlessRules = \<lparr>
     ContainsProcessRule = HasHeadlessRule headlessRules isProcessHeadlessRule,
     ContainsWIFIRule = HasHeadlessRule headlessRules isWIFIHeadlessRule,
     ContainsIPCIDRRule = HasHeadlessRule headlessRules isIPCIDRHeadlessRule,
     ContainsDNSQueryTypeRule = HasHeadlessRule headlessRules isDNSQueryTypeHeadlessRule\<rparr>"

text \<open>The IP sets of the destination IP items, for the platforms that route by address.\<close>

fun extractIPSetFromRule :: "headless_rule \<Rightarrow> ipset list" where
  "extractIPSetFromRule (DefaultHeadlessRule rule) =
     concat (map (\<lambda>rawItem. case rawItem of IPCIDRItem ipSet _ \<Rightarrow> [ipSet] | _ \<Rightarrow> [])
       (destinationIPCIDRItems rule))"
| "extractIPSetFromRule (LogicalHeadlessRule mode rules inverted) = concat (map extractIPSetFromRule rules)"

section \<open>Built rules are well formed\<close>

lemma headless_steps_sorted: "\<forall>s\<in>set (headless_steps lib nm options). step_sorted s"
  by (simp add: headless_steps_def step_sorted_def build_simps)

lemma NewDefaultHeadlessRule_wf:
  assumes "NewDefaultHeadlessRule lib nm options = Inr r"
  shows "wf_rule r" "ruleSetItem r = None" "invert r = dh_Invert options"
  using assms build_items_wf [OF _ wf_new_rule headless_steps_sorted] build_items_keeps
  unfolding NewDefaultHeadlessRule_def by fastforce+

fun wf_headless :: "headless_rule \<Rightarrow> bool" where
  "wf_headless (DefaultHeadlessRule r) \<longleftrightarrow> wf_rule r \<and> ruleSetItem r = None"
| "wf_headless (LogicalHeadlessRule mode rules inverted) \<longleftrightarrow>
     (mode = LogicalTypeAnd \<or> mode = LogicalTypeOr) \<and> rules \<noteq> [] \<and> list_all wf_headless rules"

lemma NewHeadlessSubRules_length: "NewHeadlessSubRules lib nm os = Inr rs \<Longrightarrow> length rs = length os"
  by (induction os arbitrary: rs) (auto simp: bind_result_Inr_iff)

lemma NewHeadlessRule_wf_aux:
  "NewHeadlessRule lib nm options = Inr rule \<Longrightarrow> wf_headless rule"
  "NewHeadlessSubRules lib nm os = Inr rules \<Longrightarrow> list_all wf_headless rules"
proof (induction lib nm options and lib nm os arbitrary: rule and rules
    rule: NewHeadlessRule_NewHeadlessSubRules.induct)
  case (1 lib nm ty default_options mode rules inverted)
  show ?case
  proof (cases "ty = [] \<or> ty = RuleTypeDefault")
    case True
    then show ?thesis
      using 1(2) NewDefaultHeadlessRule_wf by (auto simp: bind_result_Inr_iff split: if_splits)
  next
    case False
    then obtain rs where rs: "NewHeadlessSubRules lib nm rules = Inr rs" "rules \<noteq> []"
      "mode = LogicalTypeAnd \<or> mode = LogicalTypeOr" "rule = LogicalHeadlessRule mode rs inverted"
      "ty = RuleTypeLogical" "LogicalHeadlessRule_IsValid rules = Inr True"
      using 1(2) by (auto simp: bind_result_Inr_iff LogicalHeadlessRule_IsValid_def split: if_splits)
    have "list_all wf_headless rs"
      using 1(1) [OF False rs(5), of True rs] rs by simp
    then show ?thesis
      using rs NewHeadlessSubRules_length [OF rs(1)] by auto
  qed
next
  case (3 lib nm subRule rest)
  then show ?case
    by (auto simp: bind_result_Inr_iff)
qed simp

section \<open>The metadata tells which rules have IP items\<close>

text \<open>The types as the JSON and binary readers leave them: the empty type is replaced by the default
  one.\<close>

fun normalised :: "HeadlessRuleOptions \<Rightarrow> bool" where
  "normalised (HeadlessRuleOptions ty default_options mode rules inverted) \<longleftrightarrow>
     ty = RuleTypeDefault \<or> ty = RuleTypeLogical \<and> list_all normalised rules"

lemma map_Inr_Nil_iff: "map Inr xs = ys \<Longrightarrow> xs = [] \<longleftrightarrow> ys = []"
  by auto

lemma NewDefaultHeadlessRule_ip_items:
  assumes "NewDefaultHeadlessRule lib nm options = Inr r"
  shows "destinationIPCIDRItems r \<noteq> [] \<longleftrightarrow> isIPCIDRHeadlessRule options"
proof -
  have "map Inr (destinationIPCIDRItems r) = step_items G_destinationIPCIDRItems (headless_steps lib nm options)"
    using build_items_group [of "headless_steps lib nm options" _ r G_destinationIPCIDRItems] assms
    unfolding NewDefaultHeadlessRule_def by fastforce
  from map_Inr_Nil_iff [OF this] show ?thesis
    by (auto simp: step_items_def headless_steps_def isIPCIDRHeadlessRule_def)
qed

lemma NewHeadlessRule_ip_items_aux:
  "NewHeadlessRule lib nm options = Inr rule \<Longrightarrow> normalised options \<Longrightarrow>
     has_ip_items rule \<longleftrightarrow> has_headless_rule isIPCIDRHeadlessRule options"
  "NewHeadlessSubRules lib nm os = Inr rules \<Longrightarrow> list_all normalised os \<Longrightarrow>
     list_ex has_ip_items rules \<longleftrightarrow> list_ex (has_headless_rule isIPCIDRHeadlessRule) os"
proof (induction lib nm options and lib nm os arbitrary: rule and rules
    rule: NewHeadlessRule_NewHeadlessSubRules.induct)
  case (1 lib nm ty default_options mode rules inverted)
  show ?case
  proof (cases "ty = RuleTypeDefault")
    case True
    then show ?thesis
      using 1(2) NewDefaultHeadlessRule_ip_items by (auto simp: bind_result_Inr_iff split: if_splits)
  next
    case False
    then have logical: "ty = RuleTypeLogical" "\<not> (ty = [] \<or> ty = RuleTypeDefault)" "list_all normalised rules"
      using 1(3) by (auto simp: RuleTypeLogical_def)
    then obtain rs where rs: "NewHeadlessSubRules lib nm rules = Inr rs"
      "mode = LogicalTypeAnd \<or> mode = LogicalTypeOr" "rule = LogicalHeadlessRule mode rs inverted"
      using 1(2) by (auto simp: bind_result_Inr_iff split: if_splits)
    then show ?thesis
      using 1(1) [OF logical(2,1), of True rs] logical by simp
  qed
next
  case (3 lib nm subRule rest)
  then show ?case
    by (auto simp: bind_result_Inr_iff)
qed simp

section \<open>Properties\<close>

text \<open>
  Every headless rule the constructor accepts is well formed, at every depth: the list of all items of
  a default rule holds exactly the items of its groups, each item is in the group of its kind, there is
  no rule set item, and a logical rule has a known mode and at least one rule.
\<close>

theorem NewHeadlessRule_well_formed:
  "NewHeadlessRule lib nm options = Inr rule \<Longrightarrow> wf_headless rule"
  by (rule NewHeadlessRule_wf_aux(1))

definition headless_options_zero :: DefaultHeadlessRuleOptions where
  "headless_options_zero = \<lparr>
     dh_QueryType = None, dh_Network = None, dh_Domain = None, dh_DomainSuffix = None,
     dh_DomainKeyword = None, dh_DomainRegex = None, dh_SourceIPCIDR = None, dh_IPCIDR = None,
     dh_SourcePort = None, dh_SourcePortRange = None, dh_Port = None, dh_PortRange = None,
     dh_ProcessName = None, dh_ProcessPath = None, dh_ProcessPathRegex = None, dh_PackageName = None,
     dh_PackageNameRegex = None, dh_NetworkType = None, dh_NetworkIsExpensive = False,
     dh_NetworkIsConstrained = False, dh_WIFISSID = None, dh_WIFIBSSID = None,
     dh_NetworkInterfaceAddress = None, dh_DefaultInterfaceAddress = None, dh_Invert = False,
     dh_DomainMatcher = None, dh_SourceIPSet = None, dh_IPSet = None, dh_AdGuardDomain = None,
     dh_AdGuardDomainMatcher = None\<rparr>"

definition sample_headless_options :: HeadlessRuleOptions where
  "sample_headless_options = HeadlessRuleOptions RuleTypeLogical headless_options_zero LogicalTypeOr
     [HeadlessRuleOptions RuleTypeDefault
        (headless_options_zero\<lparr>dh_Domain := Some [''example.org''], dh_IPCIDR := Some [''10.0.0.0/8'']\<rparr>) [] [] False,
      HeadlessRuleOptions RuleTypeDefault
        (headless_options_zero\<lparr>dh_Port := Some [443], dh_Network := Some [''tcp'']\<rparr>) [] [] False] False"

lemma sample_headless_options_build: "\<not> isl (NewHeadlessRule sample_lib True sample_headless_options)"
  by (simp add: sample_headless_options_def headless_options_zero_def RuleTypeLogical_def RuleTypeDefault_def
      LogicalHeadlessRule_IsValid_def DefaultHeadlessRule_IsValid_def NewDefaultHeadlessRule_def headless_steps_def
      NewDomainItem_def NewIPCIDRItem_def sample_lib_def)

lemma NewHeadlessRule_well_formed_witness:
  "\<exists>rule. NewHeadlessRule sample_lib True sample_headless_options = Inr rule \<and> wf_headless rule"
proof -
  obtain rule where "NewHeadlessRule sample_lib True sample_headless_options = Inr rule"
    using sample_headless_options_build by (cases "NewHeadlessRule sample_lib True sample_headless_options") simp_all
  with NewHeadlessRule_well_formed [OF this] show ?thesis
    by blast
qed

end
