(* ===== verification/Rule_Set.thy ===== *)
theory Rule_Set
  imports Rule_Headless
begin

text \<open>
  Rule sets, local and remote (\<^verbatim>\<open>src/route/rule/rule_set_local.go\<close>,
  \<^verbatim>\<open>src/route/rule/rule_set_remote.go\<close>), and the item of a rule that refers to them
  (\<^verbatim>\<open>src/route/rule/rule_item_rule_set.go\<close>).

  Rule sets are shared objects: the rules that refer to them hold references, updates replace their
  content in place and a reference count decides whether the content is kept. They live in a heap, a
  function from references to rule sets, and the router's map from tags to references is a parameter.
  The operations that the code guards by the access lock are single steps.

  The readers of the two file formats, the JSON decoder and \<^verbatim>\<open>srs.Read\<close>, are parameters,
  as are the file system, the answer of the HTTP server and the clock. Callbacks are identified by
  numbers; an operation that calls them returns the ones it called.
\<close>

section \<open>Options and files\<close>

definition RuleSetTypeInline :: string where "RuleSetTypeInline = ''inline''"
definition RuleSetTypeLocal :: string where "RuleSetTypeLocal = ''local''"
definition RuleSetTypeRemote :: string where "RuleSetTypeRemote = ''remote''"
definition RuleSetFormatSource :: string where "RuleSetFormatSource = ''source''"
definition RuleSetFormatBinary :: string where "RuleSetFormatBinary = ''binary''"

record RuleSetOptions =
  rso_Type :: string
  rso_Tag :: string
  rso_Format :: string
  rso_InlineRules :: "HeadlessRuleOptions list"
  rso_Path :: string
  rso_DownloadDetour :: string
  rso_UpdateInterval :: int

record PlainRuleSetCompat =
  prs_Version :: u8
  prs_Rules :: "HeadlessRuleOptions list"

definition PlainRuleSetCompat_Upgrade :: "PlainRuleSetCompat \<Rightarrow> HeadlessRuleOptions list result" where
  "PlainRuleSetCompat_Upgrade r =
     (if prs_Version r \<in> {1, 2, 3, 4, 5} then Inr (prs_Rules r) else Inl (Err ''unknown rule-set version: ''))"

record rule_set_reader =
  decode_source :: "byte list \<Rightarrow> PlainRuleSetCompat result"
  decode_binary :: "byte list \<Rightarrow> PlainRuleSetCompat result"

text \<open>The context of a rule set: whether a network manager is registered, and the validator of
  metadata updates, when the DNS router is registered as one.\<close>

record rule_set_ctx =
  ctx_NetworkManager :: bool
  ctx_Validator :: "(string \<Rightarrow> RuleSetMetadata \<Rightarrow> err option) option"

definition validateRuleSetMetadataUpdate :: "rule_set_ctx \<Rightarrow> string \<Rightarrow> RuleSetMetadata \<Rightarrow> err option" where
  "validateRuleSetMetadataUpdate ctx tag metadata =
     (case ctx_Validator ctx of None \<Rightarrow> None | Some validator \<Rightarrow> validator tag metadata)"

fun parse_rule_set_rules :: "golib \<Rightarrow> bool \<Rightarrow> HeadlessRuleOptions list \<Rightarrow> headless_rule list result" where
  "parse_rule_set_rules lib nm [] = Inr []"
| "parse_rule_set_rules lib nm (ruleOptions # rest) =
     bind_result (with_cause ''parse rule_set.rules.['' (NewHeadlessRule lib nm ruleOptions)) (\<lambda>rule.
     bind_result (parse_rule_set_rules lib nm rest) (\<lambda>rules. Inr (rule # rules)))"

text \<open>What a reload computes before it takes the lock.\<close>

definition prepare_rules ::
    "golib \<Rightarrow> rule_set_ctx \<Rightarrow> string \<Rightarrow> HeadlessRuleOptions list \<Rightarrow> (headless_rule list \<times> RuleSetMetadata) result" where
  "prepare_rules lib ctx tag headlessRules =
     bind_result (parse_rule_set_rules lib (ctx_NetworkManager ctx) headlessRules) (\<lambda>rules.
       let metadata = buildRuleSetMetadata headlessRules
       in case validateRuleSetMetadataUpdate ctx tag metadata of
            Some e \<Rightarrow> Inl e
          | None \<Rightarrow> Inr (rules, metadata))"

section \<open>Local rule sets\<close>

record LocalRuleSet =
  ls_tag :: string
  ls_rules :: "headless_rule list"
  ls_metadata :: RuleSetMetadata
  ls_fileFormat :: string
  ls_watcher :: bool
  ls_callbacks :: "nat list"
  ls_refs :: int

definition RuleSetMetadata_zero :: RuleSetMetadata where
  "RuleSetMetadata_zero = \<lparr>ContainsProcessRule = False, ContainsWIFIRule = False,
     ContainsIPCIDRRule = False, ContainsDNSQueryTypeRule = False\<rparr>"

definition reloadRules ::
    "golib \<Rightarrow> rule_set_ctx \<Rightarrow> HeadlessRuleOptions list \<Rightarrow> LocalRuleSet \<Rightarrow> err option \<times> LocalRuleSet \<times> nat list" where
  "reloadRules lib ctx headlessRules s =
     (case prepare_rules lib ctx (ls_tag s) headlessRules of
        Inl e \<Rightarrow> (Some e, s, [])
      | Inr (rules, metadata) \<Rightarrow> (None, s\<lparr>ls_rules := rules, ls_metadata := metadata\<rparr>, ls_callbacks s))"

definition reloadFile ::
    "golib \<Rightarrow> rule_set_ctx \<Rightarrow> rule_set_reader \<Rightarrow> byte list result \<Rightarrow> LocalRuleSet \<Rightarrow>
     err option \<times> LocalRuleSet \<times> nat list" where
  "reloadFile lib ctx reader content s =
     (let decoded =
        (if ls_fileFormat s = RuleSetFormatSource \<or> ls_fileFormat s = [] then
           bind_result content (decode_source reader)
         else if ls_fileFormat s = RuleSetFormatBinary then
           bind_result content (decode_binary reader)
         else Inl (Err ''unknown rule-set format: ''))
      in case bind_result decoded PlainRuleSetCompat_Upgrade of
           Inl e \<Rightarrow> (Some e, s, [])
         | Inr rules \<Rightarrow> reloadRules lib ctx rules s)"

text \<open>\<open>content\<close> is what reading the file gives, \<open>watcher_err\<close> the error of creating the
  watcher.\<close>

definition NewLocalRuleSet ::
    "golib \<Rightarrow> rule_set_ctx \<Rightarrow> rule_set_reader \<Rightarrow> byte list result \<Rightarrow> err option \<Rightarrow> RuleSetOptions \<Rightarrow>
     LocalRuleSet result" where
  "NewLocalRuleSet lib ctx reader content watcher_err options =
     (let ruleSet = \<lparr>ls_tag = rso_Tag options, ls_rules = [], ls_metadata = RuleSetMetadata_zero,
                     ls_fileFormat = rso_Format options, ls_watcher = False, ls_callbacks = [], ls_refs = 0\<rparr>
      in if rso_Type options = RuleSetTypeInline then
           (if rso_InlineRules options = [] then Inl (Err ''empty inline rule-set'')
            else case reloadRules lib ctx (rso_InlineRules options) ruleSet of
                   (Some e, _, _) \<Rightarrow> Inl e
                 | (None, s, _) \<Rightarrow> Inr s)
         else
           case reloadFile lib ctx reader content ruleSet of
             (Some e, _, _) \<Rightarrow> Inl e
           | (None, s, _) \<Rightarrow>
               (case watcher_err of
                  Some e \<Rightarrow> Inl e
                | None \<Rightarrow> Inr (s\<lparr>ls_watcher := True\<rparr>)))"

definition local_Cleanup :: "LocalRuleSet \<Rightarrow> LocalRuleSet" where
  "local_Cleanup s = (if ls_refs s = 0 then s\<lparr>ls_rules := []\<rparr> else s)"

definition local_Close :: "LocalRuleSet \<Rightarrow> LocalRuleSet" where
  "local_Close s = s\<lparr>ls_rules := []\<rparr>"

section \<open>Remote rule sets\<close>

text \<open>Times are integers; \<open>None\<close> is the zero time of a rule set that was never updated.\<close>

record RemoteRuleSet =
  rm_options :: RuleSetOptions
  rm_updateInterval :: int
  rm_rules :: "headless_rule list"
  rm_metadata :: RuleSetMetadata
  rm_lastUpdated :: "int option"
  rm_lastEtag :: string
  rm_ticker :: bool
  rm_callbacks :: "nat list"
  rm_refs :: int

record SavedBinary =
  sb_Content :: "byte list"
  sb_LastUpdated :: "int option"
  sb_LastEtag :: string

definition day_ns :: int where "day_ns = 24 * 3600 * 1000000000"

definition NewRemoteRuleSet :: "RuleSetOptions \<Rightarrow> RemoteRuleSet" where
  "NewRemoteRuleSet options = \<lparr>
     rm_options = options,
     rm_updateInterval = (if rso_UpdateInterval options > 0 then rso_UpdateInterval options else day_ns),
     rm_rules = [], rm_metadata = RuleSetMetadata_zero, rm_lastUpdated = None, rm_lastEtag = [],
     rm_ticker = False, rm_callbacks = [], rm_refs = 0\<rparr>"

definition loadBytes ::
    "golib \<Rightarrow> rule_set_ctx \<Rightarrow> rule_set_reader \<Rightarrow> byte list \<Rightarrow> RemoteRuleSet \<Rightarrow>
     err option \<times> RemoteRuleSet \<times> nat list" where
  "loadBytes lib ctx reader content s =
     (let format = rso_Format (rm_options s);
          decoded =
            (if format = RuleSetFormatSource then decode_source reader content
             else if format = RuleSetFormatBinary then decode_binary reader content
             else Inl (Err ''unknown rule-set format: ''))
      in case bind_result (bind_result decoded PlainRuleSetCompat_Upgrade)
                (prepare_rules lib ctx (rso_Tag (rm_options s))) of
           Inl e \<Rightarrow> (Some e, s, [])
         | Inr (rules, metadata) \<Rightarrow> (None, s\<lparr>rm_metadata := metadata, rm_rules := rules\<rparr>, rm_callbacks s))"

text \<open>The answer of the server: the request fails, or a status with the \<^verbatim>\<open>Etag\<close> header and
  the outcome of reading the body. The cache file is \<open>None\<close> when there is none, and else what it
  has saved for the tag, with whether saving succeeds.\<close>

datatype http_answer = RequestError err | Response nat string "byte list result"

record cache_file =
  cf_Saved :: "SavedBinary option"
  cf_SaveError :: "err option"

definition SaveRuleSet :: "SavedBinary \<Rightarrow> cache_file \<Rightarrow> cache_file" where
  "SaveRuleSet saved cf = (if cf_SaveError cf = None then cf\<lparr>cf_Saved := Some saved\<rparr> else cf)"

definition fetch_body ::
    "golib \<Rightarrow> rule_set_ctx \<Rightarrow> rule_set_reader \<Rightarrow> int \<Rightarrow> string \<Rightarrow> byte list \<Rightarrow> cache_file option \<Rightarrow>
     RemoteRuleSet \<Rightarrow> err option \<times> RemoteRuleSet \<times> cache_file option \<times> nat list" where
  "fetch_body lib ctx reader now eTagHeader content cf s =
     (case loadBytes lib ctx reader content s of
        (Some e, s1, called) \<Rightarrow> (Some e, s1, cf, called)
      | (None, s1, called) \<Rightarrow>
          (let s2 = (if eTagHeader \<noteq> [] then s1\<lparr>rm_lastEtag := eTagHeader\<rparr> else s1);
               s3 = s2\<lparr>rm_lastUpdated := Some now\<rparr>;
               saved = \<lparr>sb_Content = content, sb_LastUpdated = rm_lastUpdated s3, sb_LastEtag = rm_lastEtag s3\<rparr>
           in (None, s3, map_option (SaveRuleSet saved) cf, called)))"

definition fetch ::
    "golib \<Rightarrow> rule_set_ctx \<Rightarrow> rule_set_reader \<Rightarrow> int \<Rightarrow> http_answer \<Rightarrow> cache_file option \<Rightarrow> RemoteRuleSet \<Rightarrow>
     err option \<times> RemoteRuleSet \<times> cache_file option \<times> nat list" where
  "fetch lib ctx reader now answer cf s =
     (case answer of
        RequestError e \<Rightarrow> (Some e, s, cf, [])
      | Response status eTagHeader body \<Rightarrow>
          if status = 200 then
            (case body of
               Inl e \<Rightarrow> (Some e, s, cf, [])
             | Inr content \<Rightarrow> fetch_body lib ctx reader now eTagHeader content cf s)
          else if status = 304 then
            (let s1 = s\<lparr>rm_lastUpdated := Some now\<rparr>;
                 cf1 = map_option (\<lambda>c. case cf_Saved c of
                                        None \<Rightarrow> c
                                      | Some saved \<Rightarrow> SaveRuleSet (saved\<lparr>sb_LastUpdated := Some now\<rparr>) c) cf
             in (None, s1, cf1, []))
          else (Some (Err ''unexpected status: ''), s, cf, []))"

definition remote_StartContext ::
    "golib \<Rightarrow> rule_set_ctx \<Rightarrow> rule_set_reader \<Rightarrow> (string \<Rightarrow> bool) \<Rightarrow> int \<Rightarrow> http_answer \<Rightarrow> cache_file option \<Rightarrow>
     RemoteRuleSet \<Rightarrow> err option \<times> RemoteRuleSet \<times> cache_file option \<times> nat list" where
  "remote_StartContext lib ctx reader outboundExists now answer cf s =
     (if rso_DownloadDetour (rm_options s) \<noteq> [] \<and> \<not> outboundExists (rso_DownloadDetour (rm_options s))
      then (Some (Err ''download detour not found: ''), s, cf, [])
      else
        let restored =
          (case cf of
             None \<Rightarrow> (None, s, [])
           | Some c \<Rightarrow>
               (case cf_Saved c of
                  None \<Rightarrow> (None, s, [])
                | Some savedSet \<Rightarrow>
                    (case loadBytes lib ctx reader (sb_Content savedSet) s of
                       (Some e, s1, called) \<Rightarrow> (Some (Cause ''restore cached rule-set'' e), s1, called)
                     | (None, s1, called) \<Rightarrow>
                         (None, s1\<lparr>rm_lastUpdated := sb_LastUpdated savedSet,
                                   rm_lastEtag := sb_LastEtag savedSet\<rparr>, called))))
        in case restored of
             (Some e, s1, called) \<Rightarrow> (Some e, s1, cf, called)
           | (None, s1, called) \<Rightarrow>
               if rm_lastUpdated s1 = None then
                 (case fetch lib ctx reader now answer cf s1 of
                    (Some e, s2, cf2, called2) \<Rightarrow> (Some (Cause ''initial rule-set: '' e), s2, cf2, called @ called2)
                  | (None, s2, cf2, called2) \<Rightarrow> (None, s2\<lparr>rm_ticker := True\<rparr>, cf2, called @ called2))
               else (None, s1\<lparr>rm_ticker := True\<rparr>, cf, called))"

text \<open>One round of the update loop: a fetch whose error is logged, after which the rules of a set
  that nothing refers to are dropped.\<close>

definition updateOnce ::
    "golib \<Rightarrow> rule_set_ctx \<Rightarrow> rule_set_reader \<Rightarrow> int \<Rightarrow> http_answer \<Rightarrow> cache_file option \<Rightarrow> RemoteRuleSet \<Rightarrow>
     RemoteRuleSet \<times> cache_file option \<times> nat list" where
  "updateOnce lib ctx reader now answer cf s =
     (case fetch lib ctx reader now answer cf s of
        (Some e, s1, cf1, called) \<Rightarrow> (s1, cf1, called)
      | (None, s1, cf1, called) \<Rightarrow> (if rm_refs s1 = 0 then s1\<lparr>rm_rules := []\<rparr> else s1, cf1, called))"

text \<open>The loop before its first tick: a set older than the interval is updated at once.\<close>

definition loopUpdate_start ::
    "golib \<Rightarrow> rule_set_ctx \<Rightarrow> rule_set_reader \<Rightarrow> int \<Rightarrow> http_answer \<Rightarrow> cache_file option \<Rightarrow> RemoteRuleSet \<Rightarrow>
     RemoteRuleSet \<times> cache_file option \<times> nat list" where
  "loopUpdate_start lib ctx reader now answer cf s =
     (if (case rm_lastUpdated s of None \<Rightarrow> True | Some t \<Rightarrow> now - t > rm_updateInterval s)
      then updateOnce lib ctx reader now answer cf s else (s, cf, []))"

definition remote_Cleanup :: "RemoteRuleSet \<Rightarrow> RemoteRuleSet" where
  "remote_Cleanup s = (if rm_refs s = 0 then s\<lparr>rm_rules := []\<rparr> else s)"

definition remote_Close :: "RemoteRuleSet \<Rightarrow> RemoteRuleSet" where
  "remote_Close s = s\<lparr>rm_rules := [], rm_ticker := False\<rparr>"

section \<open>Rule sets behind one interface\<close>

datatype rule_set = LocalRS LocalRuleSet | RemoteRS RemoteRuleSet

definition NewRuleSet ::
    "golib \<Rightarrow> rule_set_ctx \<Rightarrow> rule_set_reader \<Rightarrow> byte list result \<Rightarrow> err option \<Rightarrow> RuleSetOptions \<Rightarrow>
     rule_set result" where
  "NewRuleSet lib ctx reader content watcher_err options =
     (if rso_Type options \<in> {RuleSetTypeInline, RuleSetTypeLocal, []} then
        bind_result (NewLocalRuleSet lib ctx reader content watcher_err options) (\<lambda>s. Inr (LocalRS s))
      else if rso_Type options = RuleSetTypeRemote then Inr (RemoteRS (NewRemoteRuleSet options))
      else Inl (Err ''unknown rule-set type: ''))"

fun rs_rules :: "rule_set \<Rightarrow> headless_rule list" where
  "rs_rules (LocalRS s) = ls_rules s"
| "rs_rules (RemoteRS s) = rm_rules s"

fun rs_Metadata :: "rule_set \<Rightarrow> RuleSetMetadata" where
  "rs_Metadata (LocalRS s) = ls_metadata s"
| "rs_Metadata (RemoteRS s) = rm_metadata s"

fun rs_refs :: "rule_set \<Rightarrow> int" where
  "rs_refs (LocalRS s) = ls_refs s"
| "rs_refs (RemoteRS s) = rm_refs s"

fun rs_IncRef :: "rule_set \<Rightarrow> rule_set" where
  "rs_IncRef (LocalRS s) = LocalRS (s\<lparr>ls_refs := ls_refs s + 1\<rparr>)"
| "rs_IncRef (RemoteRS s) = RemoteRS (s\<lparr>rm_refs := rm_refs s + 1\<rparr>)"

fun rs_DecRef :: "rule_set \<Rightarrow> rule_set result" where
  "rs_DecRef (LocalRS s) =
     (if ls_refs s - 1 < 0 then Inl (Panic ''rule-set: negative refs'')
      else Inr (LocalRS (s\<lparr>ls_refs := ls_refs s - 1\<rparr>)))"
| "rs_DecRef (RemoteRS s) =
     (if rm_refs s - 1 < 0 then Inl (Panic ''rule-set: negative refs'')
      else Inr (RemoteRS (s\<lparr>rm_refs := rm_refs s - 1\<rparr>)))"

fun rs_Cleanup :: "rule_set \<Rightarrow> rule_set" where
  "rs_Cleanup (LocalRS s) = LocalRS (local_Cleanup s)"
| "rs_Cleanup (RemoteRS s) = RemoteRS (remote_Cleanup s)"

definition rs_ExtractIPSet :: "rule_set \<Rightarrow> ipset list" where
  "rs_ExtractIPSet s = concat (map extractIPSetFromRule (rs_rules s))"

definition rs_matchStatesWithBase :: "golib \<Rightarrow> netenv \<Rightarrow> rule_set \<Rightarrow> rule_matcher" where
  "rs_matchStatesWithBase lib env s metadata base =
     foldl (\<lambda>stateSet rule. merge stateSet (headless_matchStatesWithBase lib env rule (ResetRuleMatchCache metadata) base))
       0 (rs_rules s)"

definition rs_Match :: "golib \<Rightarrow> netenv \<Rightarrow> rule_set \<Rightarrow> InboundContext \<Rightarrow> bool" where
  "rs_Match lib env s metadata \<longleftrightarrow> \<not> isEmpty (rs_matchStatesWithBase lib env s metadata 0)"

section \<open>The rule set item\<close>

type_synonym rule_set_ref = nat
type_synonym rule_set_heap = "rule_set_ref \<Rightarrow> rule_set"

record RuleSetItem =
  tagList :: "string list"
  setList :: "rule_set_ref list"
  ipCidrMatchSource :: bool
  ipCidrAcceptEmpty :: bool

definition NewRuleSetItem :: "string list \<Rightarrow> bool \<Rightarrow> bool \<Rightarrow> RuleSetItem" where
  "NewRuleSetItem tags matchSource acceptEmpty =
     \<lparr>tagList = tags, setList = [], ipCidrMatchSource = matchSource, ipCidrAcceptEmpty = acceptEmpty\<rparr>"

fun dec_refs :: "rule_set_ref list \<Rightarrow> rule_set_heap \<Rightarrow> rule_set_heap result" where
  "dec_refs [] heap = Inr heap"
| "dec_refs (ref # rest) heap =
     bind_result (rs_DecRef (heap ref)) (\<lambda>s. dec_refs rest (heap(ref := s)))"

definition RuleSetItem_Close :: "RuleSetItem \<Rightarrow> rule_set_heap \<Rightarrow> (RuleSetItem \<times> rule_set_heap) result" where
  "RuleSetItem_Close item heap =
     bind_result (dec_refs (setList item) heap) (\<lambda>heap'. Inr (item\<lparr>setList := []\<rparr>, heap'))"

fun start_loop ::
    "(string \<rightharpoonup> rule_set_ref) \<Rightarrow> string list \<Rightarrow> RuleSetItem \<Rightarrow> rule_set_heap \<Rightarrow>
     (err option \<times> RuleSetItem \<times> rule_set_heap) result" where
  "start_loop router [] item heap = Inr (None, item, heap)"
| "start_loop router (tag # rest) item heap =
     (case router tag of
        None \<Rightarrow>
          bind_result (RuleSetItem_Close item heap) (\<lambda>(item', heap').
            Inr (Some (Err ''rule-set not found: ''), item', heap'))
      | Some ref \<Rightarrow>
          start_loop router rest (item\<lparr>setList := setList item @ [ref]\<rparr>) (heap(ref := rs_IncRef (heap ref))))"

definition RuleSetItem_Start ::
    "(string \<rightharpoonup> rule_set_ref) \<Rightarrow> RuleSetItem \<Rightarrow> rule_set_heap \<Rightarrow>
     (err option \<times> RuleSetItem \<times> rule_set_heap) result" where
  "RuleSetItem_Start router item heap =
     bind_result (RuleSetItem_Close item heap) (\<lambda>(item', heap'). start_loop router (tagList item') item' heap')"

text \<open>The metadata a referred rule set is matched on: a copy with the match cache cleared and the two
  options of the item.\<close>

definition nested_metadata :: "RuleSetItem \<Rightarrow> InboundContext \<Rightarrow> InboundContext" where
  "nested_metadata item metadata = (ResetRuleMatchCache metadata)\<lparr>
     IPCIDRMatchSource := ipCidrMatchSource item, IPCIDRAcceptEmpty := ipCidrAcceptEmpty item\<rparr>"

definition RuleSetItem_matchStatesWithBase ::
    "golib \<Rightarrow> netenv \<Rightarrow> rule_set_heap \<Rightarrow> RuleSetItem \<Rightarrow> rule_matcher" where
  "RuleSetItem_matchStatesWithBase lib env heap item metadata base =
     foldl (\<lambda>stateSet ref.
         merge stateSet (rs_matchStatesWithBase lib env (heap ref) (nested_metadata item metadata) base))
       0 (setList item)"

definition RuleSetItem_Match :: "golib \<Rightarrow> netenv \<Rightarrow> rule_set_heap \<Rightarrow> RuleSetItem \<Rightarrow> InboundContext \<Rightarrow> bool" where
  "RuleSetItem_Match lib env heap item metadata \<longleftrightarrow>
     \<not> isEmpty (RuleSetItem_matchStatesWithBase lib env heap item metadata 0)"

definition ContainsDestinationIPCIDRRule :: "rule_set_heap \<Rightarrow> RuleSetItem \<Rightarrow> bool" where
  "ContainsDestinationIPCIDRRule heap item =
     (if ipCidrMatchSource item then False
      else list_ex (\<lambda>ref. ContainsIPCIDRRule (rs_Metadata (heap ref))) (setList item))"

section \<open>Matching through rule sets\<close>

lemma foldl_merge_states:
  "states (foldl (\<lambda>s x. merge s (f x)) s xs) = states s \<union> (\<Union>x\<in>set xs. states (f x))"
  by (induction xs arbitrary: s) auto

lemma states_rs:
  "states (rs_matchStatesWithBase lib env s metadata base) =
     (\<Union>rule\<in>set (rs_rules s). states (headless_matchStatesWithBase lib env rule (ResetRuleMatchCache metadata) base))"
  by (simp add: rs_matchStatesWithBase_def foldl_merge_states)

text \<open>The branches of a rule set item: all rules of all sets it refers to.\<close>

definition branches :: "rule_set_heap \<Rightarrow> RuleSetItem \<Rightarrow> headless_rule set" where
  "branches heap item = (\<Union>ref\<in>set (setList item). set (rs_rules (heap ref)))"

lemma nested_metadata_reset [simp]:
  "ResetRuleMatchCache (nested_metadata item metadata) = nested_metadata item metadata"
  by (simp add: nested_metadata_def ResetRuleMatchCache_def)

lemma nested_metadata_DidMatch [simp]:
  "nested_metadata item (metadata\<lparr>DidMatch := b\<rparr>) = nested_metadata item metadata"
  by (simp add: nested_metadata_def ResetRuleMatchCache_def)

lemma states_RuleSetItem:
  "states (RuleSetItem_matchStatesWithBase lib env heap item metadata base) =
     (\<Union>rule\<in>branches heap item.
        states (headless_matchStatesWithBase lib env rule (nested_metadata item metadata) base))"
  by (simp add: RuleSetItem_matchStatesWithBase_def foldl_merge_states states_rs branches_def)

lemma state_matcher_Union:
  assumes "\<And>metadata b. states (m metadata b) = (\<Union>rule\<in>R. states (n rule (g metadata) b))"
    and "\<And>rule. state_matcher (n rule)"
  shows "state_matcher m"
proof
  fix b x :: ruleMatchState and metadata
  assume b: "b < 16" and "x \<in> states (m metadata b)"
  then obtain rule where rule: "rule \<in> R" "x \<in> states (n rule (g metadata) b)"
    by (auto simp: assms(1))
  show "x OR b = x"
    using state_matcher.keeps_base [OF assms(2) b rule(2)] .
  fix c :: ruleMatchState
  assume "c < 16"
  then show "x OR c \<in> states (m metadata (b OR c))"
    using state_matcher.shift [OF assms(2) b _ rule(2)] rule(1) by (auto simp: assms(1))
qed

interpretation rsm: state_matcher "rs_matchStatesWithBase lib env s" for lib env s
  by (rule state_matcher_Union [OF states_rs headless_state_matcher])

interpretation rsi: state_matcher "RuleSetItem_matchStatesWithBase lib env heap item" for lib env heap item
  by (rule state_matcher_Union [OF states_RuleSetItem headless_state_matcher])

section \<open>A rule set is merged into the rule that refers to it\<close>

text \<open>The rule of the documentation, in which a branch of a rule set is merged into the outer rule: the
  items of each group of the branch are added to the group of the outer rule.\<close>

definition merged_rule ::
    "('rs, 'act) abstractDefaultRule \<Rightarrow> (unit, unit) abstractDefaultRule \<Rightarrow> ('rs, 'act) abstractDefaultRule" where
  "merged_rule r d = r\<lparr>
     items := items r @ items d,
     sourceAddressItems := sourceAddressItems r @ sourceAddressItems d,
     sourcePortItems := sourcePortItems r @ sourcePortItems d,
     destinationAddressItems := destinationAddressItems r @ destinationAddressItems d,
     destinationIPCIDRItems := destinationIPCIDRItems r @ destinationIPCIDRItems d,
     destinationPortItems := destinationPortItems r @ destinationPortItems d,
     allItems := filter (\<lambda>i. case i of PlainItem _ \<Rightarrow> True | SetItem _ \<Rightarrow> False) (allItems r) @
       map PlainItem (group_lists d),
     ruleSetItem := None,
     invert := False\<rparr>"

lemma matchAnyItem_append [simp]:
  "matchAnyItem lib env (xs @ ys) metadata \<longleftrightarrow>
     matchAnyItem lib env xs metadata \<or> matchAnyItem lib env ys metadata"
  by (simp add: matchAnyItem_def)

lemma matchAnyItem_reset [simp]:
  "matchAnyItem lib env xs (ResetRuleMatchCache metadata) = matchAnyItem lib env xs metadata"
  by (simp add: matchAnyItem_def)

lemma reset_flags [simp]:
  "IgnoreDestinationIPCIDRMatch (ResetRuleMatchCache metadata) = IgnoreDestinationIPCIDRMatch metadata"
  "IPCIDRMatchSource (ResetRuleMatchCache metadata) = IPCIDRMatchSource metadata"
  "IPCIDRAcceptEmpty (ResetRuleMatchCache metadata) = IPCIDRAcceptEmpty metadata"
  by (simp_all add: ResetRuleMatchCache_def)

lemma default_accepts_reset:
  "default_accepts lib env r (ResetRuleMatchCache metadata) b = default_accepts lib env r metadata b"
  "hit_bits lib env r (ResetRuleMatchCache metadata) = hit_bits lib env r metadata"
  by (simp_all add: default_accepts_def items_match_def state_allowed_iff hit_bits_def hit_defs)

lemma nested_metadata_plain:
  assumes "\<not> ipCidrMatchSource item" "\<not> ipCidrAcceptEmpty item"
    and "\<not> IPCIDRMatchSource metadata" "\<not> IPCIDRAcceptEmpty metadata"
  shows "nested_metadata item metadata = ResetRuleMatchCache metadata"
  using assms by (cases metadata) (simp add: nested_metadata_def ResetRuleMatchCache_def)

lemma bits_of_or:
  "bits_of a b c d OR bits_of a' b' c' d' = bits_of (a \<or> a') (b \<or> b') (c \<or> c') (d \<or> d')"
  unfolding bits_of_def flag_or_flag [symmetric] by (simp only: or.assoc or.commute or.left_commute)

lemma hit_bits_merged:
  assumes "\<not> IgnoreDestinationIPCIDRMatch metadata" "\<not> IPCIDRMatchSource metadata"
  shows "hit_bits lib env (merged_rule r d) metadata = hit_bits lib env r metadata OR hit_bits lib env d metadata"
proof -
  have "hit_destination_address lib env (merged_rule r d) metadata \<longleftrightarrow>
      hit_destination_address lib env r metadata \<or> hit_destination_address lib env d metadata"
    using assms
    by (cases "destinationIPCIDRItems r = []"; cases "destinationIPCIDRItems d = []") (auto simp: hit_defs merged_rule_def)
  moreover have "hit_source_address lib env (merged_rule r d) metadata \<longleftrightarrow>
      hit_source_address lib env r metadata \<or> hit_source_address lib env d metadata"
    using assms by (simp add: hit_defs merged_rule_def)
  ultimately show ?thesis
    by (simp add: hit_bits_def bits_of_or hit_source_port_def hit_destination_port_def) (simp add: merged_rule_def)
qed

lemma state_allowed_merged:
  assumes "\<not> IPCIDRMatchSource metadata"
  shows "state_allowed (merged_rule r d) metadata x \<longleftrightarrow> state_allowed r metadata x \<and> state_allowed d metadata x"
  using assms by (simp add: state_allowed_iff hit_defs merged_rule_def) blast

lemma merged_rule_accepts:
  assumes "\<not> IgnoreDestinationIPCIDRMatch metadata" "\<not> IPCIDRMatchSource metadata"
  shows "default_accepts lib env (merged_rule r d) metadata 0 \<longleftrightarrow>
    items_match lib env r metadata \<and> default_accepts lib env d metadata (hit_bits lib env r metadata) \<and>
    state_allowed r metadata (hit_bits lib env r metadata OR hit_bits lib env d metadata)"
proof -
  have "items_match lib env (merged_rule r d) metadata \<longleftrightarrow>
      items_match lib env r metadata \<and> items_match lib env d metadata"
    by (simp add: items_match_def merged_rule_def)
  then show ?thesis
    by (auto simp: default_accepts_def hit_bits_merged [OF assms] state_allowed_merged [OF assms(2)])
qed

lemma outer_rule_states:
  assumes r: "allItems r \<noteq> []" "ruleSetItem r = Some item" and "\<not> IgnoreDestinationIPCIDRMatch metadata"
  shows "fst (default_Match lib env (RuleSetItem_matchStatesWithBase lib env heap) r metadata) \<longleftrightarrow>
    invert r \<noteq>
      (items_match lib env r metadata \<and>
       (\<exists>rule\<in>branches heap item.
          \<exists>x\<in>states (headless_matchStatesWithBase lib env rule (nested_metadata item metadata)
                       (hit_bits lib env r metadata)).
            state_allowed r metadata x))"
proof -
  have "isEmpty (condition_states lib env (RuleSetItem_matchStatesWithBase lib env heap) r metadata 0) \<longleftrightarrow>
      \<not> (items_match lib env r metadata \<and>
       (\<exists>rule\<in>branches heap item.
          \<exists>x\<in>states (headless_matchStatesWithBase lib env rule (nested_metadata item metadata)
                       (hit_bits lib env r metadata)).
            state_allowed r metadata x))"
    by (auto simp: condition_states_def isEmpty_iff_states r(2) states_RuleSetItem)
  then show ?thesis
    using assms
    by (auto simp: default_Match_def default_matchStates_def split_beta Let_def invertedFailure_def
        default_matchStatesWithBase_eq [OF r(1)])
qed

lemma headless_default_states:
  assumes "wf_headless (DefaultHeadlessRule d)" "allItems d \<noteq> []" "\<not> invert d" "b < 16"
    and "\<not> IgnoreDestinationIPCIDRMatch metadata"
  shows "states (headless_matchStatesWithBase lib env (DefaultHeadlessRule d) metadata b) =
    (if default_accepts lib env d metadata b then {b OR hit_bits lib env d metadata} else {})"
  using assms states_default_None [OF assms(2) _ assms(4,5)] by simp

lemma merged_rule_Match:
  assumes "wf_headless (DefaultHeadlessRule d)" "allItems d \<noteq> []" "\<not> IgnoreDestinationIPCIDRMatch metadata"
  shows "fst (default_Match lib env setm (merged_rule r d) metadata) \<longleftrightarrow>
    default_accepts lib env (merged_rule r d) metadata 0"
proof -
  have "group_lists d \<noteq> []"
    using assms allItems_Nil_iff [of d] by simp
  then have "allItems (merged_rule r d) \<noteq> []"
    by (simp add: merged_rule_def)
  moreover have "ruleSetItem (merged_rule r d) = None" "\<not> invert (merged_rule r d)"
    by (simp_all add: merged_rule_def)
  ultimately show ?thesis
    using states_default_None [of "merged_rule r d" 0 metadata lib env setm] assms(3)
    by (simp add: default_Match_def default_matchStates_def split_beta isEmpty_iff_states)
qed

text \<open>
  C1. Each branch inside an included rule set can be considered merged into the outer rule, while
  different branches keep OR semantics: a rule that refers to rule sets matches (or does not, when it
  is inverted) exactly when, for some branch of some of them, the rule with the items of the branch
  added to its groups matches. The branches are default rules with conditions that are not inverted,
  and the options that change how IP items of rule sets are matched are not set.
\<close>

theorem rule_set_branches_merge:
  assumes "allItems r \<noteq> []" "ruleSetItem r = Some item"
    and "\<not> ipCidrMatchSource item" "\<not> ipCidrAcceptEmpty item"
    and "\<not> IgnoreDestinationIPCIDRMatch metadata" "\<not> IPCIDRMatchSource metadata" "\<not> IPCIDRAcceptEmpty metadata"
    and branch: "\<And>rule. rule \<in> branches heap item \<Longrightarrow>
      \<exists>d. rule = DefaultHeadlessRule d \<and> wf_headless rule \<and> allItems d \<noteq> [] \<and> \<not> invert d"
  shows "fst (default_Match lib env (RuleSetItem_matchStatesWithBase lib env heap) r metadata) \<longleftrightarrow>
    invert r \<noteq>
      (\<exists>d. DefaultHeadlessRule d \<in> branches heap item \<and>
         fst (default_Match lib env (RuleSetItem_matchStatesWithBase lib env heap) (merged_rule r d) metadata))"
proof -
  let ?h = "hit_bits lib env r metadata"
  have one: "items_match lib env r metadata \<and>
      (\<exists>x\<in>states (headless_matchStatesWithBase lib env (DefaultHeadlessRule d) (ResetRuleMatchCache metadata) ?h).
         state_allowed r metadata x) \<longleftrightarrow>
      fst (default_Match lib env (RuleSetItem_matchStatesWithBase lib env heap) (merged_rule r d) metadata)"
    if "DefaultHeadlessRule d \<in> branches heap item" for d
  proof -
    have d: "wf_headless (DefaultHeadlessRule d)" "allItems d \<noteq> []" "\<not> invert d"
      using branch [OF that] by auto
    show ?thesis
      unfolding merged_rule_Match [OF d(1,2) assms(5)] merged_rule_accepts [OF assms(5,6)]
      using headless_default_states [OF d, of ?h "ResetRuleMatchCache metadata"] assms(5)
      by (simp add: default_accepts_reset)
  qed
  show ?thesis
    unfolding outer_rule_states [OF assms(1,2,5)] nested_metadata_plain [OF assms(3,4,6,7)]
    using one branch by blast
qed

definition sample_branch :: "(unit, unit) abstractDefaultRule" where
  "sample_branch = append_item G_destinationPortItems (NewPortItem False [443]) (new_rule False None)"

definition sample_rule_set :: rule_set where
  "sample_rule_set = LocalRS \<lparr>ls_tag = ''set'', ls_rules = [DefaultHeadlessRule sample_branch],
     ls_metadata = RuleSetMetadata_zero, ls_fileFormat = [], ls_watcher = False, ls_callbacks = [], ls_refs = 1\<rparr>"

definition sample_item :: RuleSetItem where
  "sample_item = (NewRuleSetItem [''set''] False False)\<lparr>setList := [0]\<rparr>"

definition sample_outer :: "(RuleSetItem, unit) abstractDefaultRule" where
  "sample_outer = append_set_item sample_item
     (append_item G_destinationPortItems (NewPortItem False [80]) (new_rule False None))"

lemma sample_branch_ok: "wf_headless (DefaultHeadlessRule sample_branch)" "allItems sample_branch \<noteq> []"
  "\<not> invert sample_branch"
  by (simp_all add: sample_branch_def wf_append_item build_simps del: append_item.simps)

lemma rule_set_branches_merge_witness:
  "fst (default_Match sample_lib netenv_zero
     (RuleSetItem_matchStatesWithBase sample_lib netenv_zero (\<lambda>_. sample_rule_set)) sample_outer sample_metadata)"
proof -
  have "branches (\<lambda>_. sample_rule_set) sample_item = {DefaultHeadlessRule sample_branch}"
    by (simp add: branches_def sample_rule_set_def sample_item_def)
  moreover have "fst (default_Match sample_lib netenv_zero
      (RuleSetItem_matchStatesWithBase sample_lib netenv_zero (\<lambda>_. sample_rule_set))
      (merged_rule sample_outer sample_branch) sample_metadata)"
    by code_simp
  ultimately show ?thesis
    using rule_set_branches_merge [of sample_outer sample_item sample_metadata "\<lambda>_. sample_rule_set"
        sample_lib netenv_zero] sample_branch_ok
    by (simp add: sample_outer_def append_set_item_def sample_item_def NewRuleSetItem_def sample_metadata_def
        InboundContext_zero_def)
qed

section \<open>Reference counts\<close>

text \<open>The counts of all rule sets agree with the references held by the started items.\<close>

definition ref_count :: "RuleSetItem list \<Rightarrow> rule_set_ref \<Rightarrow> nat" where
  "ref_count is ref = sum_list (map (\<lambda>item. count_list (setList item) ref) is)"

definition balanced :: "RuleSetItem list \<Rightarrow> rule_set_heap \<Rightarrow> bool" where
  "balanced is heap \<longleftrightarrow> (\<forall>ref. rs_refs (heap ref) = int (ref_count is ref))"

lemma ref_count_simps [simp]:
  "ref_count [] ref = 0"
  "ref_count (item # is) ref = count_list (setList item) ref + ref_count is ref"
  "ref_count (is @ is') ref = ref_count is ref + ref_count is' ref"
  by (simp_all add: ref_count_def)

lemma rs_IncRef_simps [simp]:
  "rs_refs (rs_IncRef s) = rs_refs s + 1" "rs_rules (rs_IncRef s) = rs_rules s"
  by (cases s; simp)+

lemma rs_DecRef_pos:
  assumes "rs_refs s > 0"
  obtains s' where "rs_DecRef s = Inr s'" "rs_refs s' = rs_refs s - 1" "rs_rules s' = rs_rules s"
  using assms by (cases s) auto

lemma dec_refs_ok:
  "(\<forall>ref. rs_refs (heap ref) \<ge> int (count_list refs ref)) \<Longrightarrow>
   \<exists>heap'. dec_refs refs heap = Inr heap' \<and>
     (\<forall>ref. rs_refs (heap' ref) = rs_refs (heap ref) - int (count_list refs ref) \<and>
            rs_rules (heap' ref) = rs_rules (heap ref))"
proof (induction refs arbitrary: heap)
  case (Cons ref refs)
  have "rs_refs (heap ref) \<ge> int (count_list (ref # refs) ref)"
    using Cons.prems by blast
  then obtain s where s: "rs_DecRef (heap ref) = Inr s" "rs_refs s = rs_refs (heap ref) - 1"
      "rs_rules s = rs_rules (heap ref)"
    using rs_DecRef_pos [of "heap ref"] by auto
  have "\<forall>ref'. rs_refs ((heap(ref := s)) ref') \<ge> int (count_list refs ref')"
  proof
    fix ref'
    show "rs_refs ((heap(ref := s)) ref') \<ge> int (count_list refs ref')"
      using Cons.prems [rule_format, of ref'] s(2) by (cases "ref' = ref") auto
  qed
  from Cons.IH [OF this] obtain heap' where heap': "dec_refs refs (heap(ref := s)) = Inr heap'"
    "\<forall>ref'. rs_refs (heap' ref') = rs_refs ((heap(ref := s)) ref') - int (count_list refs ref') \<and>
       rs_rules (heap' ref') = rs_rules ((heap(ref := s)) ref')"
    by blast
  then show ?case
    using s by (intro exI [of _ heap']) auto
qed simp

lemma Close_balanced:
  assumes "balanced (pre @ item # post) heap"
  shows "\<exists>heap'. RuleSetItem_Close item heap = Inr (item\<lparr>setList := []\<rparr>, heap') \<and>
    balanced (pre @ item\<lparr>setList := []\<rparr> # post) heap' \<and> (\<forall>ref. rs_rules (heap' ref) = rs_rules (heap ref))"
proof -
  have "\<forall>ref. rs_refs (heap ref) \<ge> int (count_list (setList item) ref)"
    using assms by (simp add: balanced_def)
  from dec_refs_ok [OF this] show ?thesis
    using assms by (auto simp: RuleSetItem_Close_def balanced_def)
qed

lemma start_loop_balanced:
  "balanced (pre @ item # post) heap \<Longrightarrow>
   \<exists>e item' heap'. start_loop router tags item heap = Inr (e, item', heap') \<and>
     balanced (pre @ item' # post) heap' \<and> (\<forall>ref. rs_rules (heap' ref) = rs_rules (heap ref)) \<and>
     (case e of None \<Rightarrow> map Some (setList item') = map Some (setList item) @ map router tags
              | Some _ \<Rightarrow> setList item' = [] \<and> None \<in> router ` set tags)"
proof (induction tags arbitrary: item heap)
  case (Cons tag tags)
  show ?case
  proof (cases "router tag")
    case None
    obtain heap' where "RuleSetItem_Close item heap = Inr (item\<lparr>setList := []\<rparr>, heap')"
      "balanced (pre @ item\<lparr>setList := []\<rparr> # post) heap'" "\<forall>ref. rs_rules (heap' ref) = rs_rules (heap ref)"
      using Close_balanced [OF Cons.prems] by blast
    then show ?thesis
      using None by (intro exI [of _ "Some (Err ''rule-set not found: '')"] exI [of _ "item\<lparr>setList := []\<rparr>"]
          exI [of _ heap']) (simp add: image_iff)
  next
    case (Some ref)
    let ?item = "item\<lparr>setList := setList item @ [ref]\<rparr>" and ?heap = "heap(ref := rs_IncRef (heap ref))"
    have "balanced (pre @ ?item # post) ?heap"
      using Cons.prems by (simp add: balanced_def)
    from Cons.IH [OF this] obtain e item' heap' where *: "start_loop router tags ?item ?heap = Inr (e, item', heap')"
      "balanced (pre @ item' # post) heap'" "\<forall>ref'. rs_rules (heap' ref') = rs_rules (?heap ref')"
      "case e of None \<Rightarrow> map Some (setList item') = map Some (setList ?item) @ map router tags
         | Some _ \<Rightarrow> setList item' = [] \<and> None \<in> router ` set tags"
      by blast
    have "\<forall>ref'. rs_rules (heap' ref') = rs_rules (heap ref')"
      using *(3) by simp
    then show ?thesis
      using *(1,2,4) Some
      by (intro exI [of _ e] exI [of _ item'] exI [of _ heap']) (auto split: option.splits)
  qed
qed simp

lemma Start_balanced:
  assumes "balanced (pre @ item # post) heap"
  shows "\<exists>e item' heap'. RuleSetItem_Start router item heap = Inr (e, item', heap') \<and>
    balanced (pre @ item' # post) heap' \<and>
    (if None \<in> router ` set (tagList item) then e \<noteq> None \<and> setList item' = []
     else e = None \<and> map Some (setList item') = map router (tagList item))"
proof -
  obtain heap1 where close: "RuleSetItem_Close item heap = Inr (item\<lparr>setList := []\<rparr>, heap1)"
    "balanced (pre @ item\<lparr>setList := []\<rparr> # post) heap1"
    using Close_balanced [OF assms] by blast
  from start_loop_balanced [OF close(2), of router "tagList item"]
  obtain e item' heap' where *: "start_loop router (tagList item) (item\<lparr>setList := []\<rparr>) heap1 = Inr (e, item', heap')"
    "balanced (pre @ item' # post) heap'"
    "case e of None \<Rightarrow> map Some (setList item') = map Some (setList (item\<lparr>setList := []\<rparr>)) @ map router (tagList item)
       | Some _ \<Rightarrow> setList item' = [] \<and> None \<in> router ` set (tagList item)"
    by blast
  have none: "None \<notin> router ` set (tagList item)" if "map Some (setList item') = map router (tagList item)"
    using arg_cong [OF that, of set] by auto
  show ?thesis
    using close(1) * none
    by (intro exI [of _ e] exI [of _ item'] exI [of _ heap'])
      (auto simp: RuleSetItem_Start_def split: option.splits)
qed

text \<open>
  The reference counts of rule sets stay balanced: starting an item never panics, leaves every count
  equal to the number of references held by the items, holds the sets of its tags, in order, when it
  succeeds, and holds none when a tag is not found; starting again does not count a set twice.
\<close>

theorem RuleSetItem_Start_balanced:
  assumes "balanced (pre @ item # post) heap"
  shows "\<exists>e item' heap'. RuleSetItem_Start router item heap = Inr (e, item', heap') \<and>
    balanced (pre @ item' # post) heap' \<and>
    (if None \<in> router ` set (tagList item) then e \<noteq> None \<and> setList item' = []
     else e = None \<and> map Some (setList item') = map router (tagList item))"
  using assms by (rule Start_balanced)

lemma RuleSetItem_Start_balanced_witness:
  "\<exists>e item' heap'. RuleSetItem_Start [''set'' \<mapsto> 0] sample_item
      ((\<lambda>_. LocalRS \<lparr>ls_tag = [], ls_rules = [], ls_metadata = RuleSetMetadata_zero, ls_fileFormat = [],
         ls_watcher = False, ls_callbacks = [], ls_refs = 0\<rparr>)(0 := sample_rule_set)) = Inr (e, item', heap') \<and>
    e = None \<and> setList item' = [0] \<and> balanced [item'] heap'"
proof -
  let ?heap = "(\<lambda>_. LocalRS \<lparr>ls_tag = [], ls_rules = [], ls_metadata = RuleSetMetadata_zero, ls_fileFormat = [],
         ls_watcher = False, ls_callbacks = [], ls_refs = 0\<rparr>)(0 := sample_rule_set)"
  have "balanced ([] @ sample_item # []) ?heap"
    by (simp add: balanced_def sample_item_def sample_rule_set_def)
  from RuleSetItem_Start_balanced [OF this, of "[''set'' \<mapsto> 0]"] show ?thesis
    by (simp add: sample_item_def NewRuleSetItem_def) blast
qed

text \<open>
  C6. Cleaning up a rule set, which drops the rules of sets that nothing refers to, never changes what a
  started item matches.
\<close>

theorem Cleanup_keeps_started_items:
  assumes "balanced is heap" "item \<in> set is"
  shows "RuleSetItem_matchStatesWithBase lib env (heap(ref := rs_Cleanup (heap ref))) item metadata base =
    RuleSetItem_matchStatesWithBase lib env heap item metadata base"
proof -
  have "rs_rules (rs_Cleanup (heap ref)) = rs_rules (heap ref)" if "ref \<in> set (setList item)"
  proof -
    have "count_list (setList item) ref \<le> ref_count is ref"
      unfolding ref_count_def using assms(2) by (intro member_le_sum_list) simp_all
    moreover have "count_list (setList item) ref \<noteq> 0"
      using that by (simp add: count_list_0_iff)
    ultimately have "rs_refs (heap ref) \<noteq> 0"
      using assms(1) by (simp add: balanced_def)
    then show ?thesis
      by (cases "heap ref") (simp_all add: local_Cleanup_def remote_Cleanup_def)
  qed
  then have "rs_rules ((heap(ref := rs_Cleanup (heap ref))) x) = rs_rules (heap x)" if "x \<in> set (setList item)" for x
    using that by (cases "x = ref") auto
  then have "branches (heap(ref := rs_Cleanup (heap ref))) item = branches heap item"
    unfolding branches_def by (intro SUP_cong) auto
  then show ?thesis
    by (simp add: states_inject [symmetric] states_RuleSetItem)
qed

lemma Cleanup_keeps_started_items_witness:
  "RuleSetItem_matchStatesWithBase sample_lib netenv_zero
     ((\<lambda>_. RemoteRS (NewRemoteRuleSet \<lparr>rso_Type = [], rso_Tag = [], rso_Format = [], rso_InlineRules = [],
        rso_Path = [], rso_DownloadDetour = [], rso_UpdateInterval = 0\<rparr>))
      (0 := sample_rule_set, Suc 0 := rs_Cleanup (RemoteRS (NewRemoteRuleSet \<lparr>rso_Type = [], rso_Tag = [],
        rso_Format = [], rso_InlineRules = [], rso_Path = [], rso_DownloadDetour = [], rso_UpdateInterval = 0\<rparr>))))
     sample_item sample_metadata 0 =
   RuleSetItem_matchStatesWithBase sample_lib netenv_zero
     ((\<lambda>_. RemoteRS (NewRemoteRuleSet \<lparr>rso_Type = [], rso_Tag = [], rso_Format = [], rso_InlineRules = [],
        rso_Path = [], rso_DownloadDetour = [], rso_UpdateInterval = 0\<rparr>))
      (0 := sample_rule_set)) sample_item sample_metadata 0"
proof -
  let ?remote = "RemoteRS (NewRemoteRuleSet \<lparr>rso_Type = [], rso_Tag = [], rso_Format = [], rso_InlineRules = [],
        rso_Path = [], rso_DownloadDetour = [], rso_UpdateInterval = 0\<rparr>)"
  let ?heap = "(\<lambda>_. ?remote)(0 := sample_rule_set)"
  have "balanced [sample_item] ?heap"
    by (simp add: balanced_def sample_item_def sample_rule_set_def NewRemoteRuleSet_def)
  from Cleanup_keeps_started_items [OF this, of sample_item sample_lib netenv_zero "Suc 0" sample_metadata 0]
  show ?thesis
    by simp
qed

section \<open>Updates\<close>

lemma reloadRules_error:
  "reloadRules lib ctx rules s = (Some e, s', called) \<Longrightarrow> s' = s \<and> called = []"
  by (auto simp: reloadRules_def split: sum.splits)

lemma loadBytes_error: "loadBytes lib ctx reader content s = (Some e, s', called) \<Longrightarrow> s' = s \<and> called = []"
  by (auto simp: loadBytes_def Let_def split: sum.splits)

lemma loadBytes_ok:
  assumes "loadBytes lib ctx reader content s = (None, s', called)"
  obtains rules metadata where "s' = s\<lparr>rm_metadata := metadata, rm_rules := rules\<rparr>" "called = rm_callbacks s"
    and "\<And>t. rm_options t = rm_options s \<Longrightarrow> loadBytes lib ctx reader content t =
      (None, t\<lparr>rm_metadata := metadata, rm_rules := rules\<rparr>, rm_callbacks t)"
proof -
  obtain rules metadata where "bind_result (bind_result
      (if rso_Format (rm_options s) = RuleSetFormatSource then decode_source reader content
       else if rso_Format (rm_options s) = RuleSetFormatBinary then decode_binary reader content
       else Inl (Err ''unknown rule-set format: '')) PlainRuleSetCompat_Upgrade)
      (prepare_rules lib ctx (rso_Tag (rm_options s))) = Inr (rules, metadata)"
    using assms by (auto simp: loadBytes_def Let_def split: sum.splits)
  then show thesis
    using assms that [of rules metadata] by (auto simp: loadBytes_def Let_def)
qed

text \<open>
  C7. An update of a remote rule set that fails, because the request fails, the answer has an unexpected
  status, the body cannot be read or its content is not accepted, changes nothing: the rules, the
  metadata, the time of the last update, the entity tag and the cache are those before it, and no
  callback runs.
\<close>

theorem fetch_error_keeps:
  "fetch lib ctx reader now answer cf s = (Some e, s', cf', called) \<Longrightarrow> s' = s \<and> cf' = cf \<and> called = []"
  by (auto simp: fetch_def fetch_body_def Let_def dest: loadBytes_error
      split: http_answer.splits if_splits sum.splits prod.splits option.splits)

definition sample_remote :: RemoteRuleSet where
  "sample_remote = NewRemoteRuleSet \<lparr>rso_Type = RuleSetTypeRemote, rso_Tag = ''remote'', rso_Format = RuleSetFormatSource,
     rso_InlineRules = [], rso_Path = [], rso_DownloadDetour = [], rso_UpdateInterval = 0\<rparr>"

definition sample_reader :: rule_set_reader where
  "sample_reader = \<lparr>
     decode_source = (\<lambda>content. if content = [] then Inl (Err ''unexpected end of JSON input'')
       else Inr \<lparr>prs_Version = 3, prs_Rules = [HeadlessRuleOptions RuleTypeDefault
         (headless_options_zero\<lparr>dh_Port := Some [443]\<rparr>) [] [] False]\<rparr>),
     decode_binary = (\<lambda>content. Inl (Err ''invalid sing-box rule-set file''))\<rparr>"

definition sample_ctx :: rule_set_ctx where
  "sample_ctx = \<lparr>ctx_NetworkManager = True, ctx_Validator = None\<rparr>"

lemma fetch_error_keeps_witness:
  "\<exists>e. fetch sample_lib sample_ctx sample_reader 5 (Response 200 ''v1'' (Inr [])) None sample_remote =
     (Some e, sample_remote, None, [])"
proof -
  obtain e s' cf' called where
    "fetch sample_lib sample_ctx sample_reader 5 (Response 200 ''v1'' (Inr [])) None sample_remote =
       (Some e, s', cf', called)"
    by (simp add: fetch_def fetch_body_def loadBytes_def sample_reader_def sample_remote_def NewRemoteRuleSet_def Let_def)
  with fetch_error_keeps [OF this] show ?thesis
    by simp
qed



section \<open>The metadata covers the rules\<close>

text \<open>What a rule set can go through in its life: it is started, updated by the loop, referred to and
  released, cleaned up and closed.\<close>

inductive remote_step :: "golib \<Rightarrow> rule_set_ctx \<Rightarrow> rule_set_reader \<Rightarrow> RemoteRuleSet \<Rightarrow> RemoteRuleSet \<Rightarrow> bool"
  for lib ctx reader where
  Start: "remote_StartContext lib ctx reader outbounds now answer cf s = (e, s', cf', called) \<Longrightarrow>
    remote_step lib ctx reader s s'"
| Update: "updateOnce lib ctx reader now answer cf s = (s', cf', called) \<Longrightarrow> remote_step lib ctx reader s s'"
| LoopStart: "loopUpdate_start lib ctx reader now answer cf s = (s', cf', called) \<Longrightarrow>
    remote_step lib ctx reader s s'"
| Inc: "rs_IncRef (RemoteRS s) = RemoteRS s' \<Longrightarrow> remote_step lib ctx reader s s'"
| Dec: "rs_DecRef (RemoteRS s) = Inr (RemoteRS s') \<Longrightarrow> remote_step lib ctx reader s s'"
| Cleanup: "remote_step lib ctx reader s (remote_Cleanup s)"
| Close: "remote_step lib ctx reader s (remote_Close s)"

inductive local_step :: "golib \<Rightarrow> rule_set_ctx \<Rightarrow> rule_set_reader \<Rightarrow> LocalRuleSet \<Rightarrow> LocalRuleSet \<Rightarrow> bool"
  for lib ctx reader where
  Reload: "reloadFile lib ctx reader content s = (e, s', called) \<Longrightarrow> local_step lib ctx reader s s'"
| Inc: "rs_IncRef (LocalRS s) = LocalRS s' \<Longrightarrow> local_step lib ctx reader s s'"
| Dec: "rs_DecRef (LocalRS s) = Inr (LocalRS s') \<Longrightarrow> local_step lib ctx reader s s'"
| Cleanup: "local_step lib ctx reader s (local_Cleanup s)"
| Close: "local_step lib ctx reader s (local_Close s)"

text \<open>The readers give rules whose empty types have been replaced (\<^verbatim>\<open>HeadlessRule.UnmarshalJSON\<close>
  and \<^verbatim>\<open>srs.readRule\<close> set the type of every rule).\<close>

definition reader_normalises :: "rule_set_reader \<Rightarrow> bool" where
  "reader_normalises reader \<longleftrightarrow>
     (\<forall>content r. decode_source reader content = Inr r \<longrightarrow> list_all normalised (prs_Rules r)) \<and>
     (\<forall>content r. decode_binary reader content = Inr r \<longrightarrow> list_all normalised (prs_Rules r))"

definition ip_rules_declared :: "headless_rule list \<Rightarrow> RuleSetMetadata \<Rightarrow> bool" where
  "ip_rules_declared rules metadata \<longleftrightarrow> (list_ex has_ip_items rules \<longrightarrow> ContainsIPCIDRRule metadata)"

lemma parse_rule_set_rules_ip_items:
  "parse_rule_set_rules lib nm os = Inr rules \<Longrightarrow> list_all normalised os \<Longrightarrow>
   list_ex has_ip_items rules \<longleftrightarrow> HasHeadlessRule os isIPCIDRHeadlessRule"
proof (induction os arbitrary: rules)
  case (Cons options os)
  then show ?case
    using NewHeadlessRule_ip_items_aux(1) [of lib nm options]
    by (auto simp: bind_result_Inr_iff HasHeadlessRule_def)
qed (simp add: HasHeadlessRule_def)

lemma prepare_rules_declared:
  assumes "prepare_rules lib ctx tag os = Inr (rules, metadata)" "list_all normalised os"
  shows "ip_rules_declared rules metadata"
  using assms parse_rule_set_rules_ip_items [of lib "ctx_NetworkManager ctx" os]
  by (auto simp: prepare_rules_def ip_rules_declared_def bind_result_Inr_iff Let_def
      buildRuleSetMetadata_def split: option.splits)

lemma decoded_normalised:
  assumes "bind_result (if P then ds else if Q then db else Inl e) PlainRuleSetCompat_Upgrade = Inr os"
    and "\<And>r. ds = Inr r \<Longrightarrow> list_all normalised (prs_Rules r)"
    and "\<And>r. db = Inr r \<Longrightarrow> list_all normalised (prs_Rules r)"
  shows "list_all normalised os"
  using assms by (auto simp: bind_result_Inr_iff PlainRuleSetCompat_Upgrade_def split: if_splits)

lemma loadBytes_declared:
  assumes "reader_normalises reader" "loadBytes lib ctx reader content s = (e, s', called)"
    and "ip_rules_declared (rm_rules s) (rm_metadata s)"
  shows "ip_rules_declared (rm_rules s') (rm_metadata s')"
proof (cases e)
  case (Some x)
  then show ?thesis
    using assms loadBytes_error by blast
next
  case None
  let ?decoded = "if rso_Format (rm_options s) = RuleSetFormatSource then decode_source reader content
       else if rso_Format (rm_options s) = RuleSetFormatBinary then decode_binary reader content
       else Inl (Err ''unknown rule-set format: '')"
  obtain os where os: "bind_result ?decoded PlainRuleSetCompat_Upgrade = Inr os"
    "prepare_rules lib ctx (rso_Tag (rm_options s)) os = Inr (rm_rules s', rm_metadata s')"
    using assms(2) None by (auto simp: loadBytes_def Let_def bind_result_Inr_iff split: sum.splits)
  have "list_all normalised os"
    using os(1) assms(1) by (auto elim!: decoded_normalised simp: reader_normalises_def)
  then show ?thesis
    using prepare_rules_declared os(2) by blast
qed

lemma fetch_declared:
  assumes "reader_normalises reader" "fetch lib ctx reader now answer cf s = (e, s', cf', called)"
    and "ip_rules_declared (rm_rules s) (rm_metadata s)"
  shows "ip_rules_declared (rm_rules s') (rm_metadata s')"
  using assms(2,3)
  by (auto simp: fetch_def fetch_body_def Let_def dest: loadBytes_declared [OF assms(1)]
      split: http_answer.splits if_splits sum.splits prod.splits option.splits)

lemma updateOnce_declared:
  assumes "reader_normalises reader" "updateOnce lib ctx reader now answer cf s = (s', cf', called)"
    and "ip_rules_declared (rm_rules s) (rm_metadata s)"
  shows "ip_rules_declared (rm_rules s') (rm_metadata s')"
proof -
  obtain e s1 cf1 called1 where f: "fetch lib ctx reader now answer cf s = (e, s1, cf1, called1)"
    by (metis prod_cases4)
  have "ip_rules_declared (rm_rules s1) (rm_metadata s1)"
    by (rule fetch_declared [OF assms(1) f assms(3)])
  then show ?thesis
    using assms(2) f
    by (auto simp: updateOnce_def ip_rules_declared_def split: option.splits if_splits)
qed

lemma StartContext_declared:
  assumes "reader_normalises reader"
    and "remote_StartContext lib ctx reader outbounds now answer cf s = (e, s', cf', called)"
    and "ip_rules_declared (rm_rules s) (rm_metadata s)"
  shows "ip_rules_declared (rm_rules s') (rm_metadata s')"
  using assms(2,3)
  by (auto simp: remote_StartContext_def Let_def
      dest!: loadBytes_declared [OF assms(1)] fetch_declared [OF assms(1)]
      split: if_splits option.splits prod.splits)

lemma remote_step_declared:
  assumes "remote_step lib ctx reader s s'" "reader_normalises reader"
    and "ip_rules_declared (rm_rules s) (rm_metadata s)"
  shows "ip_rules_declared (rm_rules s') (rm_metadata s')"
  using assms
proof cases
  case LoopStart
  then show ?thesis
    using assms(2,3) updateOnce_declared by (auto simp: loopUpdate_start_def split: if_splits option.splits)
qed (use assms(2,3) StartContext_declared updateOnce_declared in
      \<open>auto simp: remote_Cleanup_def remote_Close_def ip_rules_declared_def split: if_splits\<close>)

lemma reloadFile_declared:
  assumes "reader_normalises reader" "reloadFile lib ctx reader content s = (e, s', called)"
    and "ip_rules_declared (ls_rules s) (ls_metadata s)"
  shows "ip_rules_declared (ls_rules s') (ls_metadata s')"
proof -
  let ?decoded = "if ls_fileFormat s = RuleSetFormatSource \<or> ls_fileFormat s = []
       then bind_result content (decode_source reader)
       else if ls_fileFormat s = RuleSetFormatBinary then bind_result content (decode_binary reader)
       else Inl (Err ''unknown rule-set format: '')"
  show ?thesis
  proof (cases "bind_result ?decoded PlainRuleSetCompat_Upgrade")
    case (Inl x)
    then show ?thesis
      using assms(2,3) by (simp add: reloadFile_def Let_def)
  next
    case (Inr os)
    have "list_all normalised os"
      by (rule decoded_normalised [OF Inr]) (use assms(1) in \<open>auto simp: reader_normalises_def bind_result_Inr_iff\<close>)
    then show ?thesis
      using assms(2,3) Inr prepare_rules_declared [of lib ctx "ls_tag s" os]
      by (auto simp: reloadFile_def reloadRules_def Let_def split: sum.splits)
  qed
qed

lemma local_step_declared:
  assumes "local_step lib ctx reader s s'" "reader_normalises reader"
    and "ip_rules_declared (ls_rules s) (ls_metadata s)"
  shows "ip_rules_declared (ls_rules s') (ls_metadata s')"
  using assms
  by cases (use assms(2,3) reloadFile_declared in
      \<open>auto simp: local_Cleanup_def local_Close_def ip_rules_declared_def split: if_splits\<close>)

lemma NewLocalRuleSet_declared:
  assumes "NewLocalRuleSet lib ctx reader content watcher_err options = Inr s" "reader_normalises reader"
    and "list_all normalised (rso_InlineRules options)"
  shows "ip_rules_declared (ls_rules s) (ls_metadata s)"
proof -
  let ?s0 = "\<lparr>ls_tag = rso_Tag options, ls_rules = [], ls_metadata = RuleSetMetadata_zero,
    ls_fileFormat = rso_Format options, ls_watcher = False, ls_callbacks = [], ls_refs = 0\<rparr>"
  have "ip_rules_declared (ls_rules ?s0) (ls_metadata ?s0)"
    by (simp add: ip_rules_declared_def)
  with assms show ?thesis
    by (auto simp: NewLocalRuleSet_def Let_def reloadRules_def dest!: reloadFile_declared [OF assms(2)]
        dest: prepare_rules_declared split: if_splits option.splits prod.splits sum.splits)
qed

text \<open>The states a rule set made from some options can be in.\<close>

inductive reachable_rule_set ::
    "golib \<Rightarrow> rule_set_ctx \<Rightarrow> rule_set_reader \<Rightarrow> RuleSetOptions \<Rightarrow> rule_set \<Rightarrow> bool"
  for lib ctx reader options where
  New: "NewRuleSet lib ctx reader content watcher_err options = Inr s \<Longrightarrow> reachable_rule_set lib ctx reader options s"
| Local: "reachable_rule_set lib ctx reader options (LocalRS s) \<Longrightarrow> local_step lib ctx reader s s' \<Longrightarrow>
    reachable_rule_set lib ctx reader options (LocalRS s')"
| Remote: "reachable_rule_set lib ctx reader options (RemoteRS s) \<Longrightarrow> remote_step lib ctx reader s s' \<Longrightarrow>
    reachable_rule_set lib ctx reader options (RemoteRS s')"

text \<open>
  C5. Throughout the life of a rule set, local or remote, in whatever order it is started, updated, referred to,
  released, cleaned up and closed, its metadata says that it contains IP rules whenever one of its rules,
  at any depth, has a destination IP item.
\<close>

theorem rule_set_metadata_covers:
  assumes "reachable_rule_set lib ctx reader options s" "reader_normalises reader"
    and "list_all normalised (rso_InlineRules options)"
  shows "ip_rules_declared (rs_rules s) (rs_Metadata s)"
  using assms
proof (induction rule: reachable_rule_set.induct)
  case (New content watcher_err s)
  then show ?case
    by (auto simp: NewRuleSet_def bind_result_Inr_iff NewRemoteRuleSet_def ip_rules_declared_def
        dest: NewLocalRuleSet_declared split: if_splits)
qed (use remote_step_declared local_step_declared in auto)

lemma rule_set_metadata_covers_witness:
  "\<exists>s. reachable_rule_set sample_lib sample_ctx sample_reader (rm_options sample_remote) s \<and>
     ip_rules_declared (rs_rules s) (rs_Metadata s)"
proof -
  have reach: "reachable_rule_set sample_lib sample_ctx sample_reader (rm_options sample_remote) (RemoteRS (remote_Close sample_remote))"
    by (rule Remote [OF New [of _ _ _ "Inr []" None] remote_step.Close])
      (simp add: NewRuleSet_def sample_remote_def NewRemoteRuleSet_def RuleSetTypeRemote_def RuleSetTypeInline_def
        RuleSetTypeLocal_def)
  have "reader_normalises sample_reader"
    by (auto simp: reader_normalises_def sample_reader_def split: if_splits)
  from rule_set_metadata_covers [OF reach this] show ?thesis
    using reach by (auto simp: sample_remote_def NewRemoteRuleSet_def)
qed

end
