(* ===== verification/Rule_Action.thy ===== *)
theory Rule_Action
  imports Metadata
begin

text \<open>
  The actions of route and DNS rules (\<^verbatim>\<open>src/route/rule/rule_action.go\<close>) and their options
  (\<^verbatim>\<open>src/option/rule_action.go\<close>). The descriptions that are only logged are left out. The
  parser of host and port and the constructor of dialers are parameters.
\<close>

section \<open>Options\<close>

record RawRouteOptionsActionOptions =
  rao_OverrideAddress :: string
  rao_OverridePort :: u16
  rao_NetworkStrategy :: "u8 option"
  rao_FallbackDelay :: u32
  rao_UDPDisableDomainUnmapping :: bool
  rao_UDPConnect :: bool
  rao_UDPTimeout :: int
  rao_TLSFragment :: bool
  rao_TLSFragmentFallbackDelay :: int
  rao_TLSRecordFragment :: bool

record RouteActionOptions =
  rta_Outbound :: string
  rta_Raw :: RawRouteOptionsActionOptions

record RejectActionOptions =
  rej_Method :: string
  rej_NoDrop :: bool

record RouteActionSniff =
  sno_Sniffer :: "string slice"
  sno_Timeout :: int

record RouteActionResolve =
  rslv_Server :: string
  rslv_Strategy :: u8
  rslv_DisableCache :: bool
  rslv_DisableOptimisticCache :: bool
  rslv_RewriteTTL :: "u32 option"
  rslv_ClientSubnet :: "prefix option"

record DialerOptions =
  do_Detour :: string
  do_BindInterface :: string
  do_Inet4BindAddress :: "addr option"
  do_Inet6BindAddress :: "addr option"
  do_BindAddressNoPort :: bool
  do_ProtectPath :: string
  do_RoutingMark :: u32
  do_ReuseAddr :: bool
  do_NetNs :: string
  do_ConnectTimeout :: int
  do_TCPFastOpen :: bool
  do_TCPMultiPath :: bool
  do_DisableTCPKeepAlive :: bool
  do_TCPKeepAlive :: int
  do_TCPKeepAliveInterval :: int
  do_UDPFragment :: "bool option"
  do_UDPFragmentDefault :: bool
  do_DomainResolver :: "RouteActionResolve option"
  do_NetworkStrategy :: "u8 option"
  do_NetworkType :: "interface_type slice"
  do_FallbackNetworkType :: "interface_type slice"
  do_FallbackDelay :: int
  do_DomainStrategy :: u8

record RuleActionOptions =
  ra_Action :: string
  ra_RouteOptions :: RouteActionOptions
  ra_RouteOptionsOptions :: RawRouteOptionsActionOptions
  ra_DirectOptions :: DialerOptions
  ra_BypassOptions :: RouteActionOptions
  ra_RejectOptions :: RejectActionOptions
  ra_SniffOptions :: RouteActionSniff
  ra_ResolveOptions :: RouteActionResolve

record DNSRouteActionOptions =
  dra_Server :: string
  dra_Strategy :: u8
  dra_DisableCache :: bool
  dra_DisableOptimisticCache :: bool
  dra_RewriteTTL :: "u32 option"
  dra_ClientSubnet :: "prefix option"

record DNSRouteActionPredefined =
  pre_Rcode :: "int option"
  pre_Answer :: "rr slice"
  pre_Ns :: "rr slice"
  pre_Extra :: "rr slice"

record DNSRuleActionOptions =
  da_Action :: string
  da_RouteOptions :: DNSRouteActionOptions
  da_RouteOptionsOptions :: DNSRouteActionOptions
  da_RejectOptions :: RejectActionOptions
  da_PredefinedOptions :: DNSRouteActionPredefined

text \<open>The zero values, with which options are compared to see whether an action is configured. The
  route options of a DNS rule are the options of its route action without a server.\<close>

definition RawRouteOptionsActionOptions_zero :: RawRouteOptionsActionOptions where
  "RawRouteOptionsActionOptions_zero = \<lparr>rao_OverrideAddress = [], rao_OverridePort = 0,
     rao_NetworkStrategy = None, rao_FallbackDelay = 0, rao_UDPDisableDomainUnmapping = False,
     rao_UDPConnect = False, rao_UDPTimeout = 0, rao_TLSFragment = False,
     rao_TLSFragmentFallbackDelay = 0, rao_TLSRecordFragment = False\<rparr>"

definition RouteActionOptions_zero :: RouteActionOptions where
  "RouteActionOptions_zero = \<lparr>rta_Outbound = [], rta_Raw = RawRouteOptionsActionOptions_zero\<rparr>"

definition RouteActionResolve_zero :: RouteActionResolve where
  "RouteActionResolve_zero = \<lparr>rslv_Server = [], rslv_Strategy = 0, rslv_DisableCache = False,
     rslv_DisableOptimisticCache = False, rslv_RewriteTTL = None, rslv_ClientSubnet = None\<rparr>"

definition DialerOptions_zero :: DialerOptions where
  "DialerOptions_zero = \<lparr>do_Detour = [], do_BindInterface = [], do_Inet4BindAddress = None,
     do_Inet6BindAddress = None, do_BindAddressNoPort = False, do_ProtectPath = [], do_RoutingMark = 0,
     do_ReuseAddr = False, do_NetNs = [], do_ConnectTimeout = 0, do_TCPFastOpen = False,
     do_TCPMultiPath = False, do_DisableTCPKeepAlive = False, do_TCPKeepAlive = 0,
     do_TCPKeepAliveInterval = 0, do_UDPFragment = None, do_UDPFragmentDefault = False,
     do_DomainResolver = None, do_NetworkStrategy = None, do_NetworkType = None,
     do_FallbackNetworkType = None, do_FallbackDelay = 0, do_DomainStrategy = 0\<rparr>"

definition RuleActionOptions_zero :: RuleActionOptions where
  "RuleActionOptions_zero = \<lparr>ra_Action = [], ra_RouteOptions = RouteActionOptions_zero,
     ra_RouteOptionsOptions = RawRouteOptionsActionOptions_zero, ra_DirectOptions = DialerOptions_zero,
     ra_BypassOptions = RouteActionOptions_zero, ra_RejectOptions = \<lparr>rej_Method = [], rej_NoDrop = False\<rparr>,
     ra_SniffOptions = \<lparr>sno_Sniffer = None, sno_Timeout = 0\<rparr>, ra_ResolveOptions = RouteActionResolve_zero\<rparr>"

definition DNSRouteActionOptions_zero :: DNSRouteActionOptions where
  "DNSRouteActionOptions_zero = \<lparr>dra_Server = [], dra_Strategy = 0, dra_DisableCache = False,
     dra_DisableOptimisticCache = False, dra_RewriteTTL = None, dra_ClientSubnet = None\<rparr>"

definition DNSRuleActionOptions_zero :: DNSRuleActionOptions where
  "DNSRuleActionOptions_zero = \<lparr>da_Action = [], da_RouteOptions = DNSRouteActionOptions_zero,
     da_RouteOptionsOptions = DNSRouteActionOptions_zero,
     da_RejectOptions = \<lparr>rej_Method = [], rej_NoDrop = False\<rparr>,
     da_PredefinedOptions = \<lparr>pre_Rcode = None, pre_Answer = None, pre_Ns = None, pre_Extra = None\<rparr>\<rparr>"

section \<open>Actions\<close>

definition RuleActionTypeRoute :: string where "RuleActionTypeRoute = ''route''"
definition RuleActionTypeRouteOptions :: string where "RuleActionTypeRouteOptions = ''route-options''"
definition RuleActionTypeEvaluate :: string where "RuleActionTypeEvaluate = ''evaluate''"
definition RuleActionTypeRespond :: string where "RuleActionTypeRespond = ''respond''"
definition RuleActionTypeDirect :: string where "RuleActionTypeDirect = ''direct''"
definition RuleActionTypeBypass :: string where "RuleActionTypeBypass = ''bypass''"
definition RuleActionTypeReject :: string where "RuleActionTypeReject = ''reject''"
definition RuleActionTypeHijackDNS :: string where "RuleActionTypeHijackDNS = ''hijack-dns''"
definition RuleActionTypeSniff :: string where "RuleActionTypeSniff = ''sniff''"
definition RuleActionTypeResolve :: string where "RuleActionTypeResolve = ''resolve''"
definition RuleActionTypePredefined :: string where "RuleActionTypePredefined = ''predefined''"
definition RuleActionRejectMethodDefault :: string where "RuleActionRejectMethodDefault = ''default''"
definition RuleActionRejectMethodDrop :: string where "RuleActionRejectMethodDrop = ''drop''"
definition RuleActionRejectMethodReply :: string where "RuleActionRejectMethodReply = ''reply''"

lemmas action_type_defs = RuleActionTypeRoute_def RuleActionTypeRouteOptions_def RuleActionTypeEvaluate_def
  RuleActionTypeRespond_def RuleActionTypeDirect_def RuleActionTypeBypass_def RuleActionTypeReject_def
  RuleActionTypeHijackDNS_def RuleActionTypeSniff_def RuleActionTypeResolve_def RuleActionTypePredefined_def

record RuleActionRouteOptions =
  ro_OverrideAddress :: socksaddr
  ro_OverridePort :: u16
  ro_NetworkStrategy :: "u8 option"
  ro_NetworkType :: "interface_type slice"
  ro_FallbackNetworkType :: "interface_type slice"
  ro_FallbackDelay :: int
  ro_UDPDisableDomainUnmapping :: bool
  ro_UDPConnect :: bool
  ro_UDPTimeout :: int
  ro_TLSFragment :: bool
  ro_TLSFragmentFallbackDelay :: int
  ro_TLSRecordFragment :: bool

record RuleActionDNSRouteOptions =
  dro_Strategy :: u8
  dro_DisableCache :: bool
  dro_DisableOptimisticCache :: bool
  dro_RewriteTTL :: "u32 option"
  dro_ClientSubnet :: prefix

record RuleActionReject =
  reject_Method :: string
  reject_NoDrop :: bool
  dropCounter :: "int list"

datatype StreamSniffer = TLSClientHello | HTTPHost | StreamDomainNameQuery | BitTorrent | SSH | RDP
datatype PacketSniffer = QUICClientHello | DomainNameQuery | STUNMessage | UTP | UDPTracker | DTLSRecord | NTP

record RuleActionSniff =
  sniff_SnifferNames :: "string list"
  sniff_StreamSniffers :: "StreamSniffer list"
  sniff_PacketSniffers :: "PacketSniffer list"
  sniff_Timeout :: int
  sniff_OverrideDestination :: bool

record RuleActionResolve =
  resolve_Server :: string
  resolve_Strategy :: u8
  resolve_DisableCache :: bool
  resolve_DisableOptimisticCache :: bool
  resolve_RewriteTTL :: "u32 option"
  resolve_ClientSubnet :: prefix

record RuleActionPredefined =
  predefined_Rcode :: int
  predefined_Answer :: "rr list"
  predefined_Ns :: "rr list"
  predefined_Extra :: "rr list"

datatype rule_action =
    ActionRoute string RuleActionRouteOptions
  | ActionRouteOptions RuleActionRouteOptions
  | ActionBypass string RuleActionRouteOptions
  | ActionDirect DialerOptions
  | ActionReject RuleActionReject
  | ActionHijackDNS
  | ActionSniff RuleActionSniff
  | ActionResolve RuleActionResolve
  | ActionDNSRoute string RuleActionDNSRouteOptions
  | ActionEvaluate string RuleActionDNSRouteOptions
  | ActionRespond
  | ActionDNSRouteOptions RuleActionDNSRouteOptions
  | ActionPredefined RuleActionPredefined

section \<open>Constructors\<close>

record action_env =
  ParseSocksaddrHostPort :: "string \<Rightarrow> u16 \<Rightarrow> socksaddr"
  dialer_New :: "DialerOptions \<Rightarrow> err option"

text \<open>The route action and the bypass action copy the route options without the UDP timeout; the
  route options action copies all of them.\<close>

definition route_fields :: "action_env \<Rightarrow> RawRouteOptionsActionOptions \<Rightarrow> RuleActionRouteOptions" where
  "route_fields env o' = \<lparr>
     ro_OverrideAddress = ParseSocksaddrHostPort env (rao_OverrideAddress o') 0,
     ro_OverridePort = rao_OverridePort o',
     ro_NetworkStrategy = rao_NetworkStrategy o',
     ro_NetworkType = None,
     ro_FallbackNetworkType = None,
     ro_FallbackDelay = uint (rao_FallbackDelay o'),
     ro_UDPDisableDomainUnmapping = rao_UDPDisableDomainUnmapping o',
     ro_UDPConnect = rao_UDPConnect o',
     ro_UDPTimeout = 0,
     ro_TLSFragment = rao_TLSFragment o',
     ro_TLSFragmentFallbackDelay = rao_TLSFragmentFallbackDelay o',
     ro_TLSRecordFragment = rao_TLSRecordFragment o'\<rparr>"

fun sniff_build :: "string list \<Rightarrow> RuleActionSniff \<Rightarrow> RuleActionSniff result" where
  "sniff_build [] r = Inr r"
| "sniff_build (name # rest) r =
     (if name = ''tls'' then
        sniff_build rest (r\<lparr>sniff_StreamSniffers := sniff_StreamSniffers r @ [TLSClientHello]\<rparr>)
      else if name = ''http'' then
        sniff_build rest (r\<lparr>sniff_StreamSniffers := sniff_StreamSniffers r @ [HTTPHost]\<rparr>)
      else if name = ''quic'' then
        sniff_build rest (r\<lparr>sniff_PacketSniffers := sniff_PacketSniffers r @ [QUICClientHello]\<rparr>)
      else if name = ''dns'' then
        sniff_build rest (r\<lparr>sniff_StreamSniffers := sniff_StreamSniffers r @ [StreamDomainNameQuery],
                            sniff_PacketSniffers := sniff_PacketSniffers r @ [DomainNameQuery]\<rparr>)
      else if name = ''stun'' then
        sniff_build rest (r\<lparr>sniff_PacketSniffers := sniff_PacketSniffers r @ [STUNMessage]\<rparr>)
      else if name = ''bittorrent'' then
        sniff_build rest (r\<lparr>sniff_StreamSniffers := sniff_StreamSniffers r @ [BitTorrent],
                            sniff_PacketSniffers := sniff_PacketSniffers r @ [UTP, UDPTracker]\<rparr>)
      else if name = ''dtls'' then
        sniff_build rest (r\<lparr>sniff_PacketSniffers := sniff_PacketSniffers r @ [DTLSRecord]\<rparr>)
      else if name = ''ssh'' then
        sniff_build rest (r\<lparr>sniff_StreamSniffers := sniff_StreamSniffers r @ [SSH]\<rparr>)
      else if name = ''rdp'' then
        sniff_build rest (r\<lparr>sniff_StreamSniffers := sniff_StreamSniffers r @ [RDP]\<rparr>)
      else if name = ''ntp'' then
        sniff_build rest (r\<lparr>sniff_PacketSniffers := sniff_PacketSniffers r @ [NTP]\<rparr>)
      else Inl (Err ''unknown sniffer: ''))"

definition new_reject :: "RejectActionOptions \<Rightarrow> RuleActionReject" where
  "new_reject o' = \<lparr>reject_Method = rej_Method o', reject_NoDrop = rej_NoDrop o', dropCounter = []\<rparr>"

definition prefixable_Build :: "prefix option \<Rightarrow> prefix" where
  "prefixable_Build p = (case p of None \<Rightarrow> prefix_zero | Some q \<Rightarrow> q)"

definition NewRuleAction :: "action_env \<Rightarrow> RuleActionOptions \<Rightarrow> rule_action option result" where
  "NewRuleAction env act =
     (if ra_Action act = [] then Inr None
      else if ra_Action act = RuleActionTypeRoute then
        Inr (Some (ActionRoute (rta_Outbound (ra_RouteOptions act)) (route_fields env (rta_Raw (ra_RouteOptions act)))))
      else if ra_Action act = RuleActionTypeRouteOptions then
        Inr (Some (ActionRouteOptions ((route_fields env (ra_RouteOptionsOptions act))
          \<lparr>ro_UDPTimeout := rao_UDPTimeout (ra_RouteOptionsOptions act)\<rparr>)))
      else if ra_Action act = RuleActionTypeBypass then
        Inr (Some (ActionBypass (rta_Outbound (ra_BypassOptions act)) (route_fields env (rta_Raw (ra_BypassOptions act)))))
      else if ra_Action act = RuleActionTypeDirect then
        (case dialer_New env (ra_DirectOptions act) of
           Some e \<Rightarrow> Inl e
         | None \<Rightarrow> Inr (Some (ActionDirect (ra_DirectOptions act))))
      else if ra_Action act = RuleActionTypeReject then
        Inr (Some (ActionReject (new_reject (ra_RejectOptions act))))
      else if ra_Action act = RuleActionTypeHijackDNS then Inr (Some ActionHijackDNS)
      else if ra_Action act = RuleActionTypeSniff then
        bind_result (sniff_build (slice (sno_Sniffer (ra_SniffOptions act)))
          \<lparr>sniff_SnifferNames = slice (sno_Sniffer (ra_SniffOptions act)), sniff_StreamSniffers = [],
           sniff_PacketSniffers = [], sniff_Timeout = sno_Timeout (ra_SniffOptions act),
           sniff_OverrideDestination = False\<rparr>) (\<lambda>sniffAction. Inr (Some (ActionSniff sniffAction)))
      else if ra_Action act = RuleActionTypeResolve then
        (let o' = ra_ResolveOptions act in
         Inr (Some (ActionResolve \<lparr>
           resolve_Server = rslv_Server o', resolve_Strategy = rslv_Strategy o',
           resolve_DisableCache = rslv_DisableCache o',
           resolve_DisableOptimisticCache = rslv_DisableOptimisticCache o',
           resolve_RewriteTTL = rslv_RewriteTTL o',
           resolve_ClientSubnet = prefixable_Build (rslv_ClientSubnet o')\<rparr>)))
      else Inl (Panic ''unknown rule action: ''))"

definition dns_route_fields :: "DNSRouteActionOptions \<Rightarrow> RuleActionDNSRouteOptions" where
  "dns_route_fields o' = \<lparr>
     dro_Strategy = dra_Strategy o', dro_DisableCache = dra_DisableCache o',
     dro_DisableOptimisticCache = dra_DisableOptimisticCache o', dro_RewriteTTL = dra_RewriteTTL o',
     dro_ClientSubnet = prefixable_Build (dra_ClientSubnet o')\<rparr>"

definition DNSRCode_Build :: "int option \<Rightarrow> int" where
  "DNSRCode_Build r = (case r of None \<Rightarrow> RcodeSuccess | Some rc \<Rightarrow> rc)"

definition NewDNSRuleAction :: "DNSRuleActionOptions \<Rightarrow> rule_action option result" where
  "NewDNSRuleAction act =
     (if da_Action act = [] then Inr None
      else if da_Action act = RuleActionTypeRoute then
        Inr (Some (ActionDNSRoute (dra_Server (da_RouteOptions act)) (dns_route_fields (da_RouteOptions act))))
      else if da_Action act = RuleActionTypeEvaluate then
        Inr (Some (ActionEvaluate (dra_Server (da_RouteOptions act)) (dns_route_fields (da_RouteOptions act))))
      else if da_Action act = RuleActionTypeRespond then Inr (Some ActionRespond)
      else if da_Action act = RuleActionTypeRouteOptions then
        Inr (Some (ActionDNSRouteOptions (dns_route_fields (da_RouteOptionsOptions act))))
      else if da_Action act = RuleActionTypeReject then
        Inr (Some (ActionReject (new_reject (da_RejectOptions act))))
      else if da_Action act = RuleActionTypePredefined then
        (let o' = da_PredefinedOptions act in
         Inr (Some (ActionPredefined \<lparr>
           predefined_Rcode = DNSRCode_Build (pre_Rcode o'), predefined_Answer = slice (pre_Answer o'),
           predefined_Ns = slice (pre_Ns o'), predefined_Extra = slice (pre_Extra o')\<rparr>)))
      else Inl (Panic ''unknown rule action: ''))"

section \<open>Rejecting\<close>

text \<open>The two outcomes of a rejection, the errors \<^verbatim>\<open>tun.ErrReset\<close> and
  \<^verbatim>\<open>tun.ErrDrop\<close> wrapped as rejected. \<^verbatim>\<open>Error\<close> returns nil for the reply method
  and panics on a method it does not know. Times and durations are in nanoseconds.\<close>

datatype rejection = RejectReset | RejectDrop

definition RuleActionReject_Error :: "int \<Rightarrow> RuleActionReject \<Rightarrow> (rejection option \<times> RuleActionReject) result" where
  "RuleActionReject_Error timeNow r =
     (if reject_Method r = RuleActionRejectMethodDefault then
        (if reject_NoDrop r then Inr (Some RejectReset, r)
         else
           (let counter = filter (\<lambda>t. timeNow - t \<le> 30 * second_ns) (dropCounter r) @ [timeNow];
                r' = r\<lparr>dropCounter := counter\<rparr>
            in if length counter > 50 then Inr (Some RejectDrop, r') else Inr (Some RejectReset, r')))
      else if reject_Method r = RuleActionRejectMethodDrop then Inr (Some RejectDrop, r)
      else if reject_Method r = RuleActionRejectMethodReply then Inr (None, r)
      else Inl (Panic ''unknown reject method: ''))"

section \<open>Predefined responses\<close>

definition rewriteRecords :: "rr list \<Rightarrow> question \<Rightarrow> rr list" where
  "rewriteRecords records question =
     map (\<lambda>it.
       if has_prefix (rr_Name it) ''*'' then
         (if has_suffix (q_Name question) (drop 1 (rr_Name it)) then it\<lparr>rr_Name := q_Name question\<rparr> else it)
       else it) records"

text \<open>The request is indexed at its first question, which panics when there is none.\<close>

definition RuleActionPredefined_Response :: "RuleActionPredefined \<Rightarrow> dns_msg \<Rightarrow> dns_msg result" where
  "RuleActionPredefined_Response r request =
     (case msg_Question request of
        [] \<Rightarrow> Inl (Panic ''index out of range'')
      | question # _ \<Rightarrow>
          Inr \<lparr>msg_Id = msg_Id request, msg_Response = True, msg_Authoritative = True,
               msg_RecursionDesired = True, msg_RecursionAvailable = True,
               msg_Rcode = predefined_Rcode r, msg_Question = msg_Question request,
               msg_Answer = rewriteRecords (predefined_Answer r) question,
               msg_Ns = rewriteRecords (predefined_Ns r) question,
               msg_Extra = rewriteRecords (predefined_Extra r) question\<rparr>)"

section \<open>Properties\<close>

text \<open>A run of rejections: the answers at the given times, and the action at the end.\<close>

fun reject_run :: "int list \<Rightarrow> RuleActionReject \<Rightarrow> (rejection option list \<times> RuleActionReject) result" where
  "reject_run [] r = Inr ([], r)"
| "reject_run (t # ts) r =
     bind_result (RuleActionReject_Error t r) (\<lambda>(answer, r1).
     bind_result (reject_run ts r1) (\<lambda>(answers, r2). Inr (answer # answers, r2)))"

lemma reject_run_append:
  "reject_run (ts @ [t]) r =
     bind_result (reject_run ts r) (\<lambda>(answers, r1).
     bind_result (RuleActionReject_Error t r1) (\<lambda>(answer, r2). Inr (answers @ [answer], r2)))"
proof (induction ts arbitrary: r)
  case Nil
  show ?case
    by (cases "RuleActionReject_Error t r") auto
next
  case (Cons s ts)
  show ?case
  proof (cases "RuleActionReject_Error s r")
    case (Inr p)
    obtain answer r1 where "p = (answer, r1)"
      by fastforce
    then show ?thesis
      using Inr Cons.IH [of r1] by (cases "reject_run ts r1") (auto simp: bind_result_def split: sum.splits)
  qed simp
qed

abbreviation in_window :: "int \<Rightarrow> int \<Rightarrow> bool" where
  "in_window now t \<equiv> now - t \<le> 30 * second_ns"

text \<open>The counter holds the triggers of the last thirty seconds: an older one that was dropped from it
  stays out of the window, because time does not go back.\<close>

lemma reject_run_counter:
  assumes "sorted (ts @ [t])" "reject_Method r = RuleActionRejectMethodDefault" "\<not> reject_NoDrop r"
    and "dropCounter r = []"
  shows "\<exists>answers r'. reject_run (ts @ [t]) r = Inr (answers, r') \<and> dropCounter r' = filter (in_window t) (ts @ [t]) \<and>
    reject_Method r' = reject_Method r \<and> reject_NoDrop r' = reject_NoDrop r"
  using assms(1)
proof (induction ts arbitrary: t rule: rev_induct)
  case Nil
  show ?case
    using assms(2-4) by (simp add: RuleActionReject_Error_def Let_def second_ns_def)
next
  case (snoc s ts)
  have sorted: "sorted (ts @ [s])" and le: "s \<le> t"
    using snoc.prems by (auto simp: sorted_append)
  from snoc.IH [OF sorted] obtain answers r1 where run: "reject_run (ts @ [s]) r = Inr (answers, r1)"
    "dropCounter r1 = filter (in_window s) (ts @ [s])"
    "reject_Method r1 = reject_Method r" "reject_NoDrop r1 = reject_NoDrop r"
    by blast
  have "filter (in_window t) (dropCounter r1) = filter (in_window t) (ts @ [s])"
    unfolding run(2) filter_filter using le by (intro filter_cong) auto
  then show ?case
    using run assms(2,3) reject_run_append [of "ts @ [s]" t r]
    by (auto simp: RuleActionReject_Error_def Let_def second_ns_def)
qed

text \<open>
  C9. Rejections turn into drops under flooding, as documented: the default method answers the last of a
  series of triggers with a drop exactly when more than fifty of them, itself included, fell into the last
  thirty seconds, and with a reset otherwise.
\<close>

theorem reject_flood_window:
  assumes "sorted (ts @ [t])" "reject_Method r = RuleActionRejectMethodDefault" "\<not> reject_NoDrop r"
    and "dropCounter r = []"
  shows "\<exists>answers r'. reject_run (ts @ [t]) r = Inr (answers, r') \<and>
    last answers =
      Some (if length (filter (\<lambda>s. t - s \<le> 30 * second_ns) (ts @ [t])) > 50 then RejectDrop else RejectReset)"
proof -
  obtain answers r' where run: "reject_run (ts @ [t]) r = Inr (answers, r')"
    "dropCounter r' = filter (in_window t) (ts @ [t])"
    using reject_run_counter [OF assms] by blast
  obtain answers1 r1 answer where step: "reject_run ts r = Inr (answers1, r1)"
    "RuleActionReject_Error t r1 = Inr (answer, r')" "answers = answers1 @ [answer]"
    using run(1) unfolding reject_run_append by (auto simp: bind_result_Inr_iff)
  have "reject_Method r1 = RuleActionRejectMethodDefault \<and> \<not> reject_NoDrop r1"
  proof (cases ts rule: rev_cases)
    case Nil
    then show ?thesis
      using step(1) assms(2,3) by simp
  next
    case (snoc us u)
    then show ?thesis
      using reject_run_counter [of us u r] assms step(1) by (auto simp: sorted_append)
  qed
  then have "answer = Some (if length (dropCounter r') > 50 then RejectDrop else RejectReset)"
    using step(2) by (auto simp: RuleActionReject_Error_def Let_def split: if_splits)
  then show ?thesis
    using run step(3) by simp
qed

lemma reject_flood_window_witness:
  "\<exists>answers r'. reject_run (replicate 50 0 @ [second_ns]) (new_reject \<lparr>rej_Method = RuleActionRejectMethodDefault, rej_NoDrop = False\<rparr>) =
     Inr (answers, r') \<and> last answers = Some RejectDrop"
proof -
  have "sorted (replicate 50 0 @ [second_ns])"
    by (simp add: sorted_append second_ns_def)
  from reject_flood_window [OF this, of "new_reject \<lparr>rej_Method = RuleActionRejectMethodDefault, rej_NoDrop = False\<rparr>"]
  show ?thesis
    by (simp add: new_reject_def second_ns_def filter_replicate)
qed

text \<open>
  A predefined response answers the request it is made for: it has the identifier and the questions of
  the request, the configured response code, and one record for each configured record, in the section it
  is configured for, with its data and TTL; a record is renamed to the question only when its name starts
  with an asterisk and the rest of it is a suffix of the name in the question.
\<close>

theorem predefined_response:
  assumes "msg_Question request = question # rest"
  shows "\<exists>response. RuleActionPredefined_Response r request = Inr response \<and>
    msg_Id response = msg_Id request \<and> msg_Question response = msg_Question request \<and>
    msg_Response response \<and> msg_Rcode response = predefined_Rcode r \<and>
    list_all2 (\<lambda>it out. rr_Data out = rr_Data it \<and> rr_Ttl out = rr_Ttl it \<and>
        (rr_Name out = rr_Name it \<or>
         rr_Name out = q_Name question \<and>
         (\<exists>suffix pre. rr_Name it = CHR ''*'' # suffix \<and> q_Name question = pre @ suffix)))
      (predefined_Answer r @ predefined_Ns r @ predefined_Extra r)
      (msg_Answer response @ msg_Ns response @ msg_Extra response)"
proof -
  have one: "list_all2 (\<lambda>it out. rr_Data out = rr_Data it \<and> rr_Ttl out = rr_Ttl it \<and>
        (rr_Name out = rr_Name it \<or>
         rr_Name out = q_Name question \<and>
         (\<exists>suffix pre. rr_Name it = CHR ''*'' # suffix \<and> q_Name question = pre @ suffix)))
      rs (rewriteRecords rs question)" for rs
    by (induction rs) (auto simp: rewriteRecords_def has_prefix_iff has_suffix_iff)
  show ?thesis
    using assms one by (simp add: RuleActionPredefined_Response_def list_all2_appendI)
qed

lemma predefined_response_witness:
  "\<exists>response. RuleActionPredefined_Response
     \<lparr>predefined_Rcode = 0, predefined_Answer = [\<lparr>rr_Name = ''*.example.org.'', rr_Rrtype = TypeA, rr_Class = ClassINET, rr_Ttl = 60, rr_Data = RD_A [1, 2, 3, 4]\<rparr>],
      predefined_Ns = [], predefined_Extra = []\<rparr>
     \<lparr>msg_Id = 7, msg_Response = False, msg_Authoritative = False, msg_RecursionDesired = True,
      msg_RecursionAvailable = False, msg_Rcode = 0,
      msg_Question = [\<lparr>q_Name = ''www.example.org.'', q_Qtype = 1, q_Qclass = 1\<rparr>], msg_Answer = [], msg_Ns = [], msg_Extra = []\<rparr> =
     Inr response \<and> msg_Id response = 7 \<and> length (msg_Answer response) = 1"
proof -
  let ?r = "\<lparr>predefined_Rcode = 0, predefined_Answer = [\<lparr>rr_Name = ''*.example.org.'', rr_Rrtype = TypeA, rr_Class = ClassINET, rr_Ttl = 60, rr_Data = RD_A [1, 2, 3, 4]\<rparr>],
      predefined_Ns = [], predefined_Extra = []\<rparr> :: RuleActionPredefined"
  let ?q = "\<lparr>q_Name = ''www.example.org.'', q_Qtype = 1, q_Qclass = 1\<rparr> :: question"
  let ?m = "\<lparr>msg_Id = 7, msg_Response = False, msg_Authoritative = False, msg_RecursionDesired = True,
      msg_RecursionAvailable = False, msg_Rcode = 0, msg_Question = [?q], msg_Answer = [], msg_Ns = [], msg_Extra = []\<rparr> :: dns_msg"
  have "msg_Question ?m = ?q # []"
    by simp
  from predefined_response [OF this, of ?r] show ?thesis
    by (auto simp: RuleActionPredefined_Response_def rewriteRecords_def)
qed

text \<open>
  The UDP timeout of a route or bypass action is not taken over into the action, whatever it is set
  to, although the documentation lists it among the route options of both; only the route options action
  keeps it.
\<close>

theorem route_action_drops_udp_timeout:
  "ra_Action act = RuleActionTypeRoute \<or> ra_Action act = RuleActionTypeBypass \<Longrightarrow>
   \<exists>outbound fields. NewRuleAction env act \<in> {Inr (Some (ActionRoute outbound fields)), Inr (Some (ActionBypass outbound fields))} \<and>
     ro_UDPTimeout fields = 0"
  by (auto simp: NewRuleAction_def route_fields_def action_type_defs)

lemma route_action_drops_udp_timeout_witness:
  "\<exists>fields. NewRuleAction \<lparr>ParseSocksaddrHostPort = (\<lambda>_ _. socksaddr_zero), dialer_New = (\<lambda>_. None)\<rparr>
     (RuleActionOptions_zero\<lparr>ra_Action := RuleActionTypeRoute,
        ra_RouteOptions := \<lparr>rta_Outbound = ''proxy'', rta_Raw = RawRouteOptionsActionOptions_zero\<lparr>rao_UDPTimeout := 60 * second_ns\<rparr>\<rparr>\<rparr>) =
     Inr (Some (ActionRoute ''proxy'' fields)) \<and> ro_UDPTimeout fields = 0"
  using route_action_drops_udp_timeout [of "RuleActionOptions_zero\<lparr>ra_Action := RuleActionTypeRoute,
        ra_RouteOptions := \<lparr>rta_Outbound = ''proxy'', rta_Raw = RawRouteOptionsActionOptions_zero\<lparr>rao_UDPTimeout := 60 * second_ns\<rparr>\<rparr>\<rparr>"
      "\<lparr>ParseSocksaddrHostPort = (\<lambda>_ _. socksaddr_zero), dialer_New = (\<lambda>_. None)\<rparr>"]
  by (auto simp: NewRuleAction_def action_type_defs)

end
