(* ===== verification/Rule_Route.thy ===== *)
theory Rule_Route
  imports Rule_Set Rule_Action
begin

text \<open>
  Route rules: their options (\<^verbatim>\<open>src/option/rule.go\<close>), their constructors
  (\<^verbatim>\<open>src/route/rule/rule_default.go\<close>, \<^verbatim>\<open>src/route/rule/rule_nested_action.go\<close>), and
  matching, starting and closing them (\<^verbatim>\<open>src/route/rule/rule_abstract.go\<close>).
\<close>

section \<open>Options\<close>

record DefaultRuleOptions =
  dr_Inbound :: "string slice"
  dr_IPVersion :: int
  dr_Network :: "string slice"
  dr_AuthUser :: "string slice"
  dr_Protocol :: "string slice"
  dr_Client :: "string slice"
  dr_Domain :: "string slice"
  dr_DomainSuffix :: "string slice"
  dr_DomainKeyword :: "string slice"
  dr_DomainRegex :: "string slice"
  dr_Geosite :: "string slice"
  dr_SourceGeoIP :: "string slice"
  dr_GeoIP :: "string slice"
  dr_SourceIPCIDR :: "string slice"
  dr_SourceIPIsPrivate :: bool
  dr_IPCIDR :: "string slice"
  dr_IPIsPrivate :: bool
  dr_SourcePort :: "u16 slice"
  dr_SourcePortRange :: "string slice"
  dr_Port :: "u16 slice"
  dr_PortRange :: "string slice"
  dr_ProcessName :: "string slice"
  dr_ProcessPath :: "string slice"
  dr_ProcessPathRegex :: "string slice"
  dr_PackageName :: "string slice"
  dr_PackageNameRegex :: "string slice"
  dr_User :: "string slice"
  dr_UserID :: "int slice"
  dr_ClashMode :: string
  dr_NetworkType :: "interface_type slice"
  dr_NetworkIsExpensive :: bool
  dr_NetworkIsConstrained :: bool
  dr_WIFISSID :: "string slice"
  dr_WIFIBSSID :: "string slice"
  dr_InterfaceAddress :: "(string \<times> prefix list) slice"
  dr_NetworkInterfaceAddress :: "(interface_type \<times> prefix list) slice"
  dr_DefaultInterfaceAddress :: "prefix slice"
  dr_SourceMACAddress :: "string slice"
  dr_SourceHostname :: "string slice"
  dr_PreferredBy :: "string slice"
  dr_RuleSet :: "string slice"
  dr_RuleSetIPCIDRMatchSource :: bool
  dr_Invert :: bool
  dr_Deprecated_RulesetIPCIDRMatchSource :: bool
  dr_RuleAction :: RuleActionOptions

definition DefaultRuleOptions_zero :: DefaultRuleOptions where
  "DefaultRuleOptions_zero = \<lparr>
     dr_Inbound = None, dr_IPVersion = 0, dr_Network = None, dr_AuthUser = None, dr_Protocol = None,
     dr_Client = None, dr_Domain = None, dr_DomainSuffix = None, dr_DomainKeyword = None,
     dr_DomainRegex = None, dr_Geosite = None, dr_SourceGeoIP = None, dr_GeoIP = None,
     dr_SourceIPCIDR = None, dr_SourceIPIsPrivate = False, dr_IPCIDR = None, dr_IPIsPrivate = False,
     dr_SourcePort = None, dr_SourcePortRange = None, dr_Port = None, dr_PortRange = None,
     dr_ProcessName = None, dr_ProcessPath = None, dr_ProcessPathRegex = None, dr_PackageName = None,
     dr_PackageNameRegex = None, dr_User = None, dr_UserID = None, dr_ClashMode = [],
     dr_NetworkType = None, dr_NetworkIsExpensive = False, dr_NetworkIsConstrained = False,
     dr_WIFISSID = None, dr_WIFIBSSID = None, dr_InterfaceAddress = None,
     dr_NetworkInterfaceAddress = None, dr_DefaultInterfaceAddress = None, dr_SourceMACAddress = None,
     dr_SourceHostname = None, dr_PreferredBy = None, dr_RuleSet = None,
     dr_RuleSetIPCIDRMatchSource = False, dr_Invert = False,
     dr_Deprecated_RulesetIPCIDRMatchSource = False, dr_RuleAction = RuleActionOptions_zero\<rparr>"

definition DefaultRule_IsValid :: "DefaultRuleOptions \<Rightarrow> bool" where
  "DefaultRule_IsValid r \<longleftrightarrow> r \<noteq> DefaultRuleOptions_zero\<lparr>dr_Invert := dr_Invert r\<rparr>"

datatype RuleOptions =
  RuleOptions
    (ru_Type: string)
    (ru_DefaultOptions: DefaultRuleOptions)
    (ru_Mode: string)
    (ru_Rules: "RuleOptions list")
    (ru_Invert: bool)
    (ru_RuleAction: RuleActionOptions)

fun Rule_IsValid :: "RuleOptions \<Rightarrow> bool result"
  and Rule_all_valid :: "RuleOptions list \<Rightarrow> bool result" where
  "Rule_IsValid (RuleOptions ty default_options mode rules inverted act) =
     (if ty = RuleTypeDefault then Inr (DefaultRule_IsValid default_options)
      else if ty = RuleTypeLogical then (if rules = [] then Inr False else Rule_all_valid rules)
      else Inl (Panic ''unknown rule type: ''))"
| "Rule_all_valid [] = Inr True"
| "Rule_all_valid (rule # rest) =
     bind_result (Rule_IsValid rule) (\<lambda>valid. if valid then Rule_all_valid rest else Inr False)"

definition LogicalRule_IsValid :: "RuleOptions list \<Rightarrow> bool result" where
  "LogicalRule_IsValid rules = (if rules = [] then Inr False else Rule_all_valid rules)"

section \<open>Actions of nested rules\<close>

definition ruleHasConfiguredAction :: "RuleOptions \<Rightarrow> bool" where
  "ruleHasConfiguredAction rule =
     (if ru_Type rule = [] \<or> ru_Type rule = RuleTypeDefault then
        dr_RuleAction (ru_DefaultOptions rule) \<noteq> RuleActionOptions_zero
      else if ru_Type rule = RuleTypeLogical then ru_RuleAction rule \<noteq> RuleActionOptions_zero
      else False)"

fun validateNoNestedRuleActions :: "bool \<Rightarrow> RuleOptions \<Rightarrow> unit result"
  and validate_sub_rules :: "RuleOptions list \<Rightarrow> unit result" where
  "validateNoNestedRuleActions nested (RuleOptions ty default_options mode rules inverted act) =
     (if nested \<and> ruleHasConfiguredAction (RuleOptions ty default_options mode rules inverted act)
      then Inl (Err ''rule action is not supported in nested rules'')
      else if ty \<noteq> RuleTypeLogical then Inr ()
      else validate_sub_rules rules)"
| "validate_sub_rules [] = Inr ()"
| "validate_sub_rules (subRule # rest) =
     bind_result (with_cause ''sub rule['' (validateNoNestedRuleActions True subRule)) (\<lambda>_.
     validate_sub_rules rest)"

section \<open>Constructors\<close>

definition geoip_removed :: err where
  "geoip_removed = Err ''geoip database is deprecated in sing-box 1.8.0 and removed in sing-box 1.12.0''"

definition geosite_removed :: err where
  "geosite_removed = Err ''geosite database is deprecated in sing-box 1.8.0 and removed in sing-box 1.12.0''"

definition ip_version_item :: "int \<Rightarrow> rule_item result" where
  "ip_version_item version =
     (if version = 4 \<or> version = 6 then Inr (NewIPVersionItem (version = 6)) else Inl (Err ''invalid ip version: ''))"

definition default_rule_steps :: "golib \<Rightarrow> DefaultRuleOptions \<Rightarrow> build_step list" where
  "default_rule_steps lib options = [
     (slice (dr_Inbound options) \<noteq> [], G_items, Inr (NewInboundRule (slice (dr_Inbound options)))),
     (dr_IPVersion options > 0, G_items, ip_version_item (dr_IPVersion options)),
     (slice (dr_Network options) \<noteq> [], G_items, Inr (NewNetworkItem (slice (dr_Network options)))),
     (slice (dr_AuthUser options) \<noteq> [], G_items, Inr (NewAuthUserItem (slice (dr_AuthUser options)))),
     (slice (dr_Protocol options) \<noteq> [], G_items, Inr (NewProtocolItem (slice (dr_Protocol options)))),
     (slice (dr_Client options) \<noteq> [], G_items, Inr (NewClientItem (slice (dr_Client options)))),
     (slice (dr_Domain options) \<noteq> [] \<or> slice (dr_DomainSuffix options) \<noteq> [], G_destinationAddressItems,
        NewDomainItem lib (slice (dr_Domain options)) (slice (dr_DomainSuffix options))),
     (slice (dr_DomainKeyword options) \<noteq> [], G_destinationAddressItems,
        Inr (NewDomainKeywordItem (slice (dr_DomainKeyword options)))),
     (slice (dr_DomainRegex options) \<noteq> [], G_destinationAddressItems,
        NewDomainRegexItem lib (slice (dr_DomainRegex options))),
     (slice (dr_Geosite options) \<noteq> [], G_items, Inl geosite_removed),
     (slice (dr_SourceGeoIP options) \<noteq> [], G_items, Inl geoip_removed),
     (slice (dr_GeoIP options) \<noteq> [], G_items, Inl geoip_removed),
     (slice (dr_SourceIPCIDR options) \<noteq> [], G_sourceAddressItems,
        with_cause ''source_ip_cidr'' (NewIPCIDRItem lib True (slice (dr_SourceIPCIDR options)))),
     (dr_SourceIPIsPrivate options, G_sourceAddressItems, Inr (NewIPIsPrivateItem True)),
     (slice (dr_IPCIDR options) \<noteq> [], G_destinationIPCIDRItems,
        with_cause ''ipcidr'' (NewIPCIDRItem lib False (slice (dr_IPCIDR options)))),
     (dr_IPIsPrivate options, G_destinationIPCIDRItems, Inr (NewIPIsPrivateItem False)),
     (slice (dr_SourcePort options) \<noteq> [], G_sourcePortItems,
        Inr (NewPortItem True (slice (dr_SourcePort options)))),
     (slice (dr_SourcePortRange options) \<noteq> [], G_sourcePortItems,
        with_cause ''source_port_range'' (NewPortRangeItem True (slice (dr_SourcePortRange options)))),
     (slice (dr_Port options) \<noteq> [], G_destinationPortItems, Inr (NewPortItem False (slice (dr_Port options)))),
     (slice (dr_PortRange options) \<noteq> [], G_destinationPortItems,
        with_cause ''port_range'' (NewPortRangeItem False (slice (dr_PortRange options)))),
     (slice (dr_ProcessName options) \<noteq> [], G_items, Inr (NewProcessItem (slice (dr_ProcessName options)))),
     (slice (dr_ProcessPath options) \<noteq> [], G_items, Inr (NewProcessPathItem (slice (dr_ProcessPath options)))),
     (slice (dr_ProcessPathRegex options) \<noteq> [], G_items,
        with_cause ''process_path_regex'' (NewProcessPathRegexItem lib (slice (dr_ProcessPathRegex options)))),
     (slice (dr_PackageName options) \<noteq> [], G_items, Inr (NewPackageNameItem (slice (dr_PackageName options)))),
     (slice (dr_PackageNameRegex options) \<noteq> [], G_items,
        with_cause ''package_name_regex'' (NewPackageNameRegexItem lib (slice (dr_PackageNameRegex options)))),
     (slice (dr_User options) \<noteq> [], G_items, Inr (NewUserItem (slice (dr_User options)))),
     (slice (dr_UserID options) \<noteq> [], G_items, Inr (NewUserIDItem (slice (dr_UserID options)))),
     (dr_ClashMode options \<noteq> [], G_items, Inr (NewClashModeItem (dr_ClashMode options))),
     (slice (dr_NetworkType options) \<noteq> [], G_items, Inr (NewNetworkTypeItem (slice (dr_NetworkType options)))),
     (dr_NetworkIsExpensive options, G_items, Inr NewNetworkIsExpensiveItem),
     (dr_NetworkIsConstrained options, G_items, Inr NewNetworkIsConstrainedItem),
     (slice (dr_WIFISSID options) \<noteq> [], G_items, Inr (NewWIFISSIDItem (slice (dr_WIFISSID options)))),
     (slice (dr_WIFIBSSID options) \<noteq> [], G_items, Inr (NewWIFIBSSIDItem (slice (dr_WIFIBSSID options)))),
     (slice (dr_InterfaceAddress options) \<noteq> [], G_items,
        Inr (NewInterfaceAddressItem (slice (dr_InterfaceAddress options)))),
     (slice (dr_NetworkInterfaceAddress options) \<noteq> [], G_items,
        Inr (NewNetworkInterfaceAddressItem (slice (dr_NetworkInterfaceAddress options)))),
     (slice (dr_DefaultInterfaceAddress options) \<noteq> [], G_items,
        Inr (NewDefaultInterfaceAddressItem (slice (dr_DefaultInterfaceAddress options)))),
     (slice (dr_SourceMACAddress options) \<noteq> [], G_items,
        Inr (NewSourceMACAddressItem lib (slice (dr_SourceMACAddress options)))),
     (slice (dr_SourceHostname options) \<noteq> [], G_items,
        Inr (NewSourceHostnameItem (slice (dr_SourceHostname options)))),
     (slice (dr_PreferredBy options) \<noteq> [], G_items, Inr (NewPreferredByItem (slice (dr_PreferredBy options))))]"

type_synonym default_rule = "(RuleSetItem, rule_action) abstractDefaultRule"

definition NewDefaultRule :: "golib \<Rightarrow> action_env \<Rightarrow> DefaultRuleOptions \<Rightarrow> default_rule result" where
  "NewDefaultRule lib aenv options =
     bind_result (with_cause ''action'' (NewRuleAction aenv (dr_RuleAction options))) (\<lambda>act.
     bind_result (build_items (default_rule_steps lib options) (new_rule (dr_Invert options) act)) (\<lambda>rule.
       if slice (dr_RuleSet options) \<noteq> [] then
         (if dr_Deprecated_RulesetIPCIDRMatchSource options then
            Inl (Err ''rule_set_ipcidr_match_source is deprecated in sing-box 1.10.0 and removed in sing-box 1.11.0'')
          else Inr (append_set_item
            (NewRuleSetItem (slice (dr_RuleSet options)) (dr_RuleSetIPCIDRMatchSource options) False) rule))
       else Inr rule))"

datatype route_rule =
    DefaultRule default_rule
  | LogicalRule string "route_rule list" bool "rule_action option"

definition missing_outbound :: "bool \<Rightarrow> RuleActionOptions \<Rightarrow> bool" where
  "missing_outbound checkOutbound act \<longleftrightarrow>
     (ra_Action act = [] \<or> ra_Action act = RuleActionTypeRoute) \<and>
     rta_Outbound (ra_RouteOptions act) = [] \<and> checkOutbound"

fun NewRule :: "golib \<Rightarrow> action_env \<Rightarrow> bool \<Rightarrow> RuleOptions \<Rightarrow> route_rule result"
  and NewSubRules :: "golib \<Rightarrow> action_env \<Rightarrow> RuleOptions list \<Rightarrow> route_rule list result" where
  "NewRule lib aenv checkOutbound (RuleOptions ty default_options mode rules inverted act) =
     (if ty = [] \<or> ty = RuleTypeDefault then
        (if \<not> DefaultRule_IsValid default_options then Inl (Err ''missing conditions'')
         else if missing_outbound checkOutbound (dr_RuleAction default_options) then Inl (Err ''missing outbound field'')
         else bind_result (NewDefaultRule lib aenv default_options) (\<lambda>r. Inr (DefaultRule r)))
      else if ty = RuleTypeLogical then
        bind_result (LogicalRule_IsValid rules) (\<lambda>valid.
          if \<not> valid then Inl (Err ''missing conditions'')
          else if missing_outbound checkOutbound act then Inl (Err ''missing outbound field'')
          else
            bind_result (with_cause ''action'' (NewRuleAction aenv act)) (\<lambda>a.
              if mode = LogicalTypeAnd \<or> mode = LogicalTypeOr then
                bind_result (NewSubRules lib aenv rules) (\<lambda>rs. Inr (LogicalRule mode rs inverted a))
              else Inl (Err ''unknown logical mode: '')))
      else Inl (Err ''unknown rule type: ''))"
| "NewSubRules lib aenv [] = Inr []"
| "NewSubRules lib aenv (subOptions # rest) =
     bind_result (with_cause ''sub rule['' (validateNoNestedRuleActions True subOptions)) (\<lambda>_.
     bind_result (with_cause ''sub rule['' (NewRule lib aenv False subOptions)) (\<lambda>subRule.
     bind_result (NewSubRules lib aenv rest) (\<lambda>rules. Inr (subRule # rules))))"

section \<open>Matching\<close>

fun rule_matchStatesWithBase :: "golib \<Rightarrow> netenv \<Rightarrow> rule_set_heap \<Rightarrow> route_rule \<Rightarrow> rule_matcher" where
  "rule_matchStatesWithBase lib env heap (DefaultRule r) metadata base =
     fst (default_matchStatesWithBase lib env (RuleSetItem_matchStatesWithBase lib env heap) r metadata base)"
| "rule_matchStatesWithBase lib env heap (LogicalRule mode rules inverted act) metadata base =
     logical_matchStatesWithBase mode inverted (map (rule_matchStatesWithBase lib env heap) rules) metadata base"

text \<open>A default rule marks the metadata it is given; a logical rule works on copies.\<close>

fun rule_Match :: "golib \<Rightarrow> netenv \<Rightarrow> rule_set_heap \<Rightarrow> route_rule \<Rightarrow> InboundContext \<Rightarrow> bool \<times> InboundContext" where
  "rule_Match lib env heap (DefaultRule r) metadata =
     default_Match lib env (RuleSetItem_matchStatesWithBase lib env heap) r metadata"
| "rule_Match lib env heap (LogicalRule mode rules inverted act) metadata =
     (\<not> isEmpty (rule_matchStatesWithBase lib env heap (LogicalRule mode rules inverted act) metadata 0), metadata)"

fun rule_Action :: "route_rule \<Rightarrow> rule_action option" where
  "rule_Action (DefaultRule r) = action r"
| "rule_Action (LogicalRule mode rules inverted act) = act"

section \<open>Start and Close\<close>

text \<open>
  The groups of a rule hold pointers to the items in the list of all items, so starting an item is
  visible in its group; here the started items are put back into the groups. A failed start gives the
  error alone: the router that starts its rules gives up then.
\<close>

type_synonym preferred_manager = "string \<Rightarrow> preferred_routes option option"

definition start_item :: "preferred_manager \<Rightarrow> rule_item \<Rightarrow> rule_item result" where
  "start_item mgr i = (case item_Start mgr i of (Some e, _) \<Rightarrow> Inl e | (None, i') \<Rightarrow> Inr i')"

fun start_items ::
    "preferred_manager \<Rightarrow> (string \<rightharpoonup> rule_set_ref) \<Rightarrow> RuleSetItem any_item list \<Rightarrow> rule_set_heap \<Rightarrow>
     (RuleSetItem any_item list \<times> rule_set_heap) result" where
  "start_items mgr router [] heap = Inr ([], heap)"
| "start_items mgr router (PlainItem i # rest) heap =
     bind_result (start_item mgr i) (\<lambda>i'.
     bind_result (start_items mgr router rest heap) (\<lambda>(rest', heap'). Inr (PlainItem i' # rest', heap')))"
| "start_items mgr router (SetItem s # rest) heap =
     bind_result (RuleSetItem_Start router s heap) (\<lambda>(e, s', heap1).
       case e of
         Some x \<Rightarrow> Inl x
       | None \<Rightarrow>
           bind_result (start_items mgr router rest heap1) (\<lambda>(rest', heap'). Inr (SetItem s' # rest', heap')))"

definition started :: "preferred_manager \<Rightarrow> rule_item list \<Rightarrow> rule_item list" where
  "started mgr = map (\<lambda>i. snd (item_Start mgr i))"

definition set_item_of :: "RuleSetItem any_item list \<Rightarrow> RuleSetItem option" where
  "set_item_of is = (case filter (\<lambda>i. case i of SetItem _ \<Rightarrow> True | PlainItem _ \<Rightarrow> False) is of
       SetItem s # _ \<Rightarrow> Some s | _ \<Rightarrow> None)"

definition default_Start ::
    "preferred_manager \<Rightarrow> (string \<rightharpoonup> rule_set_ref) \<Rightarrow> (RuleSetItem, 'act) abstractDefaultRule \<Rightarrow> rule_set_heap \<Rightarrow>
     ((RuleSetItem, 'act) abstractDefaultRule \<times> rule_set_heap) result" where
  "default_Start mgr router r heap =
     bind_result (start_items mgr router (allItems r) heap) (\<lambda>(all', heap').
       Inr (r\<lparr>items := started mgr (items r),
              sourceAddressItems := started mgr (sourceAddressItems r),
              sourcePortItems := started mgr (sourcePortItems r),
              destinationAddressItems := started mgr (destinationAddressItems r),
              destinationIPCIDRItems := started mgr (destinationIPCIDRItems r),
              destinationPortItems := started mgr (destinationPortItems r),
              allItems := all',
              ruleSetItem := set_item_of all'\<rparr>, heap'))"

fun rule_Start ::
    "preferred_manager \<Rightarrow> (string \<rightharpoonup> rule_set_ref) \<Rightarrow> route_rule \<Rightarrow> rule_set_heap \<Rightarrow> (route_rule \<times> rule_set_heap) result"
  and rules_Start ::
    "preferred_manager \<Rightarrow> (string \<rightharpoonup> rule_set_ref) \<Rightarrow> route_rule list \<Rightarrow> rule_set_heap \<Rightarrow>
     (route_rule list \<times> rule_set_heap) result" where
  "rule_Start mgr router (DefaultRule r) heap =
     bind_result (default_Start mgr router r heap) (\<lambda>(r', heap'). Inr (DefaultRule r', heap'))"
| "rule_Start mgr router (LogicalRule mode rules inverted act) heap =
     bind_result (rules_Start mgr router rules heap) (\<lambda>(rules', heap'). Inr (LogicalRule mode rules' inverted act, heap'))"
| "rules_Start mgr router [] heap = Inr ([], heap)"
| "rules_Start mgr router (rule # rest) heap =
     bind_result (rule_Start mgr router rule heap) (\<lambda>(rule', heap1).
     bind_result (rules_Start mgr router rest heap1) (\<lambda>(rest', heap'). Inr (rule' # rest', heap')))"

text \<open>Closing a rule closes its rule set item, the only item with a \<^verbatim>\<open>Close\<close> method.\<close>

fun close_items ::
    "RuleSetItem any_item list \<Rightarrow> rule_set_heap \<Rightarrow> (RuleSetItem any_item list \<times> rule_set_heap) result" where
  "close_items [] heap = Inr ([], heap)"
| "close_items (PlainItem i # rest) heap =
     bind_result (close_items rest heap) (\<lambda>(rest', heap'). Inr (PlainItem i # rest', heap'))"
| "close_items (SetItem s # rest) heap =
     bind_result (RuleSetItem_Close s heap) (\<lambda>(s', heap1).
     bind_result (close_items rest heap1) (\<lambda>(rest', heap'). Inr (SetItem s' # rest', heap')))"

definition default_Close ::
    "(RuleSetItem, 'act) abstractDefaultRule \<Rightarrow> rule_set_heap \<Rightarrow>
     ((RuleSetItem, 'act) abstractDefaultRule \<times> rule_set_heap) result" where
  "default_Close r heap =
     bind_result (close_items (allItems r) heap) (\<lambda>(all', heap').
       Inr (r\<lparr>allItems := all', ruleSetItem := set_item_of all'\<rparr>, heap'))"

fun rule_Close :: "route_rule \<Rightarrow> rule_set_heap \<Rightarrow> (route_rule \<times> rule_set_heap) result"
  and rules_Close :: "route_rule list \<Rightarrow> rule_set_heap \<Rightarrow> (route_rule list \<times> rule_set_heap) result" where
  "rule_Close (DefaultRule r) heap =
     bind_result (default_Close r heap) (\<lambda>(r', heap'). Inr (DefaultRule r', heap'))"
| "rule_Close (LogicalRule mode rules inverted act) heap =
     bind_result (rules_Close rules heap) (\<lambda>(rules', heap'). Inr (LogicalRule mode rules' inverted act, heap'))"
| "rules_Close [] heap = Inr ([], heap)"
| "rules_Close (rule # rest) heap =
     bind_result (rule_Close rule heap) (\<lambda>(rule', heap1).
     bind_result (rules_Close rest heap1) (\<lambda>(rest', heap'). Inr (rule' # rest', heap')))"

section \<open>Route rules are state matchers\<close>

lemma rule_state_matcher: "state_matcher (rule_matchStatesWithBase lib env heap rule)"
proof (induction rule)
  case (DefaultRule r)
  have "state_matcher (\<lambda>metadata b. fst (default_matchStatesWithBase lib env
      (RuleSetItem_matchStatesWithBase lib env heap) r metadata b))"
    by (rule default_state_matcher) (rule rsi.state_matcher_axioms)
  then show ?case
    by simp
next
  case (LogicalRule mode rules inverted act)
  then show ?case
    using logical_state_matcher [of "map (rule_matchStatesWithBase lib env heap) rules" mode inverted] by simp
qed

interpretation rtm: state_matcher "rule_matchStatesWithBase lib env heap rule" for lib env heap rule
  by (rule rule_state_matcher)

section \<open>Built rules are well formed\<close>

lemma default_rule_steps_sorted: "\<forall>s\<in>set (default_rule_steps lib options). step_sorted s"
  by (simp add: default_rule_steps_def step_sorted_def build_simps ip_version_item_def)

fun wf_route_rule :: "route_rule \<Rightarrow> bool" where
  "wf_route_rule (DefaultRule r) \<longleftrightarrow> wf_rule r"
| "wf_route_rule (LogicalRule mode rules inverted act) \<longleftrightarrow>
     (mode = LogicalTypeAnd \<or> mode = LogicalTypeOr) \<and> rules \<noteq> [] \<and> list_all wf_route_rule rules"

lemma NewDefaultRule_cases:
  assumes "NewDefaultRule lib aenv options = Inr r"
  obtains act rule where "NewRuleAction aenv (dr_RuleAction options) = Inr act"
    and "build_items (default_rule_steps lib options) (new_rule (dr_Invert options) act) = Inr rule"
    and "r = rule \<or> r = append_set_item
      (NewRuleSetItem (slice (dr_RuleSet options)) (dr_RuleSetIPCIDRMatchSource options) False) rule"
proof -
  obtain act rule where "NewRuleAction aenv (dr_RuleAction options) = Inr act"
    and "build_items (default_rule_steps lib options) (new_rule (dr_Invert options) act) = Inr rule"
    and r: "(if slice (dr_RuleSet options) \<noteq> [] then
         (if dr_Deprecated_RulesetIPCIDRMatchSource options then
            Inl (Err ''rule_set_ipcidr_match_source is deprecated in sing-box 1.10.0 and removed in sing-box 1.11.0'')
          else Inr (append_set_item
            (NewRuleSetItem (slice (dr_RuleSet options)) (dr_RuleSetIPCIDRMatchSource options) False) rule))
       else Inr rule) = Inr r"
    using assms unfolding NewDefaultRule_def bind_result_Inr_iff with_cause_Inr_iff by blast
  moreover have "r = rule \<or> r = append_set_item
      (NewRuleSetItem (slice (dr_RuleSet options)) (dr_RuleSetIPCIDRMatchSource options) False) rule"
    using r by (simp split: if_splits)
  ultimately show thesis
    using that by blast
qed

lemma NewDefaultRule_wf:
  assumes "NewDefaultRule lib aenv options = Inr r"
  shows "wf_rule r"
  using assms
proof (rule NewDefaultRule_cases)
  fix act rule
  assume rule: "build_items (default_rule_steps lib options) (new_rule (dr_Invert options) act) = Inr rule"
    and r: "r = rule \<or> r = append_set_item
      (NewRuleSetItem (slice (dr_RuleSet options)) (dr_RuleSetIPCIDRMatchSource options) False) rule"
  have "wf_rule rule" "ruleSetItem rule = None"
    using build_items_wf [OF rule wf_new_rule default_rule_steps_sorted] build_items_keeps [OF rule] by simp_all
  then show ?thesis
    using r wf_append_set_item by metis
qed

lemma NewSubRules_length: "NewSubRules lib aenv os = Inr rs \<Longrightarrow> length rs = length os"
  by (induction os arbitrary: rs) (auto simp: bind_result_Inr_iff)

text \<open>The rules inside a logical rule have no action.\<close>

fun no_nested_action :: "route_rule \<Rightarrow> bool" where
  "no_nested_action (DefaultRule r) \<longleftrightarrow> True"
| "no_nested_action (LogicalRule mode rules inverted act) \<longleftrightarrow>
     list_all (\<lambda>rule. rule_Action rule = None \<and> no_nested_action rule) rules"

lemma NewRuleAction_zero: "NewRuleAction aenv RuleActionOptions_zero = Inr None"
  by (simp add: NewRuleAction_def RuleActionOptions_zero_def)

lemma NewDefaultRule_action:
  assumes "NewDefaultRule lib aenv options = Inr r"
  shows "NewRuleAction aenv (dr_RuleAction options) = Inr (action r)"
  using assms
proof (rule NewDefaultRule_cases)
  fix act rule
  assume act: "NewRuleAction aenv (dr_RuleAction options) = Inr act"
    and rule: "build_items (default_rule_steps lib options) (new_rule (dr_Invert options) act) = Inr rule"
    and r: "r = rule \<or> r = append_set_item
      (NewRuleSetItem (slice (dr_RuleSet options)) (dr_RuleSetIPCIDRMatchSource options) False) rule"
  have "action rule = act"
    using build_items_keeps [OF rule] by simp
  then show ?thesis
    using r act by (elim disjE) (simp_all add: append_set_item_def)
qed

lemma NewRule_nested_action:
  assumes "validateNoNestedRuleActions True options = Inr ()" "NewRule lib aenv False options = Inr rule"
  shows "rule_Action rule = None"
proof (cases options)
  case (RuleOptions ty default_options mode rules inverted act)
  then have "\<not> ruleHasConfiguredAction options"
    using assms(1) by (auto split: if_splits)
  then show ?thesis
    using assms(2) RuleOptions NewDefaultRule_action NewRuleAction_zero [of aenv]
    by (fastforce simp: ruleHasConfiguredAction_def bind_result_Inr_iff split: if_splits)
qed

lemma NewRule_wf_aux:
  "NewRule lib aenv check options = Inr rule \<Longrightarrow> wf_route_rule rule \<and> no_nested_action rule"
  "NewSubRules lib aenv os = Inr rules \<Longrightarrow>
     list_all (\<lambda>rule. wf_route_rule rule \<and> rule_Action rule = None \<and> no_nested_action rule) rules"
proof (induction lib aenv check options and lib aenv os arbitrary: rule and rules
    rule: NewRule_NewSubRules.induct)
  case (1 lib aenv check ty default_options mode rules inverted act)
  show ?case
  proof (cases "ty = [] \<or> ty = RuleTypeDefault")
    case True
    then show ?thesis
      using 1(2) NewDefaultRule_wf by (auto simp: bind_result_Inr_iff split: if_splits)
  next
    case False
    then obtain rs a where rs: "NewSubRules lib aenv rules = Inr rs" "rules \<noteq> []" "ty = RuleTypeLogical"
      "mode = LogicalTypeAnd \<or> mode = LogicalTypeOr" "rule = LogicalRule mode rs inverted a"
      and more: "LogicalRule_IsValid rules = Inr True" "\<not> missing_outbound check act"
      using 1(2) by (auto simp: bind_result_Inr_iff LogicalRule_IsValid_def split: if_splits)
    have "list_all (\<lambda>rule. wf_route_rule rule \<and> rule_Action rule = None \<and> no_nested_action rule) rs"
      using 1(1) [OF False rs(3) _ _ rs(4), of True] more rs(1) by simp
    then show ?thesis
      using rs NewSubRules_length [OF rs(1)] by (auto simp: list_all_iff)
  qed
next
  case (3 lib aenv subOptions rest)
  then show ?case
    by (auto simp: bind_result_Inr_iff dest: NewRule_nested_action)
qed simp

section \<open>References held by rules\<close>

definition set_items :: "RuleSetItem any_item list \<Rightarrow> RuleSetItem list" where
  "set_items is = concat (map (\<lambda>i. case i of SetItem s \<Rightarrow> [s] | PlainItem _ \<Rightarrow> []) is)"

lemma set_items_simps [simp]:
  "set_items [] = []" "set_items (SetItem s # is) = s # set_items is" "set_items (PlainItem i # is) = set_items is"
  by (simp_all add: set_items_def)

fun rule_set_items :: "route_rule \<Rightarrow> RuleSetItem list" where
  "rule_set_items (DefaultRule r) = set_items (allItems r)"
| "rule_set_items (LogicalRule mode rules inverted act) = concat (map rule_set_items rules)"

lemma start_items_balanced:
  "start_items mgr router is heap = Inr (is', heap') \<Longrightarrow> balanced (pre @ set_items is @ post) heap \<Longrightarrow>
   balanced (pre @ set_items is' @ post) heap'"
proof (induction mgr router "is" heap arbitrary: pre is' heap' rule: start_items.induct)
  case (2 mgr router i rest heap)
  then show ?case
    by (auto simp: bind_result_Inr_iff)
next
  case (3 mgr router s rest heap)
  obtain s' heap1 rest' where *: "RuleSetItem_Start router s heap = Inr (None, s', heap1)"
    "start_items mgr router rest heap1 = Inr (rest', heap')" "is' = SetItem s' # rest'"
    using "3.prems"(1) by (auto simp: bind_result_Inr_iff split: option.splits)
  have "balanced ((pre @ [s']) @ set_items rest @ post) heap1"
    using Start_balanced [of pre s "set_items rest @ post" heap router] "3.prems"(2) *(1) by simp
  from "3.IH" [OF refl *(2) this] show ?case
    using *(3) by simp
qed simp

lemma close_items_balanced:
  "balanced (pre @ set_items is @ post) heap \<Longrightarrow>
   \<exists>is' heap'. close_items is heap = Inr (is', heap') \<and> balanced (pre @ set_items is' @ post) heap' \<and>
     (\<forall>s\<in>set (set_items is'). setList s = [])"
proof (induction "is" heap arbitrary: pre rule: close_items.induct)
  case (2 i rest heap)
  then obtain is' heap' where "close_items rest heap = Inr (is', heap')" "balanced (pre @ set_items is' @ post) heap'"
    "\<forall>s\<in>set (set_items is'). setList s = []"
    by fastforce
  then show ?case
    by (intro exI [of _ "PlainItem i # is'"] exI [of _ heap']) simp
next
  case (3 s rest heap)
  obtain heap1 where *: "RuleSetItem_Close s heap = Inr (s\<lparr>setList := []\<rparr>, heap1)"
    "balanced (pre @ s\<lparr>setList := []\<rparr> # set_items rest @ post) heap1"
    using Close_balanced [of pre s "set_items rest @ post" heap] "3.prems" by auto
  have "balanced ((pre @ [s\<lparr>setList := []\<rparr>]) @ set_items rest @ post) heap1"
    using *(2) by simp
  from "3.IH" [OF this] obtain is' heap' where "close_items rest heap1 = Inr (is', heap')"
    "balanced ((pre @ [s\<lparr>setList := []\<rparr>]) @ set_items is' @ post) heap'" "\<forall>s\<in>set (set_items is'). setList s = []"
    by blast
  then show ?case
    using *(1) by auto
qed auto

lemma default_Close_balanced:
  assumes "balanced (pre @ set_items (allItems r) @ post) heap"
  shows "\<exists>r' heap'. default_Close r heap = Inr (r', heap') \<and> balanced (pre @ set_items (allItems r') @ post) heap' \<and>
     (\<forall>s\<in>set (set_items (allItems r')). setList s = [])"
  using close_items_balanced [OF assms] by (auto simp: default_Close_def)

lemma rule_Close_balanced:
  "balanced (pre @ rule_set_items rule @ post) heap \<Longrightarrow>
   \<exists>rule' heap'. rule_Close rule heap = Inr (rule', heap') \<and> balanced (pre @ rule_set_items rule' @ post) heap' \<and>
     (\<forall>s\<in>set (rule_set_items rule'). setList s = [])"
  "balanced (pre @ concat (map rule_set_items rules) @ post) heap \<Longrightarrow>
   \<exists>rules' heap'. rules_Close rules heap = Inr (rules', heap') \<and>
     balanced (pre @ concat (map rule_set_items rules') @ post) heap' \<and>
     (\<forall>s\<in>set (concat (map rule_set_items rules')). setList s = [])"
proof (induction rule heap and rules heap arbitrary: pre post and pre post rule: rule_Close_rules_Close.induct)
  case (1 r heap)
  then show ?case
    using default_Close_balanced [of pre r post heap] by auto
next
  case (2 mode rules inverted act heap)
  then obtain rules' heap' where "rules_Close rules heap = Inr (rules', heap')"
    "balanced (pre @ concat (map rule_set_items rules') @ post) heap'"
    "\<forall>s\<in>set (concat (map rule_set_items rules')). setList s = []"
    by fastforce
  then show ?case
    by (intro exI [of _ "LogicalRule mode rules' inverted act"] exI [of _ heap']) simp
next
  case (4 rule rest heap)
  from "4.prems" have "balanced (pre @ rule_set_items rule @ concat (map rule_set_items rest) @ post) heap"
    by simp
  from "4.IH"(1) [OF this] obtain rule' heap1 where *: "rule_Close rule heap = Inr (rule', heap1)"
    "balanced (pre @ rule_set_items rule' @ concat (map rule_set_items rest) @ post) heap1"
    "\<forall>s\<in>set (rule_set_items rule'). setList s = []"
    by blast
  from *(2) have "balanced ((pre @ rule_set_items rule') @ concat (map rule_set_items rest) @ post) heap1"
    by simp
  from "4.IH"(2) [OF this] obtain rules' heap' where "rules_Close rest heap1 = Inr (rules', heap')"
    "balanced ((pre @ rule_set_items rule') @ concat (map rule_set_items rules') @ post) heap'"
    "\<forall>s\<in>set (concat (map rule_set_items rules')). setList s = []"
    by blast
  then show ?case
    using *(1,3) by auto
qed auto

lemma default_Start_balanced:
  assumes "default_Start mgr router r heap = Inr (r', heap')" "balanced (pre @ set_items (allItems r) @ post) heap"
  shows "balanced (pre @ set_items (allItems r') @ post) heap'"
  using assms start_items_balanced [of mgr router "allItems r" heap] by (auto simp: default_Start_def bind_result_Inr_iff)

lemma rule_Start_balanced:
  "rule_Start mgr router rule heap = Inr (rule', heap') \<Longrightarrow> balanced (pre @ rule_set_items rule @ post) heap \<Longrightarrow>
   balanced (pre @ rule_set_items rule' @ post) heap'"
  "rules_Start mgr router rules heap = Inr (rules', heap') \<Longrightarrow>
   balanced (pre @ concat (map rule_set_items rules) @ post) heap \<Longrightarrow>
   balanced (pre @ concat (map rule_set_items rules') @ post) heap'"
proof (induction mgr router rule heap and mgr router rules heap arbitrary: pre post rule' heap' and pre post rules' heap'
    rule: rule_Start_rules_Start.induct)
  case (1 mgr router r heap)
  then show ?case
    using default_Start_balanced [of mgr router r heap] by (auto simp: bind_result_Inr_iff)
next
  case (2 mgr router mode rules inverted act heap)
  then show ?case
    by (auto simp: bind_result_Inr_iff)
next
  case (4 mgr router rule rest heap)
  obtain rule1 heap1 rest' where *: "rule_Start mgr router rule heap = Inr (rule1, heap1)"
    "rules_Start mgr router rest heap1 = Inr (rest', heap')" "rules' = rule1 # rest'"
    using "4.prems"(1) by (auto simp: bind_result_Inr_iff)
  have "balanced (pre @ rule_set_items rule1 @ concat (map rule_set_items rest) @ post) heap1"
    using "4.IH"(1) [OF *(1), of pre "concat (map rule_set_items rest) @ post"] "4.prems"(2) by simp
  then show ?case
    using "4.IH"(2) [OF *(2), of "pre @ rule_set_items rule1" post] *(3) by simp
qed simp

section \<open>Properties\<close>

text \<open>
  C3. Every route rule the constructor accepts is well formed at every depth, and only the outermost rule
  has an action: the items of each default rule are complete and sorted into the groups of their kinds,
  logical rules have a known mode and at least one rule, and no rule nested in a logical rule carries an
  action.
\<close>

theorem NewRule_well_formed:
  "NewRule lib aenv checkOutbound options = Inr rule \<Longrightarrow> wf_route_rule rule \<and> no_nested_action rule"
  by (rule NewRule_wf_aux(1))

definition sample_aenv :: action_env where
  "sample_aenv = \<lparr>ParseSocksaddrHostPort = (\<lambda>host port. socksaddr_zero\<lparr>sa_Fqdn := host, sa_Port := port\<rparr>),
     dialer_New = (\<lambda>_. None)\<rparr>"

definition sample_route_action :: RuleActionOptions where
  "sample_route_action = RuleActionOptions_zero\<lparr>ra_Action := RuleActionTypeRoute,
     ra_RouteOptions := \<lparr>rta_Outbound = ''proxy'', rta_Raw = RawRouteOptionsActionOptions_zero\<rparr>\<rparr>"

definition sample_rule_options :: RuleOptions where
  "sample_rule_options = RuleOptions RuleTypeLogical DefaultRuleOptions_zero LogicalTypeAnd
     [RuleOptions RuleTypeDefault (DefaultRuleOptions_zero\<lparr>dr_Network := Some [''tcp'']\<rparr>) [] [] False RuleActionOptions_zero,
      RuleOptions RuleTypeDefault
        (DefaultRuleOptions_zero\<lparr>dr_Port := Some [443], dr_RuleSet := Some [''set'']\<rparr>) [] [] False RuleActionOptions_zero]
     False sample_route_action"

lemma sample_rule_options_build: "\<not> isl (NewRule sample_lib sample_aenv True sample_rule_options)"
  by (simp add: sample_rule_options_def sample_route_action_def RuleTypeLogical_def RuleTypeDefault_def
      LogicalRule_IsValid_def DefaultRule_IsValid_def DefaultRuleOptions_zero_def missing_outbound_def
      NewRuleAction_def RuleActionOptions_zero_def action_type_defs ruleHasConfiguredAction_def
      NewDefaultRule_def default_rule_steps_def)

lemma NewRule_well_formed_witness:
  "\<exists>rule. NewRule sample_lib sample_aenv True sample_rule_options = Inr rule \<and> wf_route_rule rule \<and> no_nested_action rule"
proof -
  obtain rule where "NewRule sample_lib sample_aenv True sample_rule_options = Inr rule"
    using sample_rule_options_build by (cases "NewRule sample_lib sample_aenv True sample_rule_options") simp_all
  with NewRule_well_formed [OF this] show ?thesis
    by blast
qed

text \<open>
  A logical route rule matches when all of its rules match (mode and), or when one of them does (any
  other mode); an inverted one when that is not so. This holds at every depth, also when the nested rules
  refer to rule sets.
\<close>

theorem route_logical_formula:
  "fst (rule_Match lib env heap (LogicalRule mode rules inverted act) metadata) \<longleftrightarrow>
     inverted \<noteq>
       (if mode = LogicalTypeAnd
        then list_all (\<lambda>rule. fst (rule_Match lib env heap rule (ResetRuleCache metadata))) rules
        else list_ex (\<lambda>rule. fst (rule_Match lib env heap rule (ResetRuleCache metadata))) rules)"
proof -
  have nested: "fst (rule_Match lib env heap rule m) \<longleftrightarrow> \<not> isEmpty (rule_matchStatesWithBase lib env heap rule m 0)"
    for rule m
    by (cases rule) (simp_all add: default_Match_def default_matchStates_def split_beta)
  show ?thesis
    unfolding nested
    using logical_nonempty_iff [of 0 mode inverted "map (rule_matchStatesWithBase lib env heap) rules" metadata]
    by (simp add: Let_def list_all_iff list_ex_iff)
qed

text \<open>
  C4. Rules give back what they take: after the rules of the router were started and closed, in whatever
  way they refer to the rule sets, no rule set is referred to any more, and closing does not panic.
\<close>

theorem rules_Start_Close_releases:
  assumes "\<forall>ref. rs_refs (heap ref) = 0" "\<forall>rule\<in>set rules. \<forall>s\<in>set (rule_set_items rule). setList s = []"
    and "rules_Start mgr router rules heap = Inr (rules1, heap1)"
  shows "\<exists>rules2 heap2. rules_Close rules1 heap1 = Inr (rules2, heap2) \<and> (\<forall>ref. rs_refs (heap2 ref) = 0)"
proof -
  have "ref_count is ref = 0" if "\<forall>s\<in>set is. setList s = []" for "is" ref
    using that by (induction "is") simp_all
  note empty = this
  have "balanced ([] @ concat (map rule_set_items rules) @ []) heap"
    using assms(1,2) empty [of "concat (map rule_set_items rules)"] by (auto simp: balanced_def)
  from rule_Start_balanced(2) [OF assms(3) this]
  obtain rules2 heap2 where "rules_Close rules1 heap1 = Inr (rules2, heap2)"
    "balanced ([] @ concat (map rule_set_items rules2) @ []) heap2"
    "\<forall>s\<in>set (concat (map rule_set_items rules2)). setList s = []"
    using rule_Close_balanced(2) [of "[]" rules1 "[]" heap1] by blast
  then show ?thesis
    using empty [of "concat (map rule_set_items rules2)"] by (auto simp: balanced_def)
qed

definition sample_referring_rule :: route_rule where
  "sample_referring_rule =
     DefaultRule (append_set_item (NewRuleSetItem [''set'', ''set''] False False) (new_rule False None))"

lemma rules_Start_Close_releases_witness:
  "\<exists>rules1 heap1 rules2 heap2.
     rules_Start (\<lambda>_. None) [''set'' \<mapsto> 0] [sample_referring_rule] (\<lambda>_. RemoteRS sample_remote) = Inr (rules1, heap1) \<and>
     rs_refs (heap1 0) = 2 \<and> rules_Close rules1 heap1 = Inr (rules2, heap2) \<and> rs_refs (heap2 0) = 0"
proof -
  obtain rules1 heap1 where start:
    "rules_Start (\<lambda>_. None) [''set'' \<mapsto> 0] [sample_referring_rule] (\<lambda>_. RemoteRS sample_remote) = Inr (rules1, heap1)"
    "rs_refs (heap1 0) = 2"
    by (simp add: sample_referring_rule_def append_set_item_def NewRuleSetItem_def new_rule_def default_Start_def
        RuleSetItem_Start_def RuleSetItem_Close_def sample_remote_def NewRemoteRuleSet_def)
  show ?thesis
    using rules_Start_Close_releases [OF _ _ start(1)] start
    by (simp add: sample_referring_rule_def append_set_item_def NewRuleSetItem_def new_rule_def sample_remote_def
        NewRemoteRuleSet_def) blast
qed

end
