(* ===== verification/Rule_Dns.thy ===== *)
theory Rule_Dns
  imports Rule_Route
begin

text \<open>
  DNS rules: their options (\<^verbatim>\<open>src/option/rule_dns.go\<close>), their constructors and matching
  (\<^verbatim>\<open>src/route/rule/rule_dns.go\<close>). A DNS rule is matched in two ways. In the current mode it is
  matched once, on the query or, when \<^verbatim>\<open>match_response\<close> is set, on an evaluated response. In
  the legacy mode it is matched first without its destination IP items and, when it has any, again on
  the response.
\<close>

section \<open>Options\<close>

record DefaultDNSRuleOptions =
  dd_Inbound :: "string slice"
  dd_IPVersion :: int
  dd_QueryType :: "u16 slice"
  dd_Network :: "string slice"
  dd_AuthUser :: "string slice"
  dd_Protocol :: "string slice"
  dd_Domain :: "string slice"
  dd_DomainSuffix :: "string slice"
  dd_DomainKeyword :: "string slice"
  dd_DomainRegex :: "string slice"
  dd_SourceIPCIDR :: "string slice"
  dd_SourceIPIsPrivate :: bool
  dd_SourcePort :: "u16 slice"
  dd_SourcePortRange :: "string slice"
  dd_Port :: "u16 slice"
  dd_PortRange :: "string slice"
  dd_ProcessName :: "string slice"
  dd_ProcessPath :: "string slice"
  dd_ProcessPathRegex :: "string slice"
  dd_PackageName :: "string slice"
  dd_PackageNameRegex :: "string slice"
  dd_User :: "string slice"
  dd_UserID :: "int slice"
  dd_Outbound :: "string slice"
  dd_ClashMode :: string
  dd_NetworkType :: "interface_type slice"
  dd_NetworkIsExpensive :: bool
  dd_NetworkIsConstrained :: bool
  dd_WIFISSID :: "string slice"
  dd_WIFIBSSID :: "string slice"
  dd_InterfaceAddress :: "(string \<times> prefix list) slice"
  dd_NetworkInterfaceAddress :: "(interface_type \<times> prefix list) slice"
  dd_DefaultInterfaceAddress :: "prefix slice"
  dd_SourceMACAddress :: "string slice"
  dd_SourceHostname :: "string slice"
  dd_RuleSet :: "string slice"
  dd_RuleSetIPCIDRMatchSource :: bool
  dd_MatchResponse :: bool
  dd_IPCIDR :: "string slice"
  dd_IPIsPrivate :: bool
  dd_IPAcceptAny :: bool
  dd_ResponseRcode :: "int option"
  dd_ResponseAnswer :: "rr option slice"
  dd_ResponseNs :: "rr option slice"
  dd_ResponseExtra :: "rr option slice"
  dd_Invert :: bool
  dd_Geosite :: "string slice"
  dd_SourceGeoIP :: "string slice"
  dd_GeoIP :: "string slice"
  dd_RuleSetIPCIDRAcceptEmpty :: bool
  dd_Deprecated_RulesetIPCIDRMatchSource :: bool
  dd_DNSRuleAction :: DNSRuleActionOptions

definition DefaultDNSRuleOptions_zero :: DefaultDNSRuleOptions where
  "DefaultDNSRuleOptions_zero = \<lparr>
     dd_Inbound = None, dd_IPVersion = 0, dd_QueryType = None, dd_Network = None,
     dd_AuthUser = None, dd_Protocol = None, dd_Domain = None, dd_DomainSuffix = None,
     dd_DomainKeyword = None, dd_DomainRegex = None, dd_SourceIPCIDR = None,
     dd_SourceIPIsPrivate = False, dd_SourcePort = None, dd_SourcePortRange = None,
     dd_Port = None, dd_PortRange = None, dd_ProcessName = None, dd_ProcessPath = None,
     dd_ProcessPathRegex = None, dd_PackageName = None, dd_PackageNameRegex = None,
     dd_User = None, dd_UserID = None, dd_Outbound = None, dd_ClashMode = [],
     dd_NetworkType = None, dd_NetworkIsExpensive = False, dd_NetworkIsConstrained = False,
     dd_WIFISSID = None, dd_WIFIBSSID = None, dd_InterfaceAddress = None,
     dd_NetworkInterfaceAddress = None, dd_DefaultInterfaceAddress = None,
     dd_SourceMACAddress = None, dd_SourceHostname = None, dd_RuleSet = None,
     dd_RuleSetIPCIDRMatchSource = False, dd_MatchResponse = False, dd_IPCIDR = None,
     dd_IPIsPrivate = False, dd_IPAcceptAny = False, dd_ResponseRcode = None,
     dd_ResponseAnswer = None, dd_ResponseNs = None, dd_ResponseExtra = None, dd_Invert = False,
     dd_Geosite = None, dd_SourceGeoIP = None, dd_GeoIP = None,
     dd_RuleSetIPCIDRAcceptEmpty = False, dd_Deprecated_RulesetIPCIDRMatchSource = False,
     dd_DNSRuleAction = DNSRuleActionOptions_zero\<rparr>"

definition DefaultDNSRule_IsValid :: "DefaultDNSRuleOptions \<Rightarrow> bool" where
  "DefaultDNSRule_IsValid r \<longleftrightarrow> r \<noteq> DefaultDNSRuleOptions_zero\<lparr>dd_Invert := dd_Invert r\<rparr>"

datatype DNSRuleOptions =
  DNSRuleOptions
    (du_Type: string)
    (du_DefaultOptions: DefaultDNSRuleOptions)
    (du_Mode: string)
    (du_Rules: "DNSRuleOptions list")
    (du_Invert: bool)
    (du_DNSRuleAction: DNSRuleActionOptions)

fun DNSRule_IsValid :: "DNSRuleOptions \<Rightarrow> bool result"
  and DNSRule_all_valid :: "DNSRuleOptions list \<Rightarrow> bool result" where
  "DNSRule_IsValid (DNSRuleOptions ty default_options mode rules inverted act) =
     (if ty = RuleTypeDefault then Inr (DefaultDNSRule_IsValid default_options)
      else if ty = RuleTypeLogical then (if rules = [] then Inr False else DNSRule_all_valid rules)
      else Inl (Panic ''unknown DNS rule type: ''))"
| "DNSRule_all_valid [] = Inr True"
| "DNSRule_all_valid (rule # rest) =
     bind_result (DNSRule_IsValid rule) (\<lambda>valid. if valid then DNSRule_all_valid rest else Inr False)"

definition LogicalDNSRule_IsValid :: "DNSRuleOptions list \<Rightarrow> bool result" where
  "LogicalDNSRule_IsValid rules = (if rules = [] then Inr False else DNSRule_all_valid rules)"

definition dnsRuleHasConfiguredAction :: "DNSRuleOptions \<Rightarrow> bool" where
  "dnsRuleHasConfiguredAction rule =
     (if du_Type rule = [] \<or> du_Type rule = RuleTypeDefault then
        dd_DNSRuleAction (du_DefaultOptions rule) \<noteq> DNSRuleActionOptions_zero
      else if du_Type rule = RuleTypeLogical then du_DNSRuleAction rule \<noteq> DNSRuleActionOptions_zero
      else False)"

fun validateNoNestedDNSRuleActions :: "bool \<Rightarrow> DNSRuleOptions \<Rightarrow> unit result"
  and validate_sub_dns_rules :: "DNSRuleOptions list \<Rightarrow> unit result" where
  "validateNoNestedDNSRuleActions nested (DNSRuleOptions ty default_options mode rules inverted act) =
     (if nested \<and> dnsRuleHasConfiguredAction (DNSRuleOptions ty default_options mode rules inverted act)
      then Inl (Err ''DNS rule action is not supported in nested rules'')
      else if ty \<noteq> RuleTypeLogical then Inr ()
      else validate_sub_dns_rules rules)"
| "validate_sub_dns_rules [] = Inr ()"
| "validate_sub_dns_rules (subRule # rest) =
     bind_result (with_cause ''sub rule['' (validateNoNestedDNSRuleActions True subRule)) (\<lambda>_.
     validate_sub_dns_rules rest)"

section \<open>Constructors\<close>

definition dns_rule_steps :: "golib \<Rightarrow> DefaultDNSRuleOptions \<Rightarrow> build_step list" where
  "dns_rule_steps lib options = [
     (slice (dd_Inbound options) \<noteq> [], G_items,
        Inr (NewInboundRule (slice (dd_Inbound options)))),
     (dd_IPVersion options > 0, G_items, ip_version_item (dd_IPVersion options)),
     (slice (dd_QueryType options) \<noteq> [], G_items,
        Inr (NewQueryTypeItem (slice (dd_QueryType options)))),
     (slice (dd_Network options) \<noteq> [], G_items,
        Inr (NewNetworkItem (slice (dd_Network options)))),
     (slice (dd_AuthUser options) \<noteq> [], G_items,
        Inr (NewAuthUserItem (slice (dd_AuthUser options)))),
     (slice (dd_Protocol options) \<noteq> [], G_items,
        Inr (NewProtocolItem (slice (dd_Protocol options)))),
     (slice (dd_Domain options) \<noteq> [] \<or> slice (dd_DomainSuffix options) \<noteq> [], G_destinationAddressItems,
        NewDomainItem lib (slice (dd_Domain options)) (slice (dd_DomainSuffix options))),
     (slice (dd_DomainKeyword options) \<noteq> [], G_destinationAddressItems,
        Inr (NewDomainKeywordItem (slice (dd_DomainKeyword options)))),
     (slice (dd_DomainRegex options) \<noteq> [], G_destinationAddressItems,
        with_cause ''domain_regex'' (NewDomainRegexItem lib (slice (dd_DomainRegex options)))),
     (slice (dd_Geosite options) \<noteq> [], G_items, Inl geosite_removed),
     (slice (dd_SourceGeoIP options) \<noteq> [], G_items, Inl geoip_removed),
     (slice (dd_GeoIP options) \<noteq> [], G_items, Inl geoip_removed),
     (slice (dd_SourceIPCIDR options) \<noteq> [], G_sourceAddressItems,
        with_cause ''source_ip_cidr'' (NewIPCIDRItem lib True (slice (dd_SourceIPCIDR options)))),
     (slice (dd_IPCIDR options) \<noteq> [], G_destinationIPCIDRItems,
        with_cause ''ip_cidr'' (NewIPCIDRItem lib False (slice (dd_IPCIDR options)))),
     (dd_SourceIPIsPrivate options, G_sourceAddressItems, Inr (NewIPIsPrivateItem True)),
     (dd_IPIsPrivate options, G_destinationIPCIDRItems, Inr (NewIPIsPrivateItem False)),
     (dd_IPAcceptAny options, G_destinationIPCIDRItems, Inr NewIPAcceptAnyItem),
     (\<not> Option.is_none (dd_ResponseRcode options), G_items,
        Inr (NewDNSResponseRCodeItem (the (dd_ResponseRcode options)))),
     (slice (dd_ResponseAnswer options) \<noteq> [], G_items,
        Inr (NewDNSResponseRecordItem ResponseAnswer (slice (dd_ResponseAnswer options)))),
     (slice (dd_ResponseNs options) \<noteq> [], G_items,
        Inr (NewDNSResponseRecordItem ResponseNs (slice (dd_ResponseNs options)))),
     (slice (dd_ResponseExtra options) \<noteq> [], G_items,
        Inr (NewDNSResponseRecordItem ResponseExtra (slice (dd_ResponseExtra options)))),
     (slice (dd_SourcePort options) \<noteq> [], G_sourcePortItems,
        Inr (NewPortItem True (slice (dd_SourcePort options)))),
     (slice (dd_SourcePortRange options) \<noteq> [], G_sourcePortItems,
        with_cause ''source_port_range'' (NewPortRangeItem True (slice (dd_SourcePortRange options)))),
     (slice (dd_Port options) \<noteq> [], G_destinationPortItems,
        Inr (NewPortItem False (slice (dd_Port options)))),
     (slice (dd_PortRange options) \<noteq> [], G_destinationPortItems,
        with_cause ''port_range'' (NewPortRangeItem False (slice (dd_PortRange options)))),
     (slice (dd_ProcessName options) \<noteq> [], G_items,
        Inr (NewProcessItem (slice (dd_ProcessName options)))),
     (slice (dd_ProcessPath options) \<noteq> [], G_items,
        Inr (NewProcessPathItem (slice (dd_ProcessPath options)))),
     (slice (dd_ProcessPathRegex options) \<noteq> [], G_items,
        with_cause ''process_path_regex'' (NewProcessPathRegexItem lib (slice (dd_ProcessPathRegex options)))),
     (slice (dd_PackageName options) \<noteq> [], G_items,
        Inr (NewPackageNameItem (slice (dd_PackageName options)))),
     (slice (dd_PackageNameRegex options) \<noteq> [], G_items,
        with_cause ''package_name_regex'' (NewPackageNameRegexItem lib (slice (dd_PackageNameRegex options)))),
     (slice (dd_User options) \<noteq> [], G_items, Inr (NewUserItem (slice (dd_User options)))),
     (slice (dd_UserID options) \<noteq> [], G_items, Inr (NewUserIDItem (slice (dd_UserID options)))),
     (slice (dd_Outbound options) \<noteq> [], G_items,
        Inr (NewOutboundRule (slice (dd_Outbound options)))),
     (dd_ClashMode options \<noteq> [], G_items, Inr (NewClashModeItem (dd_ClashMode options))),
     (slice (dd_NetworkType options) \<noteq> [], G_items,
        Inr (NewNetworkTypeItem (slice (dd_NetworkType options)))),
     (dd_NetworkIsExpensive options, G_items, Inr NewNetworkIsExpensiveItem),
     (dd_NetworkIsConstrained options, G_items, Inr NewNetworkIsConstrainedItem),
     (slice (dd_WIFISSID options) \<noteq> [], G_items,
        Inr (NewWIFISSIDItem (slice (dd_WIFISSID options)))),
     (slice (dd_WIFIBSSID options) \<noteq> [], G_items,
        Inr (NewWIFIBSSIDItem (slice (dd_WIFIBSSID options)))),
     (slice (dd_InterfaceAddress options) \<noteq> [], G_items,
        Inr (NewInterfaceAddressItem (slice (dd_InterfaceAddress options)))),
     (slice (dd_NetworkInterfaceAddress options) \<noteq> [], G_items,
        Inr (NewNetworkInterfaceAddressItem (slice (dd_NetworkInterfaceAddress options)))),
     (slice (dd_DefaultInterfaceAddress options) \<noteq> [], G_items,
        Inr (NewDefaultInterfaceAddressItem (slice (dd_DefaultInterfaceAddress options)))),
     (slice (dd_SourceMACAddress options) \<noteq> [], G_items,
        Inr (NewSourceMACAddressItem lib (slice (dd_SourceMACAddress options)))),
     (slice (dd_SourceHostname options) \<noteq> [], G_items,
        Inr (NewSourceHostnameItem (slice (dd_SourceHostname options))))]"

datatype dns_rule =
    DefaultDNSRule default_rule bool
  | LogicalDNSRule string "dns_rule list" bool "rule_action option"

text \<open>A default DNS rule has its items and whether it matches the response. The deprecated option to
  accept empty responses is an error outside of the legacy mode.\<close>

definition NewDefaultDNSRule :: "golib \<Rightarrow> bool \<Rightarrow> DefaultDNSRuleOptions \<Rightarrow> dns_rule result" where
  "NewDefaultDNSRule lib legacyDNSMode options =
     bind_result (NewDNSRuleAction (dd_DNSRuleAction options)) (\<lambda>act.
     bind_result (build_items (dns_rule_steps lib options) (new_rule (dd_Invert options) act)) (\<lambda>rule.
       if dd_RuleSetIPCIDRAcceptEmpty options \<and> \<not> legacyDNSMode then
         Inl (Err ''rule_set_ip_cidr_accept_empty is deprecated'')
       else if slice (dd_RuleSet options) \<noteq> [] then
         (if dd_Deprecated_RulesetIPCIDRMatchSource options then
            Inl (Err ''rule_set_ipcidr_match_source is deprecated in sing-box 1.10.0 and removed in sing-box 1.11.0'')
          else Inr (DefaultDNSRule (append_set_item
            (NewRuleSetItem (slice (dd_RuleSet options)) (dd_RuleSetIPCIDRMatchSource options)
               (dd_RuleSetIPCIDRAcceptEmpty options)) rule) (dd_MatchResponse options)))
       else Inr (DefaultDNSRule rule (dd_MatchResponse options))))"

definition validateDNSRuleAction :: "DNSRuleActionOptions \<Rightarrow> unit result" where
  "validateDNSRuleAction act =
     (if da_Action act = RuleActionTypeReject \<and> rej_Method (da_RejectOptions act) = RuleActionRejectMethodReply
      then Inl (Err ''reject method `reply` is not supported for DNS rules'') else Inr ())"

text \<open>The checks of the action that precede the construction of a rule.\<close>

definition check_dns_action :: "bool \<Rightarrow> DNSRuleActionOptions \<Rightarrow> unit result" where
  "check_dns_action checkServer act =
     (if \<not> checkServer \<and> da_Action act = RuleActionTypeEvaluate then
        Inl (Err ''evaluate is only allowed on top-level DNS rules'')
      else bind_result (validateDNSRuleAction act) (\<lambda>_.
        if da_Action act \<in> {[], RuleActionTypeRoute, RuleActionTypeEvaluate} \<and>
           dra_Server (da_RouteOptions act) = [] \<and> checkServer
        then Inl (Err ''missing server field'') else Inr ()))"

fun NewDNSRule :: "golib \<Rightarrow> bool \<Rightarrow> bool \<Rightarrow> DNSRuleOptions \<Rightarrow> dns_rule result"
  and NewDNSSubRules :: "golib \<Rightarrow> bool \<Rightarrow> DNSRuleOptions list \<Rightarrow> dns_rule list result" where
  "NewDNSRule lib checkServer legacyDNSMode (DNSRuleOptions ty default_options mode rules inverted act) =
     (if ty = [] \<or> ty = RuleTypeDefault then
        (if \<not> DefaultDNSRule_IsValid default_options then Inl (Err ''missing conditions'')
         else bind_result (check_dns_action checkServer (dd_DNSRuleAction default_options)) (\<lambda>_.
           NewDefaultDNSRule lib legacyDNSMode default_options))
      else if ty = RuleTypeLogical then
        bind_result (LogicalDNSRule_IsValid rules) (\<lambda>valid.
          if \<not> valid then Inl (Err ''missing conditions'')
          else bind_result (check_dns_action checkServer act) (\<lambda>_.
            bind_result (NewDNSRuleAction act) (\<lambda>a.
              if mode = LogicalTypeAnd \<or> mode = LogicalTypeOr then
                bind_result (NewDNSSubRules lib legacyDNSMode rules) (\<lambda>rs. Inr (LogicalDNSRule mode rs inverted a))
              else Inl (Err ''unknown logical mode: ''))))
      else Inl (Err ''unknown rule type: ''))"
| "NewDNSSubRules lib legacyDNSMode [] = Inr []"
| "NewDNSSubRules lib legacyDNSMode (subRule # rest) =
     bind_result (with_cause ''sub rule['' (validateNoNestedDNSRuleActions True subRule)) (\<lambda>_.
     bind_result (with_cause ''sub rule['' (NewDNSRule lib False legacyDNSMode subRule)) (\<lambda>rule.
     bind_result (NewDNSSubRules lib legacyDNSMode rest) (\<lambda>rules. Inr (rule # rules))))"

section \<open>Matching\<close>

text \<open>The methods a DNS rule inherits from the abstract rules, which do not look at whether the rule
  matches the response.\<close>

fun dns_matchStatesWithBase :: "golib \<Rightarrow> netenv \<Rightarrow> rule_set_heap \<Rightarrow> dns_rule \<Rightarrow> rule_matcher" where
  "dns_matchStatesWithBase lib env heap (DefaultDNSRule r matchResponse) metadata base =
     fst (default_matchStatesWithBase lib env (RuleSetItem_matchStatesWithBase lib env heap) r metadata base)"
| "dns_matchStatesWithBase lib env heap (LogicalDNSRule mode rules inverted act) metadata base =
     logical_matchStatesWithBase mode inverted (map (dns_matchStatesWithBase lib env heap) rules) metadata base"

fun logical_match_loop ::
    "(InboundContext \<Rightarrow> ruleMatchStateSet) list \<Rightarrow> InboundContext \<Rightarrow> ruleMatchStateSet \<Rightarrow> ruleMatchStateSet option" where
  "logical_match_loop [] metadata stateSet = Some stateSet"
| "logical_match_loop (rule # rest) metadata stateSet =
     (let nestedStateSet = rule (ResetRuleCache metadata)
      in if isEmpty nestedStateSet then None
         else logical_match_loop rest metadata (combine stateSet nestedStateSet))"

fun dns_matchStatesForMatch :: "golib \<Rightarrow> netenv \<Rightarrow> rule_set_heap \<Rightarrow> dns_rule \<Rightarrow> InboundContext \<Rightarrow> ruleMatchStateSet" where
  "dns_matchStatesForMatch lib env heap (DefaultDNSRule r matchResponse) metadata =
     (let match = (\<lambda>m. fst (default_matchStates lib env (RuleSetItem_matchStatesWithBase lib env heap) r m))
      in if matchResponse then
           (if Option.is_none (DNSResponse metadata) then invertedFailure r 0
            else match (metadata\<lparr>DestinationAddressMatchFromResponse := True\<rparr>))
         else match metadata)"
| "dns_matchStatesForMatch lib env heap (LogicalDNSRule mode rules inverted act) metadata =
     (let failure = (if inverted then emptyRuleMatchState else 0);
          nested = map (dns_matchStatesForMatch lib env heap) rules
      in if mode = LogicalTypeAnd then
           (case logical_match_loop nested metadata emptyRuleMatchState of
              None \<Rightarrow> failure
            | Some stateSet \<Rightarrow> if inverted then 0 else stateSet)
         else
           let stateSet = foldl (\<lambda>s rule. merge s (rule (ResetRuleCache metadata))) 0 nested
           in if isEmpty stateSet then failure else if inverted then 0 else stateSet)"

definition dns_Match :: "golib \<Rightarrow> netenv \<Rightarrow> rule_set_heap \<Rightarrow> dns_rule \<Rightarrow> InboundContext \<Rightarrow> bool" where
  "dns_Match lib env heap rule metadata \<longleftrightarrow> \<not> isEmpty (dns_matchStatesForMatch lib env heap rule metadata)"

fun WithAddressLimit :: "rule_set_heap \<Rightarrow> dns_rule \<Rightarrow> bool" where
  "WithAddressLimit heap (DefaultDNSRule r matchResponse) =
     (if destinationIPCIDRItems r \<noteq> [] then True
      else case ruleSetItem r of
             Some item \<Rightarrow> ContainsDestinationIPCIDRRule heap item
           | None \<Rightarrow> False)"
| "WithAddressLimit heap (LogicalDNSRule mode rules inverted act) = list_ex (WithAddressLimit heap) rules"

definition dns_LegacyPreMatch :: "golib \<Rightarrow> netenv \<Rightarrow> rule_set_heap \<Rightarrow> dns_rule \<Rightarrow> InboundContext \<Rightarrow> bool" where
  "dns_LegacyPreMatch lib env heap rule metadata =
     (case rule of
        DefaultDNSRule r matchResponse \<Rightarrow>
          if matchResponse then False
          else \<not> isEmpty (dns_matchStatesWithBase lib env heap rule (metadata\<lparr>IgnoreDestinationIPCIDRMatch := True\<rparr>) 0)
      | LogicalDNSRule mode rules inverted act \<Rightarrow>
          \<not> isEmpty (dns_matchStatesWithBase lib env heap rule (metadata\<lparr>IgnoreDestinationIPCIDRMatch := True\<rparr>) 0))"

definition dns_MatchAddressLimit ::
    "golib \<Rightarrow> netenv \<Rightarrow> rule_set_heap \<Rightarrow> dns_rule \<Rightarrow> InboundContext \<Rightarrow> dns_msg \<Rightarrow> bool" where
  "dns_MatchAddressLimit lib env heap rule metadata response \<longleftrightarrow>
     \<not> isEmpty (dns_matchStatesWithBase lib env heap rule
       (metadata\<lparr>DNSResponse := Some response, DestinationAddressMatchFromResponse := True\<rparr>) 0)"

fun dns_Action :: "dns_rule \<Rightarrow> rule_action option" where
  "dns_Action (DefaultDNSRule r matchResponse) = action r"
| "dns_Action (LogicalDNSRule mode rules inverted act) = act"

text \<open>Starting and closing are the methods of the abstract rules.\<close>

fun dns_Start ::
    "preferred_manager \<Rightarrow> (string \<rightharpoonup> rule_set_ref) \<Rightarrow> dns_rule \<Rightarrow> rule_set_heap \<Rightarrow> (dns_rule \<times> rule_set_heap) result"
  and dns_rules_Start ::
    "preferred_manager \<Rightarrow> (string \<rightharpoonup> rule_set_ref) \<Rightarrow> dns_rule list \<Rightarrow> rule_set_heap \<Rightarrow>
     (dns_rule list \<times> rule_set_heap) result" where
  "dns_Start mgr router (DefaultDNSRule r matchResponse) heap =
     bind_result (default_Start mgr router r heap) (\<lambda>(r', heap'). Inr (DefaultDNSRule r' matchResponse, heap'))"
| "dns_Start mgr router (LogicalDNSRule mode rules inverted act) heap =
     bind_result (dns_rules_Start mgr router rules heap) (\<lambda>(rules', heap').
       Inr (LogicalDNSRule mode rules' inverted act, heap'))"
| "dns_rules_Start mgr router [] heap = Inr ([], heap)"
| "dns_rules_Start mgr router (rule # rest) heap =
     bind_result (dns_Start mgr router rule heap) (\<lambda>(rule', heap1).
     bind_result (dns_rules_Start mgr router rest heap1) (\<lambda>(rest', heap'). Inr (rule' # rest', heap')))"

fun dns_Close :: "dns_rule \<Rightarrow> rule_set_heap \<Rightarrow> (dns_rule \<times> rule_set_heap) result"
  and dns_rules_Close :: "dns_rule list \<Rightarrow> rule_set_heap \<Rightarrow> (dns_rule list \<times> rule_set_heap) result" where
  "dns_Close (DefaultDNSRule r matchResponse) heap =
     bind_result (default_Close r heap) (\<lambda>(r', heap'). Inr (DefaultDNSRule r' matchResponse, heap'))"
| "dns_Close (LogicalDNSRule mode rules inverted act) heap =
     bind_result (dns_rules_Close rules heap) (\<lambda>(rules', heap'). Inr (LogicalDNSRule mode rules' inverted act, heap'))"
| "dns_rules_Close [] heap = Inr ([], heap)"
| "dns_rules_Close (rule # rest) heap =
     bind_result (dns_Close rule heap) (\<lambda>(rule', heap1).
     bind_result (dns_rules_Close rest heap1) (\<lambda>(rest', heap'). Inr (rule' # rest', heap')))"

section \<open>DNS rules are state matchers\<close>

lemma dns_state_matcher: "state_matcher (dns_matchStatesWithBase lib env heap rule)"
proof (induction rule)
  case (DefaultDNSRule r matchResponse)
  have "state_matcher (\<lambda>metadata b. fst (default_matchStatesWithBase lib env
      (RuleSetItem_matchStatesWithBase lib env heap) r metadata b))"
    by (rule default_state_matcher) (rule rsi.state_matcher_axioms)
  then show ?case
    by simp
next
  case (LogicalDNSRule mode rules inverted act)
  then show ?case
    using logical_state_matcher [of "map (dns_matchStatesWithBase lib env heap) rules" mode inverted] by simp
qed

interpretation dnsm: state_matcher "dns_matchStatesWithBase lib env heap rule" for lib env heap rule
  by (rule dns_state_matcher)

text \<open>The loop of \<^verbatim>\<open>matchStatesForMatch\<close> is that of the abstract logical rule without a base.\<close>

lemma withBase_0 [simp]: "withBase s 0 = s"
  by (simp flip: states_inject)

lemma logical_match_loop_eq:
  "logical_match_loop nested metadata s = logical_and_loop (map (\<lambda>m md b. m md) nested) metadata 0 s"
  by (induction nested arbitrary: s) (simp_all add: Let_def)

lemma dns_matchStatesForMatch_logical:
  "dns_matchStatesForMatch lib env heap (LogicalDNSRule mode rules inverted act) metadata =
     logical_matchStatesWithBase mode inverted
       (map (\<lambda>rule md b. dns_matchStatesForMatch lib env heap rule md) rules) metadata 0"
proof -
  have "foldl (\<lambda>s rule. merge s (rule md)) 0 (map (dns_matchStatesForMatch lib env heap) rules) =
      foldl (\<lambda>s rule. merge s (rule md 0)) 0 (map (\<lambda>rule md (b :: ruleMatchState). dns_matchStatesForMatch lib env heap rule md) rules)"
    for md
    by (simp add: foldl_map)
  then show ?thesis
    by (simp add: logical_matchStatesWithBase_def logical_match_loop_eq comp_def cong: if_cong)
qed

section \<open>Built rules are well formed\<close>

lemma dns_rule_steps_sorted: "\<forall>s\<in>set (dns_rule_steps lib options). step_sorted s"
  by (simp add: dns_rule_steps_def step_sorted_def build_simps ip_version_item_def)

fun wf_dns_rule :: "dns_rule \<Rightarrow> bool" where
  "wf_dns_rule (DefaultDNSRule r matchResponse) \<longleftrightarrow> wf_rule r"
| "wf_dns_rule (LogicalDNSRule mode rules inverted act) \<longleftrightarrow>
     (mode = LogicalTypeAnd \<or> mode = LogicalTypeOr) \<and> rules \<noteq> [] \<and> list_all wf_dns_rule rules"

fun no_nested_dns_action :: "dns_rule \<Rightarrow> bool" where
  "no_nested_dns_action (DefaultDNSRule r matchResponse) \<longleftrightarrow> True"
| "no_nested_dns_action (LogicalDNSRule mode rules inverted act) \<longleftrightarrow>
     list_all (\<lambda>rule. dns_Action rule = None \<and> no_nested_dns_action rule) rules"

text \<open>What the router relies on when it carries out the action of a rule: a server to route to, and a
  rejection it can answer.\<close>

fun dns_action_ok :: "rule_action option \<Rightarrow> bool" where
  "dns_action_ok (Some (ActionDNSRoute server options)) \<longleftrightarrow> server \<noteq> []"
| "dns_action_ok (Some (ActionEvaluate server options)) \<longleftrightarrow> server \<noteq> []"
| "dns_action_ok (Some (ActionReject r)) \<longleftrightarrow> reject_Method r \<noteq> RuleActionRejectMethodReply"
| "dns_action_ok _ \<longleftrightarrow> True"

lemma check_dns_action_ok:
  "check_dns_action True act = Inr () \<Longrightarrow> NewDNSRuleAction act = Inr a \<Longrightarrow> dns_action_ok a"
  by (auto simp: check_dns_action_def validateDNSRuleAction_def NewDNSRuleAction_def new_reject_def Let_def
      bind_result_Inr_iff split: if_splits)

lemma NewDefaultDNSRule_cases:
  assumes "NewDefaultDNSRule lib legacy options = Inr r"
  obtains act rule where "NewDNSRuleAction (dd_DNSRuleAction options) = Inr act"
    and "build_items (dns_rule_steps lib options) (new_rule (dd_Invert options) act) = Inr rule"
    and "r = DefaultDNSRule rule (dd_MatchResponse options) \<or>
      (\<exists>item. r = DefaultDNSRule (append_set_item item rule) (dd_MatchResponse options))"
proof -
  obtain act rule where "NewDNSRuleAction (dd_DNSRuleAction options) = Inr act"
    and "build_items (dns_rule_steps lib options) (new_rule (dd_Invert options) act) = Inr rule"
    and "(if dd_RuleSetIPCIDRAcceptEmpty options \<and> \<not> legacy then
         Inl (Err ''rule_set_ip_cidr_accept_empty is deprecated'')
       else if slice (dd_RuleSet options) \<noteq> [] then
         (if dd_Deprecated_RulesetIPCIDRMatchSource options then
            Inl (Err ''rule_set_ipcidr_match_source is deprecated in sing-box 1.10.0 and removed in sing-box 1.11.0'')
          else Inr (DefaultDNSRule (append_set_item
            (NewRuleSetItem (slice (dd_RuleSet options)) (dd_RuleSetIPCIDRMatchSource options)
               (dd_RuleSetIPCIDRAcceptEmpty options)) rule) (dd_MatchResponse options)))
       else Inr (DefaultDNSRule rule (dd_MatchResponse options))) = Inr r"
    using assms unfolding NewDefaultDNSRule_def bind_result_Inr_iff by blast
  then show thesis
    using that by (simp split: if_splits) blast+
qed

lemma NewDefaultDNSRule_wf:
  assumes "NewDefaultDNSRule lib legacy options = Inr r"
  shows "wf_dns_rule r \<and> no_nested_dns_action r \<and> NewDNSRuleAction (dd_DNSRuleAction options) = Inr (dns_Action r)"
  using assms
proof (rule NewDefaultDNSRule_cases)
  fix act rule
  assume act: "NewDNSRuleAction (dd_DNSRuleAction options) = Inr act"
    and rule: "build_items (dns_rule_steps lib options) (new_rule (dd_Invert options) act) = Inr rule"
    and r: "r = DefaultDNSRule rule (dd_MatchResponse options) \<or>
      (\<exists>item. r = DefaultDNSRule (append_set_item item rule) (dd_MatchResponse options))"
  have "wf_rule rule" "ruleSetItem rule = None" "action rule = act"
    using build_items_wf [OF rule wf_new_rule dns_rule_steps_sorted] build_items_keeps [OF rule] by simp_all
  then show ?thesis
    using r act by (elim disjE exE) (simp_all add: wf_append_set_item, simp add: append_set_item_def)
qed

lemma NewDNSSubRules_length: "NewDNSSubRules lib legacy os = Inr rs \<Longrightarrow> length rs = length os"
  by (induction os arbitrary: rs) (auto simp: bind_result_Inr_iff)

lemma NewDNSRuleAction_zero: "NewDNSRuleAction DNSRuleActionOptions_zero = Inr None"
  by (simp add: NewDNSRuleAction_def DNSRuleActionOptions_zero_def)

lemma NewDNSRule_cases:
  assumes "NewDNSRule lib check legacy (DNSRuleOptions ty default_options mode rules inverted act) = Inr rule"
  obtains (default) "ty = [] \<or> ty = RuleTypeDefault" "check_dns_action check (dd_DNSRuleAction default_options) = Inr ()"
      "NewDefaultDNSRule lib legacy default_options = Inr rule"
  | (logical) a rs where "ty = RuleTypeLogical" "ty \<noteq> []" "ty \<noteq> RuleTypeDefault" "LogicalDNSRule_IsValid rules = Inr True"
      "check_dns_action check act = Inr ()" "NewDNSRuleAction act = Inr a" "mode = LogicalTypeAnd \<or> mode = LogicalTypeOr"
      "NewDNSSubRules lib legacy rules = Inr rs" "rule = LogicalDNSRule mode rs inverted a"
proof (cases "ty = [] \<or> ty = RuleTypeDefault")
  case True
  then show ?thesis
    using assms default by (auto simp: bind_result_Inr_iff split: if_splits)
next
  case False
  then show ?thesis
    using assms logical by (auto simp: bind_result_Inr_iff split: if_splits)
qed

lemma NewDNSRule_action:
  assumes "NewDNSRule lib check legacy options = Inr rule"
  shows "\<exists>act. check_dns_action check act = Inr () \<and> NewDNSRuleAction act = Inr (dns_Action rule) \<and>
    (\<not> dnsRuleHasConfiguredAction options \<longrightarrow> act = DNSRuleActionOptions_zero)"
proof (cases options)
  case (DNSRuleOptions ty default_options mode rules inverted act)
  from assms [unfolded this] show ?thesis
  proof (cases rule: NewDNSRule_cases)
    case default
    then show ?thesis
      using NewDefaultDNSRule_wf [OF default(3)] DNSRuleOptions
      by (intro exI [of _ "dd_DNSRuleAction default_options"]) (auto simp: dnsRuleHasConfiguredAction_def)
  next
    case (logical a rs)
    then show ?thesis
      using DNSRuleOptions by (intro exI [of _ act]) (auto simp: dnsRuleHasConfiguredAction_def)
  qed
qed

lemma NewDNSRule_nested_action:
  assumes "validateNoNestedDNSRuleActions True options = Inr ()" "NewDNSRule lib check legacy options = Inr rule"
  shows "dns_Action rule = None"
proof -
  have "\<not> dnsRuleHasConfiguredAction options"
    using assms(1) by (cases options) (auto split: if_splits)
  then show ?thesis
    using NewDNSRule_action [OF assms(2)] NewDNSRuleAction_zero by auto
qed

lemma NewDNSRule_wf_aux:
  "NewDNSRule lib check legacy options = Inr rule \<Longrightarrow> wf_dns_rule rule \<and> no_nested_dns_action rule"
  "NewDNSSubRules lib legacy os = Inr rules \<Longrightarrow>
     list_all (\<lambda>rule. wf_dns_rule rule \<and> dns_Action rule = None \<and> no_nested_dns_action rule) rules"
proof (induction lib check legacy options and lib legacy os arbitrary: rule and rules
    rule: NewDNSRule_NewDNSSubRules.induct)
  case (1 lib check legacy ty default_options mode rules inverted act)
  from "1.prems" show ?case
  proof (cases rule: NewDNSRule_cases)
    case default
    then show ?thesis
      using NewDefaultDNSRule_wf by blast
  next
    case (logical a rs)
    then have "list_all (\<lambda>rule. wf_dns_rule rule \<and> dns_Action rule = None \<and> no_nested_dns_action rule) rs"
      using "1.IH" by auto
    then show ?thesis
      using logical NewDNSSubRules_length [OF logical(8)]
      by (auto simp: list_all_iff LogicalDNSRule_IsValid_def split: if_splits)
  qed
next
  case (3 lib legacy subOptions rest)
  then show ?case
    by (auto simp: bind_result_Inr_iff dest: NewDNSRule_nested_action)
qed simp

section \<open>The legacy mode\<close>

text \<open>A rule without an address limit does not look at the addresses, so ignoring them changes nothing;
  what the metadata of the rule sets says is relied on here. A rule set whose IP items are matched with
  the source address is excluded, because it has no address limit and is ignored all the same.\<close>

fun dns_set_items :: "dns_rule \<Rightarrow> RuleSetItem list" where
  "dns_set_items (DefaultDNSRule r matchResponse) = (case ruleSetItem r of None \<Rightarrow> [] | Some item \<Rightarrow> [item])"
| "dns_set_items (LogicalDNSRule mode rules inverted act) = concat (map dns_set_items rules)"

fun matches_response :: "dns_rule \<Rightarrow> bool" where
  "matches_response (DefaultDNSRule r matchResponse) \<longleftrightarrow> matchResponse"
| "matches_response (LogicalDNSRule mode rules inverted act) \<longleftrightarrow> list_ex matches_response rules"

definition heap_declared :: "rule_set_heap \<Rightarrow> bool" where
  "heap_declared heap \<longleftrightarrow> (\<forall>ref. ip_rules_declared (rs_rules (heap ref)) (rs_Metadata (heap ref)))"

lemma nested_metadata_ignore:
  "nested_metadata item (ignore_ip b metadata) = ignore_ip b (nested_metadata item metadata)"
  by (simp add: nested_metadata_def ResetRuleMatchCache_def)

lemma RuleSetItem_ignore:
  assumes "heap_declared heap" "\<not> ContainsDestinationIPCIDRRule heap item" "\<not> ipCidrMatchSource item"
  shows "RuleSetItem_matchStatesWithBase lib env heap item (ignore_ip b metadata) base =
    RuleSetItem_matchStatesWithBase lib env heap item metadata base"
proof -
  have "\<not> has_ip_items rule" if "rule \<in> branches heap item" for rule
    using assms that
    by (auto simp: branches_def ContainsDestinationIPCIDRRule_def heap_declared_def ip_rules_declared_def list_ex_iff)
  then show ?thesis
    by (simp add: states_RuleSetItem nested_metadata_ignore headless_ignore flip: states_inject)
qed

lemma dns_ignore:
  "heap_declared heap \<Longrightarrow> \<not> WithAddressLimit heap rule \<Longrightarrow> \<forall>item\<in>set (dns_set_items rule). \<not> ipCidrMatchSource item \<Longrightarrow>
   dns_matchStatesWithBase lib env heap rule (ignore_ip b metadata) base =
   dns_matchStatesWithBase lib env heap rule metadata base"
proof (induction rule arbitrary: metadata base)
  case (DefaultDNSRule r matchResponse)
  then show ?case
    by (auto intro!: default_ignore RuleSetItem_ignore split: if_splits)
next
  case (LogicalDNSRule mode rules inverted act)
  then show ?case
    by (auto intro!: logical_ignore simp: list_ex_iff)
qed

lemma dns_LegacyPreMatch_eq:
  "dns_LegacyPreMatch lib env heap rule metadata \<longleftrightarrow>
     \<not> (\<exists>r. rule = DefaultDNSRule r True) \<and>
     \<not> isEmpty (dns_matchStatesWithBase lib env heap rule (ignore_ip True metadata) 0)"
  by (auto simp: dns_LegacyPreMatch_def split: dns_rule.splits)

lemma dns_matchStatesForMatch_eq:
  "\<not> matches_response rule \<Longrightarrow>
   dns_matchStatesForMatch lib env heap rule metadata = dns_matchStatesWithBase lib env heap rule metadata 0"
proof (induction rule arbitrary: metadata)
  case (DefaultDNSRule r matchResponse)
  then show ?case
    by (simp add: default_matchStates_def)
next
  case (LogicalDNSRule mode rules inverted act)
  have loop: "logical_and_loop (map f rules) md 0 s = logical_and_loop (map g rules) md 0 s"
    if "\<And>rule md. rule \<in> set rules \<Longrightarrow> f rule md 0 = g rule md 0" for f g md s
    using that by (induction rules arbitrary: s) (simp_all add: Let_def)
  have fold: "foldl (\<lambda>s rule. merge s (rule md 0)) s (map f rules) = foldl (\<lambda>s rule. merge s (rule md 0)) s (map g rules)"
    if "\<And>rule md. rule \<in> set rules \<Longrightarrow> f rule md 0 = g rule md 0" for f g :: "dns_rule \<Rightarrow> rule_matcher" and md s
    using that by (induction rules arbitrary: s) simp_all
  have eq: "dns_matchStatesForMatch lib env heap rule md = dns_matchStatesWithBase lib env heap rule md 0"
    if "rule \<in> set rules" for rule md
    using LogicalDNSRule that by (auto simp: list_ex_iff)
  show ?case
    unfolding dns_matchStatesForMatch_logical dns_matchStatesWithBase.simps logical_matchStatesWithBase_def
    using loop [of "\<lambda>rule md b. dns_matchStatesForMatch lib env heap rule md" "dns_matchStatesWithBase lib env heap"]
      fold [of "\<lambda>rule md b. dns_matchStatesForMatch lib env heap rule md" "dns_matchStatesWithBase lib env heap"]
    by (simp add: eq)
qed

text \<open>The items that look at the response, and what the groups of a well formed rule see of it.\<close>

fun reads_response :: "rule_item \<Rightarrow> bool" where
  "reads_response (DNSResponseRCodeItem rc) \<longleftrightarrow> True"
| "reads_response (DNSResponseRecordItem sec rs) \<longleftrightarrow> True"
| "reads_response (IPCIDRItem s isSource) \<longleftrightarrow> \<not> isSource"
| "reads_response (IPIsPrivateItem isSource) \<longleftrightarrow> \<not> isSource"
| "reads_response IPAcceptAnyItem \<longleftrightarrow> True"
| "reads_response _ \<longleftrightarrow> False"

abbreviation on_response :: "dns_msg \<Rightarrow> InboundContext \<Rightarrow> InboundContext" where
  "on_response response metadata \<equiv>
     metadata\<lparr>DNSResponse := Some response, DestinationAddressMatchFromResponse := True\<rparr>"

lemma item_Match_on_response:
  "\<not> reads_response i \<Longrightarrow> item_Match lib env i (on_response response metadata) = item_Match lib env i metadata"
  by (cases i) (simp_all add: item_match_defs)

lemma group_reads_response:
  assumes "wf_rule r" "i \<in> set (sourceAddressItems r @ sourcePortItems r @ destinationAddressItems r @ destinationPortItems r)"
  shows "\<not> reads_response i"
proof -
  have "group_of i \<noteq> G_items \<and> group_of i \<noteq> G_destinationIPCIDRItems"
    using assms unfolding wf_rule_def well_sorted_def
    by (auto dest: spec [of _ G_sourceAddressItems] spec [of _ G_sourcePortItems]
        spec [of _ G_destinationAddressItems] spec [of _ G_destinationPortItems])
  then show ?thesis
    by (cases i) (auto split: if_splits)
qed

definition some_match where
  "some_match lib env is metadata \<longleftrightarrow> (\<exists>i\<in>set is. item_Match lib env i metadata)"

definition plain_conditions where
  "plain_conditions lib env r metadata \<longleftrightarrow>
     (\<forall>i\<in>set (items r). item_Match lib env i metadata) \<and>
     (sourceAddressItems r \<noteq> [] \<longrightarrow> some_match lib env (sourceAddressItems r) metadata) \<and>
     (sourcePortItems r \<noteq> [] \<longrightarrow> some_match lib env (sourcePortItems r) metadata) \<and>
     (destinationPortItems r \<noteq> [] \<longrightarrow> some_match lib env (destinationPortItems r) metadata)"

lemma default_states_plain:
  assumes "allItems r \<noteq> []" "ruleSetItem r = None" "\<not> invert r"
  shows "\<not> isEmpty (fst (default_matchStatesWithBase lib env setm r metadata 0)) \<longleftrightarrow> default_accepts lib env r metadata 0"
  using assms
  by (simp add: default_matchStatesWithBase_eq Let_def isEmpty_iff_states states_condition_None
      default_accepts_def invertedFailure_def)

lemma prematch_accepts_iff:
  "default_accepts lib env r (ignore_ip True metadata) 0 \<longleftrightarrow>
     plain_conditions lib env r metadata \<and>
     (destinationAddressItems r \<noteq> [] \<longrightarrow> some_match lib env (destinationAddressItems r) metadata)"
  by (auto simp: default_accepts_def items_match_def list_all_iff state_allowed_iff hit_defs
      matchAnyItem_iff plain_conditions_def some_match_def)

lemma plain_accepts_iff:
  assumes "\<not> IgnoreDestinationIPCIDRMatch metadata" "\<not> IPCIDRMatchSource metadata"
  shows "default_accepts lib env r metadata 0 \<longleftrightarrow>
     plain_conditions lib env r metadata \<and>
     (destinationAddressItems r @ destinationIPCIDRItems r \<noteq> [] \<longrightarrow>
        some_match lib env (destinationAddressItems r) metadata \<or> some_match lib env (destinationIPCIDRItems r) metadata)"
  using assms
  by (auto simp: default_accepts_def items_match_def list_all_iff state_allowed_iff hit_defs
      matchAnyItem_iff plain_conditions_def some_match_def)

lemma some_match_cong:
  "(\<And>i. i \<in> set is \<Longrightarrow> item_Match lib env i m = item_Match lib env i m') \<Longrightarrow>
   some_match lib env is m = some_match lib env is m'"
  by (simp add: some_match_def)

lemma response_accepts_iff:
  assumes "wf_rule r" "\<forall>i\<in>set (items r). \<not> reads_response i"
    and "\<not> IgnoreDestinationIPCIDRMatch metadata" "\<not> IPCIDRMatchSource metadata"
  shows "default_accepts lib env r (on_response response metadata) 0 \<longleftrightarrow>
     plain_conditions lib env r metadata \<and>
     (destinationAddressItems r @ destinationIPCIDRItems r \<noteq> [] \<longrightarrow>
        some_match lib env (destinationAddressItems r) metadata \<or>
        some_match lib env (destinationIPCIDRItems r) (on_response response metadata))"
proof -
  have same: "item_Match lib env i (on_response response metadata) = item_Match lib env i metadata"
    if "i \<in> set (items r @ sourceAddressItems r @ sourcePortItems r @ destinationAddressItems r @ destinationPortItems r)" for i
    using that assms(2) group_reads_response [OF assms(1)] by (intro item_Match_on_response) auto
  have groups: "some_match lib env (sourceAddressItems r) (on_response response metadata) = some_match lib env (sourceAddressItems r) metadata"
    "some_match lib env (sourcePortItems r) (on_response response metadata) = some_match lib env (sourcePortItems r) metadata"
    "some_match lib env (destinationAddressItems r) (on_response response metadata) = some_match lib env (destinationAddressItems r) metadata"
    "some_match lib env (destinationPortItems r) (on_response response metadata) = some_match lib env (destinationPortItems r) metadata"
    by (rule some_match_cong, rule same, simp)+
  have "(\<forall>i\<in>set (items r). item_Match lib env i (on_response response metadata)) =
      (\<forall>i\<in>set (items r). item_Match lib env i metadata)"
    by (rule ball_cong [OF refl], rule same) simp
  then have "plain_conditions lib env r (on_response response metadata) = plain_conditions lib env r metadata"
    unfolding plain_conditions_def groups by simp
  moreover have "some_match lib env (destinationAddressItems r) (on_response response metadata) =
      some_match lib env (destinationAddressItems r) metadata"
    by (rule groups)
  moreover have "\<not> IgnoreDestinationIPCIDRMatch (on_response response metadata)" "\<not> IPCIDRMatchSource (on_response response metadata)"
    using assms(3,4) by simp_all
  ultimately show ?thesis
    unfolding plain_accepts_iff [OF \<open>\<not> IgnoreDestinationIPCIDRMatch (on_response response metadata)\<close>
        \<open>\<not> IPCIDRMatchSource (on_response response metadata)\<close>] by simp
qed

text \<open>A branch of a rule set that has destination IP items only is passed over by a pre-match.\<close>

definition ip_only :: "('rs, 'act) abstractDefaultRule \<Rightarrow> bool" where
  "ip_only d \<longleftrightarrow> wf_rule d \<and> \<not> invert d \<and> ruleSetItem d = None \<and> destinationIPCIDRItems d \<noteq> [] \<and>
     group_lists d = destinationIPCIDRItems d"

lemma ip_only_simps:
  assumes "ip_only d"
  shows "items d = []" "sourceAddressItems d = []" "sourcePortItems d = []" "destinationAddressItems d = []"
    "destinationPortItems d = []" "allItems d \<noteq> []" "ruleSetItem d = None" "\<not> invert d"
proof -
  have "length (group_lists d) = length (destinationIPCIDRItems d)"
    using assms by (simp add: ip_only_def)
  then show "items d = []" "sourceAddressItems d = []" "sourcePortItems d = []" "destinationAddressItems d = []"
    "destinationPortItems d = []"
    by (simp_all add: group_lists_def)
  show "allItems d \<noteq> []" "ruleSetItem d = None" "\<not> invert d"
    using assms by (auto simp: ip_only_def allItems_Nil_iff)
qed

lemma ip_only_prematch:
  assumes "ip_only d" "IgnoreDestinationIPCIDRMatch metadata" "base < 16"
  shows "states (headless_matchStatesWithBase lib env (DefaultHeadlessRule d) metadata base) = {base}"
proof -
  note d = ip_only_simps [OF assms(1)]
  have "hit_bits lib env d metadata = 0"
    using d assms(2) by (simp add: hit_bits_def hit_defs bits_of_def)
  moreover have "state_allowed d metadata base"
    using d assms(2) by (simp add: state_allowed_iff requiresSourceAddressMatch_def
        requiresDestinationAddressMatch_def hit_defs)
  ultimately show ?thesis
    using d assms(3) by (simp add: default_matchStatesWithBase_eq Let_def isEmpty_iff_states states_condition_None
        items_match_def)
qed

lemma ip_only_source_match:
  assumes "ip_only d" "\<not> IgnoreDestinationIPCIDRMatch metadata" "IPCIDRMatchSource metadata"
  shows "\<not> isEmpty (headless_matchStatesWithBase lib env (DefaultHeadlessRule d) metadata 0) \<longleftrightarrow>
    some_match lib env (destinationIPCIDRItems d) metadata"
proof -
  note d = ip_only_simps [OF assms(1)]
  have "destinationIPCIDRItems d \<noteq> []"
    using assms(1) by (simp add: ip_only_def)
  then have "default_accepts lib env d metadata 0 \<longleftrightarrow> some_match lib env (destinationIPCIDRItems d) metadata"
    using d assms(2,3)
    by (simp add: default_accepts_def items_match_def state_allowed_iff hit_defs matchAnyItem_iff some_match_def
        requiresSourceAddressMatch_def requiresDestinationAddressMatch_def)
  then show ?thesis
    using default_states_plain [OF d(6-8)] by simp
qed

text \<open>What a rule that consists of one rule set item gives, on the branches of the sets.\<close>

lemma set_rule_states:
  fixes act :: "'act option"
  shows "states (condition_states lib env (RuleSetItem_matchStatesWithBase lib env heap)
      (append_set_item item (new_rule inverted act)) metadata 0) =
    (\<Union>rule\<in>branches heap item. states (headless_matchStatesWithBase lib env rule (nested_metadata item metadata) 0))"
proof -
  let ?r = "append_set_item item (new_rule inverted act) :: (RuleSetItem, 'act) abstractDefaultRule"
  have "items_match lib env ?r metadata" "hit_bits lib env ?r metadata = 0" "state_allowed ?r metadata x" for x
    by (simp_all add: append_set_item_def new_rule_def items_match_def hit_bits_def hit_defs bits_of_def
        state_allowed_def requiresSourceAddressMatch_def requiresDestinationAddressMatch_def)
  then show ?thesis
    by (simp add: condition_states_def states_RuleSetItem) (simp add: append_set_item_def states_RuleSetItem)
qed

lemma set_rule_match:
  "states (dns_matchStatesWithBase lib env heap (DefaultDNSRule (append_set_item item (new_rule inverted act)) resp) metadata 0) =
     (let s = (\<Union>rule\<in>branches heap item. states (headless_matchStatesWithBase lib env rule (nested_metadata item metadata) 0))
      in if inverted then (if s = {} then {0} else {}) else s)"
proof -
  let ?r = "append_set_item item (new_rule inverted act) :: default_rule"
  have r: "allItems ?r \<noteq> []" "invert ?r = inverted" "destinationIPCIDRItems ?r = []"
    by (simp_all add: append_set_item_def new_rule_def)
  have "(if inverted then 0 else 0) = (0 :: ruleMatchState)"
    by simp
  then show ?thesis
    unfolding dns_matchStatesWithBase.simps default_matchStatesWithBase_eq [OF r(1)] Let_def r(2,3) invertedFailure_def
      isEmpty_iff_states set_rule_states
    by (simp add: set_rule_states)
qed

section \<open>Properties\<close>

text \<open>
  C11. Every DNS rule the constructor accepts at the top level is well formed at every depth, only the
  outermost rule has an action, and the router can carry that action out: an action that routes or
  evaluates names a server, and a rejection has a method DNS can answer with.
\<close>

theorem NewDNSRule_well_formed:
  assumes "NewDNSRule lib True legacyDNSMode options = Inr rule"
  shows "wf_dns_rule rule \<and> no_nested_dns_action rule \<and> dns_action_ok (dns_Action rule)"
  using NewDNSRule_wf_aux(1) [OF assms] NewDNSRule_action [OF assms] check_dns_action_ok by blast

definition sample_dns_options :: DNSRuleOptions where
  "sample_dns_options = DNSRuleOptions RuleTypeLogical DefaultDNSRuleOptions_zero LogicalTypeAnd
     [DNSRuleOptions RuleTypeDefault (DefaultDNSRuleOptions_zero\<lparr>dd_Network := Some [''tcp'']\<rparr>) [] [] False DNSRuleActionOptions_zero,
      DNSRuleOptions RuleTypeDefault
        (DefaultDNSRuleOptions_zero\<lparr>dd_Port := Some [443], dd_RuleSet := Some [''set'']\<rparr>) [] [] False DNSRuleActionOptions_zero]
     False (DNSRuleActionOptions_zero\<lparr>da_Action := RuleActionTypeRoute,
       da_RouteOptions := DNSRouteActionOptions_zero\<lparr>dra_Server := ''local''\<rparr>\<rparr>)"

lemma sample_dns_options_build: "\<not> isl (NewDNSRule sample_lib True False sample_dns_options)"
  by (simp add: sample_dns_options_def RuleTypeLogical_def RuleTypeDefault_def LogicalDNSRule_IsValid_def
      DefaultDNSRule_IsValid_def DefaultDNSRuleOptions_zero_def check_dns_action_def validateDNSRuleAction_def
      NewDNSRuleAction_def DNSRuleActionOptions_zero_def DNSRouteActionOptions_zero_def action_type_defs
      dnsRuleHasConfiguredAction_def NewDefaultDNSRule_def dns_rule_steps_def)

lemma NewDNSRule_well_formed_witness:
  "\<exists>rule. NewDNSRule sample_lib True False sample_dns_options = Inr rule \<and> wf_dns_rule rule \<and> no_nested_dns_action rule"
proof -
  obtain rule where "NewDNSRule sample_lib True False sample_dns_options = Inr rule"
    using sample_dns_options_build by (cases "NewDNSRule sample_lib True False sample_dns_options") simp_all
  with NewDNSRule_well_formed [OF this] show ?thesis
    by blast
qed

text \<open>
  A logical DNS rule matches when all of its rules match (mode and), or when one of them does (any other
  mode); an inverted one when that is not so. Rules that match the response take part like all others: one
  of them that is not inverted does not match before a response was evaluated.
\<close>

theorem dns_logical_formula:
  "(dns_Match lib env heap (LogicalDNSRule mode rules inverted act) metadata \<longleftrightarrow>
     inverted \<noteq>
       (if mode = LogicalTypeAnd
        then list_all (\<lambda>rule. dns_Match lib env heap rule (ResetRuleCache metadata)) rules
        else list_ex (\<lambda>rule. dns_Match lib env heap rule (ResetRuleCache metadata)) rules)) \<and>
   (dns_Match lib env heap (DefaultDNSRule r True) (metadata\<lparr>DNSResponse := None\<rparr>) \<longleftrightarrow> invert r)"
proof -
  have "withBase emptyRuleMatchState 0 \<noteq> 0"
    by (simp add: emptyRuleMatchState_def singleRuleMatchState_def)
  then have "dns_Match lib env heap (DefaultDNSRule r True) (metadata\<lparr>DNSResponse := None\<rparr>) \<longleftrightarrow> invert r"
    by (simp add: dns_Match_def invertedFailure_def isEmpty_def)
  moreover have "dns_Match lib env heap (LogicalDNSRule mode rules inverted act) metadata \<longleftrightarrow>
     inverted \<noteq>
       (if mode = LogicalTypeAnd
        then list_all (\<lambda>rule. dns_Match lib env heap rule (ResetRuleCache metadata)) rules
        else list_ex (\<lambda>rule. dns_Match lib env heap rule (ResetRuleCache metadata)) rules)"
    unfolding dns_Match_def dns_matchStatesForMatch_logical
    using logical_nonempty_iff [of 0 mode inverted "map (\<lambda>rule md b. dns_matchStatesForMatch lib env heap rule md) rules" metadata]
    by (simp add: Let_def list_all_iff list_ex_iff)
  ultimately show ?thesis
    by blast
qed

text \<open>
  In the legacy mode a rule without an address limit is selected exactly when it matches in the current
  mode: leaving the destination IP items out of the pre-match loses nothing, at any depth of logical rules
  and through the rule sets, whose metadata says which of them contain IP rules.
\<close>

theorem legacy_prematch_exact:
  assumes "heap_declared heap" "\<not> WithAddressLimit heap rule" "\<not> matches_response rule"
    and "\<forall>item\<in>set (dns_set_items rule). \<not> ipCidrMatchSource item"
  shows "dns_LegacyPreMatch lib env heap rule metadata \<longleftrightarrow> dns_Match lib env heap rule metadata"
proof -
  have "\<not> (\<exists>r. rule = DefaultDNSRule r True)"
    using assms(3) by auto
  then show ?thesis
    unfolding dns_LegacyPreMatch_eq dns_Match_def dns_matchStatesForMatch_eq [OF assms(3)]
    using dns_ignore [OF assms(1,2,4)] by simp
qed

definition sample_dns_rule :: "rule_action option \<Rightarrow> dns_rule" where
  "sample_dns_rule act = DefaultDNSRule
     (append_item G_items (NewNetworkItem [''tcp'']) (append_set_item sample_item (new_rule False act))) False"

lemma sample_heap_declared: "heap_declared (\<lambda>_. sample_rule_set)"
  by (simp add: heap_declared_def ip_rules_declared_def sample_rule_set_def sample_branch_def new_rule_def)

lemma legacy_prematch_exact_witness:
  "dns_LegacyPreMatch sample_lib netenv_zero (\<lambda>_. sample_rule_set) (sample_dns_rule None) sample_metadata \<longleftrightarrow>
   dns_Match sample_lib netenv_zero (\<lambda>_. sample_rule_set) (sample_dns_rule None) sample_metadata"
  by (rule legacy_prematch_exact [OF sample_heap_declared])
    (simp_all add: sample_dns_rule_def append_set_item_def new_rule_def sample_item_def NewRuleSetItem_def
      ContainsDestinationIPCIDRRule_def sample_rule_set_def RuleSetMetadata_zero_def)

text \<open>
  C10. What the two stages of the legacy mode accept together, for a default rule without rule sets: all
  conditions on the query hold, and, when the rule has conditions on the domain, one of them holds; only when
  it has none are the addresses of the response looked at. The IP items of a rule that also has domain items
  never filter a response, although the documentation says that a rule whose address filter does not match
  the response is skipped.
\<close>

theorem legacy_two_stage_formula:
  assumes "wf_rule r" "allItems r \<noteq> []" "ruleSetItem r = None" "\<not> invert r"
    and "\<forall>i\<in>set (items r). \<not> reads_response i"
    and "\<not> IgnoreDestinationIPCIDRMatch metadata" "\<not> IPCIDRMatchSource metadata"
  shows "dns_LegacyPreMatch lib env heap (DefaultDNSRule r False) metadata \<and>
      dns_MatchAddressLimit lib env heap (DefaultDNSRule r False) metadata response \<longleftrightarrow>
    plain_conditions lib env r metadata \<and>
    (if destinationAddressItems r \<noteq> [] then some_match lib env (destinationAddressItems r) metadata
     else destinationIPCIDRItems r \<noteq> [] \<longrightarrow> some_match lib env (destinationIPCIDRItems r) (on_response response metadata))"
proof -
  have "dns_LegacyPreMatch lib env heap (DefaultDNSRule r False) metadata \<longleftrightarrow>
      plain_conditions lib env r metadata \<and>
      (destinationAddressItems r \<noteq> [] \<longrightarrow> some_match lib env (destinationAddressItems r) metadata)"
    unfolding dns_LegacyPreMatch_eq dns_matchStatesWithBase.simps default_states_plain [OF assms(2-4)] prematch_accepts_iff
    by simp
  moreover have "dns_MatchAddressLimit lib env heap (DefaultDNSRule r False) metadata response \<longleftrightarrow>
      plain_conditions lib env r metadata \<and>
      (destinationAddressItems r @ destinationIPCIDRItems r \<noteq> [] \<longrightarrow>
        some_match lib env (destinationAddressItems r) metadata \<or>
        some_match lib env (destinationIPCIDRItems r) (on_response response metadata))"
    unfolding dns_MatchAddressLimit_def dns_matchStatesWithBase.simps default_states_plain [OF assms(2-4)]
      response_accepts_iff [OF assms(1,5-7)] ..
  moreover have "\<not> some_match lib env [] metadata"
    by (simp add: some_match_def)
  ultimately show ?thesis
    by (cases "destinationAddressItems r = []") auto
qed

definition sample_private_rule :: default_rule where
  "sample_private_rule = append_item G_destinationIPCIDRItems (NewIPIsPrivateItem False)
     (append_item G_destinationAddressItems (NewDomainKeywordItem [''corp'']) (new_rule False None))"

definition sample_public_response :: dns_msg where
  "sample_public_response = \<lparr>msg_Id = 1, msg_Response = True, msg_Authoritative = False, msg_RecursionDesired = True,
     msg_RecursionAvailable = True, msg_Rcode = RcodeSuccess, msg_Question = [],
     msg_Answer = [\<lparr>rr_Name = ''corp.'', rr_Rrtype = TypeA, rr_Class = ClassINET, rr_Ttl = 1, rr_Data = RD_A [8, 8, 8, 8]\<rparr>], msg_Ns = [], msg_Extra = []\<rparr>"

lemma legacy_two_stage_formula_witness:
  "dns_LegacyPreMatch sample_lib netenv_zero (\<lambda>_. sample_rule_set) (DefaultDNSRule sample_private_rule False)
     (InboundContext_zero\<lparr>Domain := ''corp''\<rparr>) \<and>
   dns_MatchAddressLimit sample_lib netenv_zero (\<lambda>_. sample_rule_set) (DefaultDNSRule sample_private_rule False)
     (InboundContext_zero\<lparr>Domain := ''corp''\<rparr>) sample_public_response \<and>
   \<not> some_match sample_lib netenv_zero (destinationIPCIDRItems sample_private_rule)
     (on_response sample_public_response (InboundContext_zero\<lparr>Domain := ''corp''\<rparr>))"
proof -
  have "wf_rule sample_private_rule"
    by (simp add: sample_private_rule_def wf_append_item build_simps del: append_item.simps)
  moreover have "allItems sample_private_rule \<noteq> []" "ruleSetItem sample_private_rule = None" "\<not> invert sample_private_rule"
    "items sample_private_rule = []" "destinationAddressItems sample_private_rule = [NewDomainKeywordItem [''corp'']]"
    "destinationIPCIDRItems sample_private_rule = [NewIPIsPrivateItem False]"
    "sourceAddressItems sample_private_rule = []" "sourcePortItems sample_private_rule = []" "destinationPortItems sample_private_rule = []"
    by (simp_all add: sample_private_rule_def new_rule_def)
  moreover have "item_Match sample_lib netenv_zero (NewDomainKeywordItem [''corp'']) (InboundContext_zero\<lparr>Domain := ''corp''\<rparr>)"
    "\<not> item_Match sample_lib netenv_zero (NewIPIsPrivateItem False)
       (on_response sample_public_response (InboundContext_zero\<lparr>Domain := ''corp''\<rparr>))"
    by code_simp+
  ultimately show ?thesis
    using legacy_two_stage_formula [of sample_private_rule "InboundContext_zero\<lparr>Domain := ''corp''\<rparr>" sample_lib netenv_zero
        "\<lambda>_. sample_rule_set" sample_public_response]
    by (simp add: InboundContext_zero_def plain_conditions_def some_match_def)
qed

text \<open>
  C12. A rule that asks to match the addresses of a rule set with the source address of the query is not
  restricted to those sources in the legacy mode: when the rules of the sets have IP items only, the rule is
  selected for every query and no response is checked, while in the current mode it matches exactly the
  sources in the sets.
\<close>

theorem legacy_match_source_unchecked:
  assumes "rule = DefaultDNSRule (append_set_item item (new_rule False act)) False"
    and "ipCidrMatchSource item" "branches heap item \<noteq> {}"
    and "\<forall>h\<in>branches heap item. \<exists>d. h = DefaultHeadlessRule d \<and> ip_only d"
    and "\<not> IgnoreDestinationIPCIDRMatch metadata"
  shows "dns_LegacyPreMatch lib env heap rule metadata \<and> \<not> WithAddressLimit heap rule \<and>
    (dns_Match lib env heap rule metadata \<longleftrightarrow>
       (\<exists>d. DefaultHeadlessRule d \<in> branches heap item \<and>
          some_match lib env (destinationIPCIDRItems d) (nested_metadata item metadata)))"
proof -
  let ?m = "nested_metadata item metadata"
  have branch: "\<exists>d. h = DefaultHeadlessRule d \<and> ip_only d" if "h \<in> branches heap item" for h
    using assms(4) that by blast
  have m: "\<not> IgnoreDestinationIPCIDRMatch ?m" "IPCIDRMatchSource ?m"
    "IgnoreDestinationIPCIDRMatch (nested_metadata item (ignore_ip True metadata))"
    using assms(2,5) by (simp_all add: nested_metadata_def ResetRuleMatchCache_def)
  have "states (headless_matchStatesWithBase lib env h (nested_metadata item (ignore_ip True metadata)) 0) = {0}"
    if h: "h \<in> branches heap item" for h
  proof -
    obtain d where "h = DefaultHeadlessRule d" "ip_only d"
      using branch [OF h] by blast
    then show ?thesis
      using ip_only_prematch [OF _ m(3), of d 0 lib env] by simp
  qed
  then have "(\<Union>h\<in>branches heap item. states (headless_matchStatesWithBase lib env h
      (nested_metadata item (ignore_ip True metadata)) 0)) = {0}"
    using assms(3) by simp
  then have "dns_LegacyPreMatch lib env heap rule metadata"
    unfolding assms(1) dns_LegacyPreMatch_eq isEmpty_iff_states set_rule_match by simp
  moreover have "\<not> WithAddressLimit heap rule"
    using assms(2) by (simp add: assms(1) append_set_item_def new_rule_def ContainsDestinationIPCIDRRule_def)
  moreover have "dns_Match lib env heap rule metadata \<longleftrightarrow>
      (\<exists>h\<in>branches heap item. \<not> isEmpty (headless_matchStatesWithBase lib env h ?m 0))"
  proof -
    have "dns_matchStatesForMatch lib env heap rule metadata = dns_matchStatesWithBase lib env heap rule metadata 0"
      by (rule dns_matchStatesForMatch_eq) (simp add: assms(1))
    then show ?thesis
      unfolding dns_Match_def isEmpty_iff_states assms(1) set_rule_match by (simp only:) (simp only: set_rule_match, simp)
  qed
  moreover have "(\<exists>h\<in>branches heap item. \<not> isEmpty (headless_matchStatesWithBase lib env h ?m 0)) \<longleftrightarrow>
      (\<exists>d. DefaultHeadlessRule d \<in> branches heap item \<and> some_match lib env (destinationIPCIDRItems d) ?m)"
    using branch ip_only_source_match [OF _ m(1,2)] by (metis headless_rule.inject(1))
  ultimately show ?thesis
    by blast
qed

definition sample_ip_branch :: "(unit, unit) abstractDefaultRule" where
  "sample_ip_branch = append_item G_destinationIPCIDRItems (NewIPIsPrivateItem False) (new_rule False None)"

definition sample_ip_set :: rule_set where
  "sample_ip_set = LocalRS \<lparr>ls_tag = ''private'', ls_rules = [DefaultHeadlessRule sample_ip_branch],
     ls_metadata = RuleSetMetadata_zero\<lparr>ContainsIPCIDRRule := True\<rparr>, ls_fileFormat = [], ls_watcher = False,
     ls_callbacks = [], ls_refs = 1\<rparr>"

lemma sample_ip_branch_only: "ip_only sample_ip_branch"
  by (simp add: ip_only_def sample_ip_branch_def wf_append_item build_simps group_lists_def del: append_item.simps)
    (simp add: new_rule_def)

lemma sample_ip_branches: "setList item = [0] \<Longrightarrow> branches (\<lambda>_. sample_ip_set) item = {DefaultHeadlessRule sample_ip_branch}"
  by (simp add: branches_def sample_ip_set_def)

lemma legacy_match_source_unchecked_witness:
  "dns_LegacyPreMatch sample_lib netenv_zero (\<lambda>_. sample_ip_set)
     (DefaultDNSRule (append_set_item ((NewRuleSetItem [''private''] True False)\<lparr>setList := [0]\<rparr>) (new_rule False None)) False)
     (InboundContext_zero\<lparr>Source := socksaddr_zero\<lparr>sa_Addr := Addr4 0x08080808\<rparr>\<rparr>)"
proof -
  let ?item = "(NewRuleSetItem [''private''] True False)\<lparr>setList := [0]\<rparr>"
  let ?m = "InboundContext_zero\<lparr>Source := socksaddr_zero\<lparr>sa_Addr := Addr4 0x08080808\<rparr>\<rparr>"
  have "ipCidrMatchSource ?item" "branches (\<lambda>_. sample_ip_set) ?item = {DefaultHeadlessRule sample_ip_branch}"
    "\<not> IgnoreDestinationIPCIDRMatch ?m"
    by (simp_all add: NewRuleSetItem_def sample_ip_branches InboundContext_zero_def)
  then show ?thesis
    using legacy_match_source_unchecked [OF refl, of ?item "\<lambda>_. sample_ip_set" ?m sample_lib netenv_zero None]
      sample_ip_branch_only by simp
qed

text \<open>
  An inverted rule that refers to a rule set with IP rules is never selected in the legacy mode, whatever
  the query and the response: the pre-match, which leaves the IP items out, takes the rule set for matched and
  inverts that. The inverted rule with the same IP items written into it is selected for every query, so
  that its response can be checked.
\<close>

theorem legacy_inverted_set_never:
  assumes "DefaultHeadlessRule d \<in> branches heap item" "ip_only d" "group_of i = G_destinationIPCIDRItems"
    and "\<not> DidMatch metadata"
  shows "\<not> dns_LegacyPreMatch lib env heap (DefaultDNSRule (append_set_item item (new_rule True act)) False) metadata \<and>
    dns_LegacyPreMatch lib env heap (DefaultDNSRule (append_item G_destinationIPCIDRItems i (new_rule True act)) False) metadata"
proof -
  have "0 \<in> states (headless_matchStatesWithBase lib env (DefaultHeadlessRule d) (nested_metadata item (ignore_ip True metadata)) 0)"
    using ip_only_prematch [OF assms(2), of "nested_metadata item (ignore_ip True metadata)" 0 lib env]
    by (simp add: nested_metadata_ignore)
  then have "(\<Union>h\<in>branches heap item. states (headless_matchStatesWithBase lib env h
      (nested_metadata item (ignore_ip True metadata)) 0)) \<noteq> {}"
    using assms(1) by blast
  then have "\<not> dns_LegacyPreMatch lib env heap (DefaultDNSRule (append_set_item item (new_rule True act)) False) metadata"
    unfolding dns_LegacyPreMatch_eq isEmpty_iff_states set_rule_match by simp
  moreover have "dns_LegacyPreMatch lib env heap (DefaultDNSRule (append_item G_destinationIPCIDRItems i (new_rule True act)) False) metadata"
  proof -
    let ?r = "append_item G_destinationIPCIDRItems i (new_rule True act) :: default_rule"
    let ?m = "ignore_ip True metadata"
    have r: "items ?r = []" "sourceAddressItems ?r = []" "sourcePortItems ?r = []" "destinationAddressItems ?r = []"
      "destinationPortItems ?r = []" "destinationIPCIDRItems ?r = [i]" "ruleSetItem ?r = None" "invert ?r" "allItems ?r \<noteq> []"
      by (simp_all add: new_rule_def)
    have "states (condition_states lib env setm ?r ?m 0) = {0}" for setm :: "RuleSetItem set_matcher"
      using r by (simp add: states_condition_None items_match_def hit_bits_def hit_defs bits_of_def state_allowed_iff
          requiresSourceAddressMatch_def requiresDestinationAddressMatch_def)
    then have "condition_states lib env setm ?r ?m 0 = emptyRuleMatchState" for setm :: "RuleSetItem set_matcher"
      by (simp flip: states_inject)
    moreover have "nothing_looked_at ?r ?m"
      using r assms(4) by (simp add: nothing_looked_at_def looks_at_groups_def hit_defs)
    ultimately show ?thesis
      using r unfolding dns_LegacyPreMatch_eq dns_matchStatesWithBase.simps default_matchStatesWithBase_eq [OF r(9)] Let_def
      by (simp add: isEmpty_iff_states)
  qed
  ultimately show ?thesis
    by blast
qed

lemma legacy_inverted_set_never_witness:
  "\<not> dns_LegacyPreMatch sample_lib netenv_zero (\<lambda>_. sample_ip_set)
     (DefaultDNSRule (append_set_item ((NewRuleSetItem [''private''] False False)\<lparr>setList := [0]\<rparr>) (new_rule True None)) False)
     InboundContext_zero"
  using legacy_inverted_set_never [of sample_ip_branch "\<lambda>_. sample_ip_set" "(NewRuleSetItem [''private''] False False)\<lparr>setList := [0]\<rparr>"
      "NewIPIsPrivateItem False" InboundContext_zero sample_lib netenv_zero None]
  by (simp add: sample_ip_branches sample_ip_branch_only build_simps InboundContext_zero_def)

end
