(* ===== verification/Lifecycle.thy ===== *)
theory Lifecycle
  imports Prelude
begin

text \<open>
  The objects of the configuration (inbounds, outbounds, endpoints, services, certificate providers and DNS
  servers) and the managers that create, start, look up, remove and close them
  (\<^verbatim>\<open>src/adapter/lifecycle.go\<close>, \<^verbatim>\<open>src/adapter/lifecycle_legacy.go\<close>,
  \<^verbatim>\<open>src/adapter/{endpoint,inbound,service,certificate}/manager.go\<close>).

  The four managers of this theory have the same code up to a few lines, so their operations are instances of
  one definition each; the outbound manager and the manager of DNS servers extend the record. Every
  operation of a manager holds its lock, hence is one step; it returns the calls it makes to the objects, in
  order, besides its error and the new state. What an object answers to a call is a parameter.
\<close>

section \<open>Objects and stages\<close>

type_synonym StartStage = u8

definition StartStateInitialize :: StartStage where "StartStateInitialize = 0"
definition StartStateStart :: StartStage where "StartStateStart = 1"
definition StartStatePostStart :: StartStage where "StartStatePostStart = 2"
definition StartStateStarted :: StartStage where "StartStateStarted = 3"

definition ListStartStages :: "StartStage list" where
  "ListStartStages = [StartStateInitialize, StartStateStart, StartStatePostStart, StartStateStarted]"

lemmas stage_defs = StartStateInitialize_def StartStateStart_def StartStatePostStart_def StartStateStarted_def

text \<open>An object by its identity (the pointer the code compares), what its adapter says of it, and which of the
  optional interfaces it implements.\<close>

record managed =
  mo_Id :: nat
  mo_Type :: string
  mo_Tag :: string
  mo_Dependencies :: "string list"
  mo_Lifecycle :: bool
  mo_PreStarter :: bool
  mo_Starter :: bool
  mo_PostStarter :: bool
  mo_Closer :: bool

datatype lifecycle_call = CallStage StartStage | CallPreStart | CallStart | CallPostStart | CallClose

type_synonym calls = "(managed \<times> lifecycle_call) list"
type_synonym answers = "managed \<Rightarrow> lifecycle_call \<Rightarrow> err option"

text \<open>A registry maps a type to the constructor registered for it; the constructors are the protocol packages.\<close>

type_synonym registry = "string \<rightharpoonup> (string \<Rightarrow> managed result)"

definition registry_Create :: "string \<Rightarrow> registry \<Rightarrow> string \<Rightarrow> string \<Rightarrow> managed result" where
  "registry_Create message constructors tag type' =
     (case constructors type' of
        None \<Rightarrow> Inl (Err message)
      | Some constructor \<Rightarrow> constructor tag)"

definition register :: "string \<Rightarrow> (string \<Rightarrow> managed result) \<Rightarrow> registry \<Rightarrow> registry" where
  "register type' constructor constructors = constructors(type' \<mapsto> constructor)"

definition cause :: "string \<Rightarrow> err \<Rightarrow> err" where
  "cause msg e = (case e of Panic p \<Rightarrow> Panic p | _ \<Rightarrow> Cause msg e)"

section \<open>Starting objects\<close>

definition call :: "answers \<Rightarrow> managed \<Rightarrow> lifecycle_call \<Rightarrow> calls \<times> err option" where
  "call ans ob c = ([(ob, c)], ans ob c)"

definition LegacyStart :: "answers \<Rightarrow> managed \<Rightarrow> StartStage \<Rightarrow> calls \<times> err option" where
  "LegacyStart ans starter stage =
     (if mo_Lifecycle starter then call ans starter (CallStage stage)
      else if stage = StartStateInitialize \<and> mo_PreStarter starter then call ans starter CallPreStart
      else if stage = StartStateStart \<and> mo_Starter starter then call ans starter CallStart
      else if stage = StartStateStarted \<and> mo_PostStarter starter then call ans starter CallPostStart
      else ([], None))"

text \<open>Loops that start one thing after the other and stop at the first error.\<close>

fun start_each :: "('a \<Rightarrow> calls \<times> err option) \<Rightarrow> 'a list \<Rightarrow> calls \<times> err option" where
  "start_each start [] = ([], None)"
| "start_each start (x # rest) =
     (case start x of
        (cs, Some e) \<Rightarrow> (cs, Some (cause ''start'' e))
      | (cs, None) \<Rightarrow> (case start_each start rest of (cs', e) \<Rightarrow> (cs @ cs', e)))"

definition close_each :: "answers \<Rightarrow> managed list \<Rightarrow> calls" where
  "close_each ans obs = map (\<lambda>ob. (ob, CallClose)) obs"

text \<open>The errors that closing collects are put together by \<^verbatim>\<open>E.Append\<close>, the parameter \<open>appendE\<close>.\<close>

definition close_errors ::
    "(err option \<Rightarrow> err \<Rightarrow> err option) \<Rightarrow> answers \<Rightarrow> managed list \<Rightarrow> err option" where
  "close_errors appendE ans obs =
     fold (\<lambda>ob err. case ans ob CallClose of None \<Rightarrow> err | Some e \<Rightarrow> appendE err (cause ''close'' e)) obs None"

section \<open>Managers\<close>

record manager =
  mg_started :: bool
  mg_stage :: StartStage
  mg_objects :: "managed list"
  mg_byTag :: "string \<rightharpoonup> managed"

type_synonym 'm step = "calls \<times> err option \<times> 'm"

definition NewManager :: manager where
  "NewManager = \<lparr>mg_started = False, mg_stage = 0, mg_objects = [], mg_byTag = Map.empty\<rparr>"

text \<open>The guard of every \<^verbatim>\<open>Start\<close>.\<close>

definition begin_stage :: "StartStage \<Rightarrow> 'a manager_scheme \<Rightarrow> 'a manager_scheme result" where
  "begin_stage stage m =
     (if mg_started m \<and> mg_stage m \<ge> stage then Inl (Panic ''already started'')
      else Inr (m\<lparr>mg_started := True, mg_stage := stage\<rparr>))"

definition managed_Start :: "answers \<Rightarrow> StartStage \<Rightarrow> manager \<Rightarrow> manager step" where
  "managed_Start ans stage m =
     (case begin_stage stage m of
        Inl e \<Rightarrow> ([], Some e, m)
      | Inr m1 \<Rightarrow> (case start_each (\<lambda>ob. LegacyStart ans ob stage) (mg_objects m1) of (cs, e) \<Rightarrow> (cs, e, m1)))"

definition stop :: "'a manager_scheme \<Rightarrow> 'a manager_scheme" where
  "stop m = m\<lparr>mg_started := False, mg_objects := []\<rparr>"

definition managed_Close :: "answers \<Rightarrow> manager \<Rightarrow> manager step" where
  "managed_Close ans m =
     (if mg_started m then (close_each ans (mg_objects m), None, stop m) else ([], None, m))"

text \<open>Taking an object out of the table, and putting one into it.\<close>

definition delete_tag :: "string \<Rightarrow> 'a manager_scheme \<Rightarrow> 'a manager_scheme" where
  "delete_tag tag m = m\<lparr>mg_byTag := (mg_byTag m)(tag := None)\<rparr>"

definition delete_object :: "string \<Rightarrow> managed \<Rightarrow> 'a manager_scheme \<Rightarrow> 'a manager_scheme result" where
  "delete_object message ob m =
     (if ob \<in> set (mg_objects m) then Inr (m\<lparr>mg_objects := remove1 ob (mg_objects m)\<rparr>)
      else Inl (Panic message))"

definition insert_object :: "string \<Rightarrow> managed \<Rightarrow> 'a manager_scheme \<Rightarrow> 'a manager_scheme" where
  "insert_object tag ob m = m\<lparr>mg_objects := mg_objects m @ [ob], mg_byTag := (mg_byTag m)(tag \<mapsto> ob)\<rparr>"

definition managed_Remove :: "string \<Rightarrow> answers \<Rightarrow> string \<Rightarrow> manager \<Rightarrow> manager step" where
  "managed_Remove message ans tag m =
     (case mg_byTag m tag of
        None \<Rightarrow> ([], Some (Err ''invalid argument''), m)
      | Some ob \<Rightarrow>
          (case delete_object message ob (delete_tag tag m) of
             Inl e \<Rightarrow> ([], Some e, delete_tag tag m)
           | Inr m1 \<Rightarrow>
               if mg_started m1 then (case call ans ob CallClose of (cs, e) \<Rightarrow> (cs, e, m1))
               else ([], None, m1)))"

text \<open>What creating an object does with the one that has the same tag: it is closed, when the manager is
  started, and leaves the list.\<close>

definition replace_object ::
    "string \<Rightarrow> (managed \<Rightarrow> calls \<times> err option) \<Rightarrow> string \<Rightarrow> 'a manager_scheme \<Rightarrow> calls \<times> 'a manager_scheme result" where
  "replace_object message close tag m =
     (case mg_byTag m tag of
        None \<Rightarrow> ([], Inr m)
      | Some exists' \<Rightarrow>
          (case (if mg_started m then close exists' else ([], None)) of
             (cs, Some e) \<Rightarrow> (cs, Inl (cause ''close'' e))
           | (cs, None) \<Rightarrow> (cs, delete_object message exists' m)))"

definition start_created :: "answers \<Rightarrow> managed \<Rightarrow> 'a manager_scheme \<Rightarrow> calls \<times> err option" where
  "start_created ans ob m =
     (if mg_started m then start_each (LegacyStart ans ob) ListStartStages else ([], None))"

definition managed_Create :: "string \<Rightarrow> answers \<Rightarrow> string \<Rightarrow> managed result \<Rightarrow> manager \<Rightarrow> manager step" where
  "managed_Create message ans tag created m =
     (case created of
        Inl e \<Rightarrow> ([], Some e, m)
      | Inr ob \<Rightarrow>
          (case start_created ans ob m of
             (cs, Some e) \<Rightarrow> (cs, Some e, m)
           | (cs, None) \<Rightarrow>
               (case replace_object message (\<lambda>ob. call ans ob CallClose) tag m of
                  (cs', Inl e) \<Rightarrow> (cs @ cs', Some e, m)
                | (cs', Inr m1) \<Rightarrow> (cs @ cs', None, insert_object tag ob m1))))"

section \<open>The four managers\<close>

definition endpoint_Start :: "answers \<Rightarrow> StartStage \<Rightarrow> manager \<Rightarrow> manager step" where
  "endpoint_Start ans stage m =
     (case begin_stage stage m of
        Inl e \<Rightarrow> ([], Some e, m)
      | Inr m1 \<Rightarrow> if stage = StartStateStart then ([], None, m1) else managed_Start ans stage m)"

definition endpoint_Close :: "answers \<Rightarrow> manager \<Rightarrow> manager step" where
  "endpoint_Close = managed_Close"

definition endpoint_Get :: "manager \<Rightarrow> string \<Rightarrow> managed option" where
  "endpoint_Get m tag = mg_byTag m tag"

definition endpoint_Remove :: "answers \<Rightarrow> string \<Rightarrow> manager \<Rightarrow> manager step" where
  "endpoint_Remove = managed_Remove ''invalid endpoint index''"

definition endpoint_Create :: "answers \<Rightarrow> registry \<Rightarrow> string \<Rightarrow> string \<Rightarrow> manager \<Rightarrow> manager step" where
  "endpoint_Create ans reg tag type' =
     managed_Create ''invalid endpoint index'' ans tag (registry_Create ''outbound type not found'' reg tag type')"

definition inbound_Start :: "answers \<Rightarrow> StartStage \<Rightarrow> manager \<Rightarrow> manager step" where
  "inbound_Start = managed_Start"

definition inbound_Close :: "answers \<Rightarrow> manager \<Rightarrow> manager step" where
  "inbound_Close = managed_Close"

definition inbound_Get :: "manager \<Rightarrow> manager \<Rightarrow> string \<Rightarrow> managed option" where
  "inbound_Get endpoint m tag = (case mg_byTag m tag of Some ob \<Rightarrow> Some ob | None \<Rightarrow> endpoint_Get endpoint tag)"

definition inbound_Remove :: "answers \<Rightarrow> string \<Rightarrow> manager \<Rightarrow> manager step" where
  "inbound_Remove = managed_Remove ''invalid inbound index''"

definition inbound_Create :: "answers \<Rightarrow> registry \<Rightarrow> string \<Rightarrow> string \<Rightarrow> manager \<Rightarrow> manager step" where
  "inbound_Create ans reg tag type' =
     managed_Create ''invalid inbound index'' ans tag (registry_Create ''outbound type not found'' reg tag type')"

definition service_Start :: "answers \<Rightarrow> StartStage \<Rightarrow> manager \<Rightarrow> manager step" where
  "service_Start = managed_Start"

definition service_Close :: "answers \<Rightarrow> manager \<Rightarrow> manager step" where
  "service_Close = managed_Close"

definition service_Get :: "manager \<Rightarrow> string \<Rightarrow> managed option" where
  "service_Get m tag = mg_byTag m tag"

definition service_Remove :: "answers \<Rightarrow> string \<Rightarrow> manager \<Rightarrow> manager step" where
  "service_Remove = managed_Remove ''invalid service index''"

definition service_Create :: "answers \<Rightarrow> registry \<Rightarrow> string \<Rightarrow> string \<Rightarrow> manager \<Rightarrow> manager step" where
  "service_Create ans reg tag type' =
     managed_Create ''invalid service index'' ans tag (registry_Create ''outbound type not found'' reg tag type')"

definition certificate_Start :: "answers \<Rightarrow> StartStage \<Rightarrow> manager \<Rightarrow> manager step" where
  "certificate_Start = managed_Start"

definition certificate_Close ::
    "(err option \<Rightarrow> err \<Rightarrow> err option) \<Rightarrow> answers \<Rightarrow> manager \<Rightarrow> manager step" where
  "certificate_Close appendE ans m =
     (if mg_started m then (close_each ans (mg_objects m), close_errors appendE ans (mg_objects m), stop m)
      else ([], None, m))"

definition certificate_Get :: "manager \<Rightarrow> string \<Rightarrow> managed option" where
  "certificate_Get m tag = mg_byTag m tag"

definition certificate_Remove :: "answers \<Rightarrow> string \<Rightarrow> manager \<Rightarrow> manager step" where
  "certificate_Remove = managed_Remove ''invalid certificate provider index''"

definition certificate_Create :: "answers \<Rightarrow> registry \<Rightarrow> string \<Rightarrow> string \<Rightarrow> manager \<Rightarrow> manager step" where
  "certificate_Create ans reg tag type' =
     managed_Create ''invalid certificate provider index'' ans tag
       (registry_Create ''certificate provider type not found'' reg tag type')"

section \<open>The table of tags\<close>

text \<open>The list of objects and the map from tags to objects agree: the tags of the list are different, and the map
  finds exactly the objects of the list under their own tags.\<close>

definition tagged :: "'a manager_scheme \<Rightarrow> bool" where
  "tagged m \<longleftrightarrow> distinct (map mo_Tag (mg_objects m)) \<and>
     (\<forall>tag ob. mg_byTag m tag = Some ob \<longleftrightarrow> ob \<in> set (mg_objects m) \<and> mo_Tag ob = tag)"

lemma tagged_NewManager: "tagged NewManager"
  by (simp add: tagged_def NewManager_def)

lemma tagged_D:
  assumes "tagged m"
  shows "distinct (map mo_Tag (mg_objects m))" "distinct (mg_objects m)"
    "mg_byTag m tag = Some ob \<Longrightarrow> ob \<in> set (mg_objects m)" "mg_byTag m tag = Some ob \<Longrightarrow> mo_Tag ob = tag"
    "ob \<in> set (mg_objects m) \<Longrightarrow> mg_byTag m (mo_Tag ob) = Some ob"
  using assms by (auto simp: tagged_def dest: distinct_map [THEN iffD1])

lemma tagged_dom: "tagged m \<Longrightarrow> dom (mg_byTag m) = mo_Tag ` set (mg_objects m)"
  by (auto simp: tagged_def)

lemma tagged_cong:
  "mg_objects m' = mg_objects m \<Longrightarrow> mg_byTag m' = mg_byTag m \<Longrightarrow> tagged m' = tagged m"
  by (simp add: tagged_def)

lemma distinct_tag_eq:
  "distinct (map mo_Tag obs) \<Longrightarrow> a \<in> set obs \<Longrightarrow> b \<in> set obs \<Longrightarrow> mo_Tag a = mo_Tag b \<Longrightarrow> a = b"
  by (meson distinct_map inj_onD)

lemma distinct_remove1: "distinct (map f xs) \<Longrightarrow> distinct (map f (remove1 x xs))"
  by (induction xs) (auto dest: set_remove1_subset [THEN subsetD])

text \<open>Without the object of a tag, and with a new object of a tag that is not in use.\<close>

lemma tagged_without:
  assumes "tagged m" "mg_byTag m tag = Some ob"
    and "mg_objects m' = remove1 ob (mg_objects m)" "mg_byTag m' = (mg_byTag m)(tag := None)"
  shows "tagged m'"
proof -
  note m = tagged_D [OF assms(1)]
  have "ob' \<in> set (remove1 ob (mg_objects m)) \<longleftrightarrow> ob' \<in> set (mg_objects m) \<and> mo_Tag ob' \<noteq> tag" for ob'
    using m(2) m(4) [OF assms(2)] m(3) [OF assms(2)] distinct_tag_eq [OF m(1), of ob' ob] by auto
  then show ?thesis
    using assms(1,3,4) m(1) by (auto simp: tagged_def distinct_remove1)
qed

lemma tagged_insert:
  "tagged m \<Longrightarrow> mg_byTag m tag = None \<Longrightarrow> mo_Tag ob = tag \<Longrightarrow> tagged (insert_object tag ob m)"
  by (auto simp: tagged_def insert_object_def) (metis option.distinct(1))+

lemma delete_object_ok:
  "tagged m \<Longrightarrow> mg_byTag m tag = Some ob \<Longrightarrow>
   delete_object message ob (delete_tag tag m) =
     Inr (m\<lparr>mg_byTag := (mg_byTag m)(tag := None), mg_objects := remove1 ob (mg_objects m)\<rparr>)"
  by (simp add: delete_object_def delete_tag_def tagged_D)

lemma replace_object_insert:
  assumes "tagged m" "replace_object message close tag m = (cs, Inr m1)" "mo_Tag ob = tag"
  shows "tagged (insert_object tag ob m1)"
proof (cases "mg_byTag m tag")
  case None
  then show ?thesis
    using assms by (auto simp: replace_object_def intro: tagged_insert)
next
  case (Some ob')
  then have "m1 = m\<lparr>mg_objects := remove1 ob' (mg_objects m)\<rparr>"
    using assms(2) by (auto simp: replace_object_def delete_object_def split: if_splits option.splits prod.splits)
  then have "insert_object tag ob m1 = insert_object tag ob (m1\<lparr>mg_byTag := (mg_byTag m)(tag := None)\<rparr>)"
    by (simp add: insert_object_def)
  moreover have "tagged (m1\<lparr>mg_byTag := (mg_byTag m)(tag := None)\<rparr>)"
    by (rule tagged_without [OF assms(1) Some]) (use \<open>m1 = _\<close> in simp_all)
  ultimately show ?thesis
    using assms(3) by (simp add: tagged_insert)
qed

lemma tagged_Create:
  assumes "tagged m" "\<And>ob. created = Inr ob \<Longrightarrow> mo_Tag ob = tag" "managed_Create message ans tag created m = (cs, e, m')"
  shows "tagged m'"
  using assms replace_object_insert [OF assms(1)]
  by (auto simp: managed_Create_def split: sum.splits option.splits prod.splits)

lemma tagged_Remove:
  assumes "tagged m" "managed_Remove message ans tag m = (cs, e, m')"
  shows "tagged m'"
proof (cases "mg_byTag m tag")
  case (Some ob)
  then have "m' = m\<lparr>mg_byTag := (mg_byTag m)(tag := None), mg_objects := remove1 ob (mg_objects m)\<rparr>"
    using assms by (auto simp: managed_Remove_def delete_object_ok call_def split: if_splits)
  then show ?thesis
    by (intro tagged_without [OF assms(1) Some]) simp_all
qed (use assms in \<open>simp add: managed_Remove_def\<close>)

lemma tagged_Start: "tagged m \<Longrightarrow> tagged (snd (snd (managed_Start ans stage m)))"
  by (auto simp: managed_Start_def begin_stage_def tagged_def split: prod.splits)

end
