(* ===== verification/Outbound_Manager.thy ===== *)
theory Outbound_Manager
  imports Lifecycle "HOL-Library.Multiset"
begin

text \<open>
  The outbound manager (\<^verbatim>\<open>src/adapter/outbound/manager.go\<close>): the table of outbounds, the default outbound,
  the record of which outbound depends on which, and the loop that starts all outbounds and endpoints, each
  after the ones it depends on.

  The loops of the code have no bound of their own, so they are partial functions: not returning is the
  value \<open>None\<close>.
\<close>

section \<open>Starting in the order of dependencies\<close>

text \<open>One pass over the objects: \<open>started\<close> holds the tags of the objects that were started. The last
  component is \<^verbatim>\<open>canContinue\<close>.\<close>

fun start_pass ::
    "(managed \<Rightarrow> calls \<times> err option) \<Rightarrow> managed list \<Rightarrow> string set \<Rightarrow> bool \<Rightarrow>
     (calls \<times> err option) \<times> string set \<times> bool" where
  "start_pass start [] started canContinue = (([], None), started, canContinue)"
| "start_pass start (ob # rest) started canContinue =
     (if mo_Tag ob \<in> started then start_pass start rest started canContinue
      else if \<exists>dependency\<in>set (mo_Dependencies ob). dependency \<notin> started then start_pass start rest started canContinue
      else
        (case start ob of
           (cs, Some e) \<Rightarrow> ((cs, Some (cause ''start'' e)), insert (mo_Tag ob) started, True)
         | (cs, None) \<Rightarrow>
             (case start_pass start rest (insert (mo_Tag ob) started) True of
                ((cs', e), started', c) \<Rightarrow> ((cs @ cs', e), started', c))))"

text \<open>The search for the reason when nothing can be started: it follows, from object to object, the first
  dependency that is not started. \<^verbatim>\<open>common.Find\<close> gives the empty string when there is none.\<close>

partial_function (option) lintOutbound ::
    "string \<Rightarrow> string set \<Rightarrow> (string \<rightharpoonup> managed) \<Rightarrow> string list \<Rightarrow> managed \<Rightarrow> err option" where
  "lintOutbound kind started byTag oTree oCurrent =
     (let problemOutboundTag = (case find (\<lambda>it. it \<notin> started) (mo_Dependencies oCurrent) of Some d \<Rightarrow> d | None \<Rightarrow> [])
      in if problemOutboundTag \<in> set oTree then Some (Err (''circular '' @ kind @ '' dependency''))
         else if byTag problemOutboundTag = None then Some (Err (''dependency not found for '' @ kind))
         else lintOutbound kind started byTag (oTree @ [problemOutboundTag]) (the (byTag problemOutboundTag)))"

text \<open>The outer loop. When no object is left to blame, \<^verbatim>\<open>currentOutbound\<close> is nil and asking it for its tag
  panics.\<close>

partial_function (option) start_rounds ::
    "string \<Rightarrow> (managed \<Rightarrow> calls \<times> err option) \<Rightarrow> (string \<rightharpoonup> managed) \<Rightarrow> managed list \<Rightarrow> string set \<Rightarrow> (calls \<times> err option) option" where
  "start_rounds kind start byTag obs started =
     (case start_pass start obs started False of
        ((cs, e), started', canContinue) \<Rightarrow>
          if e \<noteq> None then Some (cs, e)
          else if card started' = length obs then Some (cs, None)
          else if canContinue then
            Option.bind (start_rounds kind start byTag obs started') (\<lambda>(cs', e'). Some (cs @ cs', e'))
          else
            (case find (\<lambda>it. mo_Tag it \<notin> started') obs of
               None \<Rightarrow> Some (cs, Some (Panic ''nil pointer dereference''))
             | Some currentOutbound \<Rightarrow>
                 Option.bind (lintOutbound kind started' byTag [mo_Tag currentOutbound] currentOutbound) (\<lambda>e'. Some (cs, Some e'))))"

definition startOutbounds ::
    "answers \<Rightarrow> (string \<rightharpoonup> managed) \<Rightarrow> managed list \<Rightarrow> (calls \<times> err option) option" where
  "startOutbounds ans outboundByTag outbounds =
     start_rounds ''outbound'' (\<lambda>ob. LegacyStart ans ob StartStateStart) outboundByTag outbounds {}"

section \<open>The manager\<close>

text \<open>A map to slices that is only read by \<^verbatim>\<open>len\<close>, \<^verbatim>\<open>append\<close> and \<^verbatim>\<open>Filter\<close> is a function: a missing key
  is the empty slice.\<close>

record outbound_manager = manager +
  om_defaultTag :: string
  om_dependByTag :: "string \<Rightarrow> string list"
  om_defaultOutbound :: "managed option"

definition outbound_NewManager :: "string \<Rightarrow> outbound_manager" where
  "outbound_NewManager defaultTag = \<lparr>mg_started = False, mg_stage = 0, mg_objects = [], mg_byTag = Map.empty,
     om_defaultTag = defaultTag, om_dependByTag = (\<lambda>_. []), om_defaultOutbound = None\<rparr>"

definition resolve_default ::
    "manager \<Rightarrow> managed result \<Rightarrow> outbound_manager \<Rightarrow> outbound_manager result" where
  "resolve_default endpoint fallback m =
     bind_result
       (if om_defaultTag m \<noteq> [] \<and> om_defaultOutbound m = None then
          (case endpoint_Get endpoint (om_defaultTag m) of
             None \<Rightarrow> Inl (Err ''default outbound not found'')
           | Some defaultEndpoint \<Rightarrow> Inr (m\<lparr>om_defaultOutbound := Some defaultEndpoint\<rparr>))
        else Inr m)
       (\<lambda>m1.
          if om_defaultOutbound m1 = None then
            bind_result (with_cause ''create direct outbound for fallback'' fallback)
              (\<lambda>direct. Inr ((insert_object (mo_Tag direct) direct m1)\<lparr>om_defaultOutbound := Some direct\<rparr>))
          else Inr m1)"

definition outbound_Start ::
    "answers \<Rightarrow> manager \<Rightarrow> managed result \<Rightarrow> StartStage \<Rightarrow> outbound_manager \<Rightarrow> outbound_manager step option" where
  "outbound_Start ans endpoint fallback stage m =
     (case begin_stage stage m of
        Inl e \<Rightarrow> Some ([], Some e, m)
      | Inr m1 \<Rightarrow>
          if stage = StartStateStart then
            (case resolve_default endpoint fallback m1 of
               Inl e \<Rightarrow> Some ([], Some e, m1)
             | Inr m2 \<Rightarrow>
                 map_option (\<lambda>(cs, e). (cs, e, m2)) (startOutbounds ans (mg_byTag m2) (mg_objects m2 @ mg_objects endpoint)))
          else
            (case start_each (\<lambda>ob. LegacyStart ans ob stage) (mg_objects m1) of (cs, e) \<Rightarrow> Some (cs, e, m1)))"

definition outbound_Close :: "answers \<Rightarrow> outbound_manager \<Rightarrow> outbound_manager step" where
  "outbound_Close ans m =
     (if mg_started m then (close_each ans (filter mo_Closer (mg_objects m)), None, stop m) else ([], None, m))"

definition manager_Outbound :: "manager \<Rightarrow> outbound_manager \<Rightarrow> string \<Rightarrow> managed option" where
  "manager_Outbound endpoint m tag = (case mg_byTag m tag of Some outbound \<Rightarrow> Some outbound | None \<Rightarrow> endpoint_Get endpoint tag)"

text \<open>\<^verbatim>\<open>common.Close\<close> closes what implements \<^verbatim>\<open>io.Closer\<close>.\<close>

definition common_Close :: "answers \<Rightarrow> managed \<Rightarrow> calls \<times> err option" where
  "common_Close ans ob = (if mo_Closer ob then call ans ob CallClose else ([], None))"

definition release_dependency :: "string \<Rightarrow> string \<Rightarrow> (string \<Rightarrow> string list) \<Rightarrow> string \<Rightarrow> string list" where
  "release_dependency tag dependency dependByTag =
     (if length (dependByTag dependency) = 1 then dependByTag(dependency := [])
      else dependByTag(dependency := filter (\<lambda>it. it \<noteq> tag) (dependByTag dependency)))"

definition add_dependency :: "string \<Rightarrow> string \<Rightarrow> (string \<Rightarrow> string list) \<Rightarrow> string \<Rightarrow> string list" where
  "add_dependency tag dependency dependByTag = dependByTag(dependency := dependByTag dependency @ [tag])"

definition next_default :: "managed \<Rightarrow> outbound_manager \<Rightarrow> outbound_manager" where
  "next_default outbound m =
     (if om_defaultOutbound m = Some outbound then
        m\<lparr>om_defaultOutbound := (case mg_objects m of [] \<Rightarrow> None | first # _ \<Rightarrow> Some first)\<rparr>
      else m)"

definition outbound_Remove :: "answers \<Rightarrow> string \<Rightarrow> outbound_manager \<Rightarrow> outbound_manager step" where
  "outbound_Remove ans tag m =
     (case mg_byTag m tag of
        None \<Rightarrow> ([], Some (Err ''invalid argument''), m)
      | Some outbound \<Rightarrow>
          (case delete_object ''invalid inbound index'' outbound (delete_tag tag m) of
             Inl e \<Rightarrow> ([], Some e, delete_tag tag m)
           | Inr m1 \<Rightarrow>
               (let m2 = next_default outbound m1
                in if om_dependByTag m2 tag \<noteq> [] then ([], Some (Err ''outbound is depended by others''), m2)
                   else
                     (let m3 = m2\<lparr>om_dependByTag := fold (release_dependency tag) (mo_Dependencies outbound) (om_dependByTag m2)\<rparr>
                      in if mg_started m3 then (case common_Close ans outbound of (cs, e) \<Rightarrow> (cs, e, m3))
                         else ([], None, m3)))))"

definition outbound_Create ::
    "answers \<Rightarrow> registry \<Rightarrow> string \<Rightarrow> string \<Rightarrow> outbound_manager \<Rightarrow> outbound_manager step" where
  "outbound_Create ans reg tag type' m =
     (if tag = [] then ([], Some (Err ''invalid argument''), m)
      else
        (case registry_Create ''outbound type not found'' reg tag type' of
           Inl e \<Rightarrow> ([], Some e, m)
         | Inr outbound \<Rightarrow>
             (case start_created ans outbound m of
                (cs, Some e) \<Rightarrow> (cs, Some e, m)
              | (cs, None) \<Rightarrow>
                  (case replace_object ''invalid inbound index'' (common_Close ans) tag m of
                     (cs', Inl e) \<Rightarrow> (cs @ cs', Some e, m)
                   | (cs', Inr m1) \<Rightarrow>
                       (let m2 = (insert_object tag outbound m1)
                          \<lparr>om_dependByTag := fold (add_dependency tag) (mo_Dependencies outbound) (om_dependByTag m1)\<rparr>
                        in (cs @ cs', None,
                            if tag = om_defaultTag m2 \<or> om_defaultTag m2 = [] \<and> om_defaultOutbound m2 = None
                            then m2\<lparr>om_defaultOutbound := Some outbound\<rparr> else m2))))))"

section \<open>The passes of the start loop\<close>

text \<open>An object whose dependencies are not all started is blocked.\<close>

definition blocked :: "string set \<Rightarrow> managed \<Rightarrow> bool" where
  "blocked started ob \<longleftrightarrow> (\<exists>dependency\<in>set (mo_Dependencies ob). dependency \<notin> started)"

lemma start_pass_ConsE:
  assumes "start_pass start (ob # obs) S c = ((cs, e), S', c')"
  obtains
    (skipped) "mo_Tag ob \<in> S \<or> blocked S ob" "start_pass start obs S c = ((cs, e), S', c')"
  | (failed) e1 where "mo_Tag ob \<notin> S" "\<not> blocked S ob" "start ob = (cs, Some e1)" "e = Some (cause ''start'' e1)"
      "S' = insert (mo_Tag ob) S" "c'"
  | (started) cs1 cs2 where "mo_Tag ob \<notin> S" "\<not> blocked S ob" "start ob = (cs1, None)"
      "start_pass start obs (insert (mo_Tag ob) S) True = ((cs2, e), S', c')" "cs = cs1 @ cs2"
  using assms by (auto simp: blocked_def split: if_splits prod.splits option.splits)

lemma start_pass_grows:
  "start_pass start obs S c = ((cs, e), S', c') \<Longrightarrow> S \<subseteq> S' \<and> S' \<subseteq> S \<union> mo_Tag ` set obs"
proof (induction obs arbitrary: S c cs)
  case (Cons ob obs)
  from Cons.prems show ?case
    by (cases rule: start_pass_ConsE) (use Cons.IH in fastforce)+
qed simp

lemma start_pass_continue:
  "start_pass start obs S c = ((cs, None), S', c') \<Longrightarrow> c' \<longleftrightarrow> c \<or> S' \<noteq> S"
proof (induction obs arbitrary: S c cs)
  case (Cons ob obs)
  from Cons.prems show ?case
  proof (cases rule: start_pass_ConsE)
    case (started cs1 cs2)
    then show ?thesis
      using Cons.IH [OF started(4)] start_pass_grows [OF started(4)] by auto
  qed (use Cons.IH in auto)
qed simp

lemma start_pass_stuck:
  "start_pass start obs S c = ((cs, None), S, c') \<Longrightarrow> ob \<in> set obs \<Longrightarrow> mo_Tag ob \<in> S \<or> blocked S ob"
proof (induction obs arbitrary: S c cs)
  case (Cons ob' obs)
  from Cons.prems(1) show ?case
  proof (cases rule: start_pass_ConsE)
    case (started cs1 cs2)
    then show ?thesis
      using start_pass_grows [OF started(4)] by auto
  qed (use Cons in auto)
qed simp

lemma start_pass_ok:
  "(\<And>ob. ob \<in> set obs \<Longrightarrow> snd (start ob) = None) \<Longrightarrow> start_pass start obs S c = ((cs, e), S', c') \<Longrightarrow> e = None"
proof (induction obs arbitrary: S c cs)
  case (Cons ob obs)
  from Cons.prems(2) show ?case
  proof (cases rule: start_pass_ConsE)
    case (failed e1)
    then show ?thesis
      using Cons.prems(1) [of ob] by simp
  qed (use Cons in auto)
qed simp

lemma finite_start_pass: "finite S \<Longrightarrow> start_pass start obs S c = ((cs, e), S', c') \<Longrightarrow> finite S'"
  using start_pass_grows by (metis List.finite_set finite_UnI finite_imageI finite_subset)

text \<open>What remains to be started gets smaller with every pass that can continue.\<close>

lemma start_pass_decreases:
  assumes "start_pass start obs S False = ((cs, None), S', True)"
  shows "card (mo_Tag ` set obs - S') < card (mo_Tag ` set obs - S)"
proof -
  have "S' \<noteq> S" "S \<subseteq> S'" "S' \<subseteq> S \<union> mo_Tag ` set obs"
    using start_pass_continue [OF assms] start_pass_grows [OF assms] by auto
  then have "mo_Tag ` set obs - S' \<subset> mo_Tag ` set obs - S"
    by blast
  then show ?thesis
    by (rule psubset_card_mono [rotated]) simp
qed

section \<open>Both loops return\<close>

lemma lintOutbound_returns:
  "finite (dom byTag) \<Longrightarrow> \<exists>e. lintOutbound kind S byTag oTree ob = Some e"
proof (induction "card (dom byTag - set oTree)" arbitrary: oTree ob rule: less_induct)
  case less
  let ?p = "case find (\<lambda>it. it \<notin> S) (mo_Dependencies ob) of Some d \<Rightarrow> d | None \<Rightarrow> []"
  show ?case
  proof (cases "?p \<in> set oTree \<or> byTag ?p = None")
    case True
    then show ?thesis
      by (subst lintOutbound.simps) (auto simp: Let_def)
  next
    case False
    then have "dom byTag - set (oTree @ [?p]) \<subset> dom byTag - set oTree"
      by auto
    then have "card (dom byTag - set (oTree @ [?p])) < card (dom byTag - set oTree)"
      using less.prems by (intro psubset_card_mono) auto
    then have "\<exists>e. lintOutbound kind S byTag (oTree @ [?p]) (the (byTag ?p)) = Some e"
      using less by blast
    then show ?thesis
      using False by (subst lintOutbound.simps) (simp add: Let_def)
  qed
qed

lemma start_rounds_returns:
  assumes "finite (dom byTag)"
  shows "\<exists>r. start_rounds kind start byTag obs S = Some r"
proof (induction "card (mo_Tag ` set obs - S)" arbitrary: S rule: less_induct)
  case less
  obtain cs e S' c where pass: "start_pass start obs S False = ((cs, e), S', c)"
    by (metis surj_pair)
  have "\<exists>r. start_rounds kind start byTag obs S' = Some r" if "e = None" "c"
    using less start_pass_decreases [of start obs S cs S'] pass that by simp
  moreover have "\<exists>r. Option.bind (lintOutbound kind S' byTag [mo_Tag x] x) (\<lambda>e'. Some (cs, Some e')) = Some r" for x
    using lintOutbound_returns [OF assms, of kind S' "[mo_Tag x]" x] by auto
  ultimately show ?case
    using pass by (subst start_rounds.simps) (auto split: option.splits)
qed

section \<open>When the start loop succeeds\<close>

text \<open>The dependencies of the objects with tags in a set stay in the set and can be numbered such that every object has a
  higher number than what it depends on.\<close>

definition ranked :: "managed list \<Rightarrow> string set \<Rightarrow> bool" where
  "ranked obs S \<longleftrightarrow> (\<exists>rank :: string \<Rightarrow> nat. \<forall>ob\<in>set obs. mo_Tag ob \<in> S \<longrightarrow>
     (\<forall>d\<in>set (mo_Dependencies ob). d \<in> S \<and> rank d < rank (mo_Tag ob)))"

lemma ranked_insert:
  assumes "ranked obs S" "finite S" "distinct (map mo_Tag obs)" "ob \<in> set obs" "mo_Tag ob \<notin> S" "\<not> blocked S ob"
  shows "ranked obs (insert (mo_Tag ob) S)"
proof -
  obtain rank :: "string \<Rightarrow> nat" where rank: "\<And>ob d. ob \<in> set obs \<Longrightarrow> mo_Tag ob \<in> S \<Longrightarrow> d \<in> set (mo_Dependencies ob) \<Longrightarrow>
      d \<in> S \<and> rank d < rank (mo_Tag ob)"
    using assms(1) by (auto simp: ranked_def)
  define rank' where "rank' = rank(mo_Tag ob := Suc (Max (insert 0 (rank ` S))))"
  have less: "rank d < Suc (Max (insert 0 (rank ` S)))" if "d \<in> S" for d
    using that assms(2) by (intro le_imp_less_Suc Max_ge) auto
  have "d \<in> insert (mo_Tag ob) S \<and> rank' d < rank' (mo_Tag x)"
    if "x \<in> set obs" "mo_Tag x \<in> insert (mo_Tag ob) S" "d \<in> set (mo_Dependencies x)" for x d
  proof (cases "mo_Tag x = mo_Tag ob")
    case True
    then have "x = ob"
      using that(1) assms(3,4) distinct_tag_eq by blast
    then have "d \<in> S"
      using that(3) assms(6) by (auto simp: blocked_def)
    then show ?thesis
      using less assms(5) True by (auto simp: rank'_def)
  next
    case False
    then show ?thesis
      using that rank [of x d] assms(5) by (auto simp: rank'_def)
  qed
  then show ?thesis
    unfolding ranked_def by blast
qed

lemma start_pass_ranked:
  assumes "distinct (map mo_Tag obs)"
  shows "start_pass start obs' S c = ((cs, e), S', c') \<Longrightarrow> set obs' \<subseteq> set obs \<Longrightarrow> finite S \<Longrightarrow> ranked obs S \<Longrightarrow> ranked obs S'"
proof (induction obs' arbitrary: S c cs)
  case (Cons ob obs')
  from Cons.prems(1) show ?case
  proof (cases rule: start_pass_ConsE)
    case skipped
    then show ?thesis
      using Cons by simp
  next
    case failed
    then show ?thesis
      using Cons.prems assms ranked_insert by simp
  next
    case (started cs1 cs2)
    then show ?thesis
      using Cons assms ranked_insert by simp
  qed
qed simp

text \<open>The calls of a pass that succeeds are those of the objects it started.\<close>

definition start_calls :: "(managed \<Rightarrow> calls \<times> err option) \<Rightarrow> (managed \<Rightarrow> bool) \<Rightarrow> managed list \<Rightarrow> (managed \<times> lifecycle_call) multiset" where
  "start_calls start P obs = mset (concat (map (fst \<circ> start) (filter P obs)))"

lemma start_calls_cong: "(\<And>x. x \<in> set obs \<Longrightarrow> P x = Q x) \<Longrightarrow> start_calls start P obs = start_calls start Q obs"
  by (simp add: start_calls_def cong: filter_cong)

lemma start_calls_split:
  "(\<And>x. x \<in> set obs \<Longrightarrow> P x \<longleftrightarrow> Q x \<or> R x) \<Longrightarrow> (\<And>x. x \<in> set obs \<Longrightarrow> \<not> (Q x \<and> R x)) \<Longrightarrow>
   start_calls start P obs = start_calls start Q obs + start_calls start R obs"
  by (induction obs) (auto simp: start_calls_def)

lemma start_pass_calls:
  "start_pass start obs S c = ((cs, None), S', c') \<Longrightarrow> distinct (map mo_Tag obs) \<Longrightarrow>
   mset cs = start_calls start (\<lambda>ob. mo_Tag ob \<in> S' - S) obs"
proof (induction obs arbitrary: S c cs)
  case (Cons ob obs)
  from Cons.prems(1) show ?case
  proof (cases rule: start_pass_ConsE)
    case skipped
    have "mo_Tag ob \<notin> S' - S"
      using start_pass_grows [OF skipped(2)] Cons.prems(2) by auto
    then have "start_calls start (\<lambda>ob. mo_Tag ob \<in> S' - S) (ob # obs) = start_calls start (\<lambda>ob. mo_Tag ob \<in> S' - S) obs"
      by (auto simp: start_calls_def)
    then show ?thesis
      using Cons.IH skipped(2) Cons.prems(2) by simp
  next
    case (started cs1 cs2)
    have "mset cs2 = start_calls start (\<lambda>x. mo_Tag x \<in> S' - insert (mo_Tag ob) S) obs"
      using Cons.IH started(4) Cons.prems(2) by simp
    also have "\<dots> = start_calls start (\<lambda>x. mo_Tag x \<in> S' - S) obs"
      using Cons.prems(2) by (intro start_calls_cong) (auto simp: rev_image_eqI)
    finally show ?thesis
      using started start_pass_grows [OF started(4)] by (simp add: start_calls_def)
  qed simp
qed (simp add: start_calls_def)

lemma start_rounds_success:
  assumes "finite S" "S \<subseteq> mo_Tag ` set obs" "start_rounds kind start byTag obs S = Some (cs, None)"
  shows "distinct (map mo_Tag obs) \<and> (ranked obs S \<longrightarrow> ranked obs (mo_Tag ` set obs)) \<and>
    mset cs = start_calls start (\<lambda>ob. mo_Tag ob \<notin> S) obs"
  using assms
proof (induction "card (mo_Tag ` set obs - S)" arbitrary: S cs rule: less_induct)
  case less
  obtain cs1 e S' c where pass: "start_pass start obs S False = ((cs1, e), S', c)"
    by (metis surj_pair)
  have e: "e = None"
    using less.prems(3) pass by (subst (asm) start_rounds.simps) (auto split: if_splits)
  note pass' = pass [unfolded e]
  have S': "finite S'" "S \<subseteq> S'" "S' \<subseteq> mo_Tag ` set obs"
    using finite_start_pass [OF less.prems(1) pass] start_pass_grows [OF pass] less.prems(2) by auto
  show ?case
  proof (cases "card S' = length obs")
    case True
    then have "card (set (map mo_Tag obs)) = length (map mo_Tag obs)"
      using card_mono [OF _ S'(3)] card_length [of "map mo_Tag obs"] by auto
    then have d: "distinct (map mo_Tag obs)"
      by (rule card_distinct)
    have all: "S' = mo_Tag ` set obs"
      using S'(3) True \<open>card (set (map mo_Tag obs)) = _\<close> by (intro card_subset_eq) auto
    have "cs = cs1"
      using less.prems(3) pass e True by (subst (asm) start_rounds.simps) simp
    then have "mset cs = start_calls start (\<lambda>ob. mo_Tag ob \<notin> S) obs"
      using start_pass_calls [OF pass' d] all by (simp cong: start_calls_cong)
    then show ?thesis
      using d start_pass_ranked [OF d pass] less.prems(1) all by auto
  next
    case False
    then obtain cs2 where c: "c" "start_rounds kind start byTag obs S' = Some (cs2, None)" "cs = cs1 @ cs2"
      using less.prems(3) pass e by (subst (asm) start_rounds.simps) (auto split: if_splits option.splits bind_splits)
    have IH: "distinct (map mo_Tag obs)" "ranked obs S' \<Longrightarrow> ranked obs (mo_Tag ` set obs)"
      "mset cs2 = start_calls start (\<lambda>ob. mo_Tag ob \<notin> S') obs"
      using less.hyps [OF _ S'(1,3) c(2)] start_pass_decreases [of start obs S cs1 S'] pass' c(1) by auto
    have "mset cs = start_calls start (\<lambda>ob. mo_Tag ob \<notin> S) obs"
      unfolding c(3) mset_append start_pass_calls [OF pass' IH(1)] IH(3)
      by (rule start_calls_split [symmetric]) (use S' in auto)
    then show ?thesis
      using IH start_pass_ranked [OF IH(1) pass] less.prems(1) by auto
  qed
qed

lemma ranked_progress:
  assumes "distinct (map mo_Tag obs)" "ranked obs (mo_Tag ` set obs)" "S \<subseteq> mo_Tag ` set obs" "card S \<noteq> length obs"
  shows "\<exists>ob\<in>set obs. mo_Tag ob \<notin> S \<and> \<not> blocked S ob"
proof -
  obtain rank :: "string \<Rightarrow> nat" where rank: "\<And>ob d. ob \<in> set obs \<Longrightarrow> d \<in> set (mo_Dependencies ob) \<Longrightarrow>
      d \<in> mo_Tag ` set obs \<and> rank d < rank (mo_Tag ob)"
    using assms(2) by (fastforce simp: ranked_def)
  have "S \<noteq> mo_Tag ` set obs"
    using assms(1,4) distinct_card [of "map mo_Tag obs"] by auto
  then obtain ob0 where "ob0 \<in> set obs" "mo_Tag ob0 \<notin> S"
    using assms(3) by auto
  then obtain ob where ob: "ob \<in> set obs" "mo_Tag ob \<notin> S"
    and least: "\<And>x. x \<in> set obs \<Longrightarrow> mo_Tag x \<notin> S \<Longrightarrow> rank (mo_Tag ob) \<le> rank (mo_Tag x)"
    using ex_has_least_nat [of "\<lambda>x. x \<in> set obs \<and> mo_Tag x \<notin> S" ob0 "\<lambda>x. rank (mo_Tag x)"] by blast
  have "d \<in> S" if d: "d \<in> set (mo_Dependencies ob)" for d
  proof (rule ccontr)
    assume "d \<notin> S"
    then obtain x where "x \<in> set obs" "mo_Tag x = d"
      using rank [OF ob(1) d] by blast
    then show False
      using least [of x] rank [OF ob(1) d] \<open>d \<notin> S\<close> by simp
  qed
  then show ?thesis
    using ob by (auto simp: blocked_def)
qed

lemma start_rounds_complete:
  assumes "\<And>ob. ob \<in> set obs \<Longrightarrow> snd (start ob) = None" "distinct (map mo_Tag obs)" "ranked obs (mo_Tag ` set obs)"
    and "finite S" "S \<subseteq> mo_Tag ` set obs"
  shows "\<exists>cs. start_rounds kind start byTag obs S = Some (cs, None)"
  using assms(4,5)
proof (induction "card (mo_Tag ` set obs - S)" arbitrary: S rule: less_induct)
  case less
  obtain cs e S' c where pass0: "start_pass start obs S False = ((cs, e), S', c)"
    by (metis surj_pair)
  have "e = None"
    by (rule start_pass_ok [OF assms(1) pass0])
  with pass0 have pass: "start_pass start obs S False = ((cs, None), S', c)"
    by simp
  have S': "finite S'" "S' \<subseteq> mo_Tag ` set obs"
    using finite_start_pass [OF less.prems(1) pass] start_pass_grows [OF pass] less.prems(2) by auto
  show ?case
  proof (cases "card S' = length obs")
    case True
    then show ?thesis
      using pass by (subst start_rounds.simps) simp
  next
    case False
    have "c"
    proof (rule ccontr)
      assume "\<not> c"
      then have "S' = S"
        using start_pass_continue [OF pass] by simp
      then show False
        using ranked_progress [OF assms(2,3) S'(2) False] start_pass_stuck [OF pass [unfolded \<open>S' = S\<close>]] by auto
    qed
    then obtain cs' where "start_rounds kind start byTag obs S' = Some (cs', None)"
      using less.hyps [OF _ S'] start_pass_decreases [of start obs S cs S'] pass by auto
    then show ?thesis
      using pass False \<open>c\<close> by (subst start_rounds.simps) simp
  qed
qed

section \<open>The order of the calls\<close>

text \<open>A tag counts as started after some calls when an object with the tag has nothing to start or was started by one of
  the calls without an error.\<close>

definition started_by :: "answers \<Rightarrow> managed list \<Rightarrow> calls \<Rightarrow> string \<Rightarrow> bool" where
  "started_by ans obs cs tag \<longleftrightarrow> (\<exists>ob\<in>set obs. mo_Tag ob = tag \<and>
     (fst (LegacyStart ans ob StartStateStart) = [] \<or> (\<exists>c. (ob, c) \<in> set cs \<and> ans ob c = None)))"

definition in_order :: "answers \<Rightarrow> managed list \<Rightarrow> calls \<Rightarrow> calls \<Rightarrow> bool" where
  "in_order ans obs before cs \<longleftrightarrow>
     (\<forall>i<length cs. \<forall>d\<in>set (mo_Dependencies (fst (cs ! i))). started_by ans obs (before @ take i cs) d)"

lemma started_by_mono: "started_by ans obs cs tag \<Longrightarrow> set cs \<subseteq> set cs' \<Longrightarrow> started_by ans obs cs' tag"
  by (auto simp: started_by_def)

lemma in_order_append: "in_order ans obs before (cs @ cs') \<longleftrightarrow> in_order ans obs before cs \<and> in_order ans obs (before @ cs) cs'"
proof -
  have "(\<forall>i<length cs + length cs'. P i) \<longleftrightarrow> (\<forall>i<length cs. P i) \<and> (\<forall>i<length cs'. P (length cs + i))" for P
  proof -
    have "P i" if "\<forall>i<length cs. P i" "\<forall>i<length cs'. P (length cs + i)" "i < length cs + length cs'" for i
      using that(1,3) that(2) [rule_format, of "i - length cs"] by (cases "i < length cs") auto
    then show ?thesis
      by auto
  qed
  from this [of "\<lambda>i. \<forall>d\<in>set (mo_Dependencies (fst ((cs @ cs') ! i))). started_by ans obs (before @ take i (cs @ cs')) d"]
  show ?thesis
    by (simp add: in_order_def nth_append)
qed

lemma LegacyStart_calls:
  "LegacyStart ans ob stage = (cs, e) \<Longrightarrow> cs = [] \<and> e = None \<or> (\<exists>c. cs = [(ob, c)] \<and> e = ans ob c)"
  by (auto simp: LegacyStart_def call_def split: if_splits)

lemma start_pass_order:
  "start_pass (\<lambda>ob. LegacyStart ans ob StartStateStart) obs' S c = ((cs, e), S', c') \<Longrightarrow> set obs' \<subseteq> set obs \<Longrightarrow>
   (\<And>tag. tag \<in> S \<Longrightarrow> started_by ans obs before tag) \<Longrightarrow>
   in_order ans obs before cs \<and> (e = None \<longrightarrow> (\<forall>tag\<in>S'. started_by ans obs (before @ cs) tag))"
proof (induction obs' arbitrary: S c cs before)
  case Nil
  then show ?case
    by (simp add: in_order_def)
next
  case (Cons ob obs')
  have first: "in_order ans obs before cs1" if "LegacyStart ans ob StartStateStart = (cs1, e1)" "\<not> blocked S ob" for cs1 e1
    using LegacyStart_calls [OF that(1)] that(2) Cons.prems(3) by (auto simp: in_order_def blocked_def)
  from Cons.prems(1) show ?case
  proof (cases rule: start_pass_ConsE)
    case (started cs1 cs2)
    have *: "started_by ans obs (before @ cs1) tag" if "tag \<in> insert (mo_Tag ob) S" for tag
    proof (cases "tag = mo_Tag ob")
      case True
      then show ?thesis
        using LegacyStart_calls [OF started(3)] started(3) Cons.prems(2) by (force simp: started_by_def)
    qed (use that Cons.prems(3) started_by_mono [of ans obs before tag "before @ cs1"] in auto)
    show ?thesis
      using Cons.IH [OF started(4) _ *] Cons.prems(2) first [OF started(3,2)] started(5) by (simp add: in_order_append)
  qed (use Cons first in auto)
qed

lemma start_rounds_order:
  "start_rounds kind (\<lambda>ob. LegacyStart ans ob StartStateStart) byTag obs S = Some (cs, e) \<Longrightarrow>
   (\<And>tag. tag \<in> S \<Longrightarrow> started_by ans obs before tag) \<Longrightarrow> in_order ans obs before cs"
proof (induction "card (mo_Tag ` set obs - S)" arbitrary: S cs before rule: less_induct)
  case less
  obtain cs1 e1 S' c where pass: "start_pass (\<lambda>ob. LegacyStart ans ob StartStateStart) obs S False = ((cs1, e1), S', c)"
    by (metis surj_pair)
  note first = start_pass_order [OF pass order_refl less.prems(2)]
  consider "cs = cs1" | cs2 where "e1 = None" "c" "cs = cs1 @ cs2"
      "start_rounds kind (\<lambda>ob. LegacyStart ans ob StartStateStart) byTag obs S' = Some (cs2, e)"
    using less.prems(1) pass by (subst (asm) start_rounds.simps) (auto split: if_splits option.splits bind_splits)
  then show ?case
  proof cases
    case 1
    then show ?thesis
      using first by simp
  next
    case (2 cs2)
    have "in_order ans obs (before @ cs1) cs2"
      using less.hyps [OF _ 2(4)] first 2(1,2) start_pass_decreases [of _ obs S cs1 S'] pass by simp
    then show ?thesis
      using first 2(3) by (simp add: in_order_append)
  qed
qed

section \<open>The table of outbounds\<close>

text \<open>Every operation but closing keeps the table of tags; closing empties the list and leaves the map.\<close>

lemma tagged_outbound_NewManager: "tagged (outbound_NewManager tag)"
  by (simp add: tagged_def outbound_NewManager_def)

lemma outbound_Remove_tagged:
  assumes "tagged m" "outbound_Remove ans tag m = (cs, e, m')"
  shows "tagged m'"
proof (cases "mg_byTag m tag")
  case (Some ob)
  then have "mg_objects m' = remove1 ob (mg_objects m)" "mg_byTag m' = (mg_byTag m)(tag := None)"
    using assms
    by (auto simp: outbound_Remove_def delete_object_ok next_default_def Let_def split: if_splits prod.splits)
  then show ?thesis
    by (rule tagged_without [OF assms(1) Some])
qed (use assms in \<open>simp add: outbound_Remove_def\<close>)

lemma outbound_Create_tagged:
  assumes "tagged m" "\<And>ob. registry_Create ''outbound type not found'' reg tag type' = Inr ob \<Longrightarrow> mo_Tag ob = tag"
    and "outbound_Create ans reg tag type' m = (cs, e, m')"
  shows "tagged m'"
proof -
  consider "m' = m" | ob cs1 m1 where "registry_Create ''outbound type not found'' reg tag type' = Inr ob"
      "replace_object ''invalid inbound index'' (common_Close ans) tag m = (cs1, Inr m1)"
      "mg_objects m' = mg_objects (insert_object tag ob m1)" "mg_byTag m' = mg_byTag (insert_object tag ob m1)"
    using assms(3) by (auto simp: outbound_Create_def Let_def split: if_splits sum.splits prod.splits option.splits)
  then show ?thesis
    using assms(1) assms(2) replace_object_insert [OF assms(1)] by cases (auto cong: tagged_cong)
qed

section \<open>Properties\<close>

text \<open>
  C14. All outbounds and endpoints get started whenever that is possible: if no object fails to start, the
  start loop succeeds and makes the start call of every object exactly once if the tags are different and the
  dependencies can be numbered such that every object depends only on objects of the list with smaller numbers, that is,
  they exist and have no cycle. In every other case the loop does not succeed.
\<close>

theorem startOutbounds_complete:
  assumes "\<forall>ob\<in>set obs. snd (LegacyStart ans ob StartStateStart) = None"
  shows "(\<exists>cs. startOutbounds ans byTag obs = Some (cs, None) \<and>
           mset cs = mset (concat (map (\<lambda>ob. fst (LegacyStart ans ob StartStateStart)) obs))) \<longleftrightarrow>
         distinct (map mo_Tag obs) \<and>
         (\<exists>rank :: string \<Rightarrow> nat. \<forall>ob\<in>set obs. \<forall>d\<in>set (mo_Dependencies ob).
            \<exists>ob'\<in>set obs. mo_Tag ob' = d \<and> rank d < rank (mo_Tag ob))" (is "?started \<longleftrightarrow> _ \<and> ?rank")
proof -
  let ?start = "\<lambda>ob. LegacyStart ans ob StartStateStart"
  have rank: "?rank \<longleftrightarrow> ranked obs (mo_Tag ` set obs)"
    unfolding ranked_def by (intro arg_cong [of _ _ Ex] ext ball_cong refl) (use imageE image_eqI in fast)
  have empty: "ranked obs {}"
    by (simp add: ranked_def)
  have all: "start_calls ?start (\<lambda>ob. mo_Tag ob \<notin> {}) obs = mset (concat (map (\<lambda>ob. fst (?start ob)) obs))"
    by (simp add: start_calls_def comp_def)
  have success: "distinct (map mo_Tag obs) \<and> ranked obs (mo_Tag ` set obs) \<and>
      mset cs = mset (concat (map (\<lambda>ob. fst (?start ob)) obs))"
    if "start_rounds ''outbound'' ?start byTag obs {} = Some (cs, None)" for cs
    using start_rounds_success [OF _ _ that] empty unfolding all by simp
  have complete: "\<exists>cs. start_rounds ''outbound'' ?start byTag obs {} = Some (cs, None)"
    if "distinct (map mo_Tag obs)" "ranked obs (mo_Tag ` set obs)"
    using start_rounds_complete [of obs ?start "{}" _ byTag] assms that by simp
  show ?thesis
    unfolding rank startOutbounds_def using success complete by blast
qed

text \<open>Three objects in the wrong order: the first depends on the last, the second on the first.\<close>

definition sample_object :: "nat \<Rightarrow> string \<Rightarrow> string list \<Rightarrow> managed" where
  "sample_object i tag deps = \<lparr>mo_Id = i, mo_Type = ''direct'', mo_Tag = tag, mo_Dependencies = deps, mo_Lifecycle = True,
     mo_PreStarter = False, mo_Starter = False, mo_PostStarter = False, mo_Closer = True\<rparr>"

definition sample_objects :: "managed list" where
  "sample_objects = [sample_object 0 ''a'' [''c''], sample_object 1 ''b'' [''a''], sample_object 2 ''c'' []]"

theorem startOutbounds_complete_witness:
  "\<exists>cs. startOutbounds (\<lambda>_ _. None) Map.empty sample_objects = Some (cs, None) \<and>
     mset cs = mset (map (\<lambda>ob. (ob, CallStage StartStateStart)) sample_objects)"
proof -
  have "\<exists>rank :: string \<Rightarrow> nat. \<forall>ob\<in>set sample_objects. \<forall>d\<in>set (mo_Dependencies ob).
      \<exists>ob'\<in>set sample_objects. mo_Tag ob' = d \<and> rank d < rank (mo_Tag ob)"
    by (rule exI [of _ "\<lambda>tag. if tag = ''c'' then 0 else if tag = ''a'' then 1 else 2"])
      (simp add: sample_objects_def sample_object_def)
  then show ?thesis
    using startOutbounds_complete [of sample_objects "\<lambda>_ _. None" Map.empty]
    by (simp add: sample_objects_def sample_object_def LegacyStart_def call_def)
qed

text \<open>
  C15. The start loop returns, whatever the dependencies are and whichever objects fail: it starts at least one
  object in every round but the last, and the search for the reason of a failure never visits a tag
  twice. (A map of the program is finite.)
\<close>

theorem startOutbounds_returns:
  assumes "finite (dom byTag)"
  shows "\<exists>cs e. startOutbounds ans byTag obs = Some (cs, e)"
  using start_rounds_returns [OF assms] by (simp add: startOutbounds_def)

theorem startOutbounds_returns_witness:
  "\<exists>cs e. startOutbounds (\<lambda>_ _. None) [''a'' \<mapsto> sample_object 0 ''a'' [''b''], ''b'' \<mapsto> sample_object 1 ''b'' [''a'']]
     [sample_object 0 ''a'' [''b''], sample_object 1 ''b'' [''a'']] = Some (cs, e)"
  by (rule startOutbounds_returns) simp

text \<open>
  C16. No outbound or endpoint is started before what it depends on, also when the loop ends with an error: every
  dependency of the object of a call has nothing to start or was started by an earlier call without an error.
\<close>

theorem startOutbounds_order:
  assumes "startOutbounds ans byTag obs = Some (cs, e)" "i < length cs" "d \<in> set (mo_Dependencies (fst (cs ! i)))"
  shows "\<exists>ob\<in>set obs. mo_Tag ob = d \<and>
    (fst (LegacyStart ans ob StartStateStart) = [] \<or> (\<exists>j<i. fst (cs ! j) = ob \<and> ans ob (snd (cs ! j)) = None))"
proof -
  have "in_order ans obs [] cs"
    using start_rounds_order [of _ ans byTag obs "{}" cs e "[]"] assms(1) by (simp add: startOutbounds_def)
  then have "started_by ans obs (take i cs) d"
    using assms(2,3) by (simp add: in_order_def)
  moreover have "\<exists>j<i. fst (cs ! j) = ob \<and> ans ob (snd (cs ! j)) = None" if "(ob, c) \<in> set (take i cs)" "ans ob c = None" for ob c
    using that assms(2) by (auto simp: in_set_conv_nth)
  ultimately show ?thesis
    unfolding started_by_def by blast
qed

lemma sample_start:
  "startOutbounds (\<lambda>_ _. None) Map.empty [sample_object 0 ''a'' [''c''], sample_object 2 ''c'' []] =
     Some ([(sample_object 2 ''c'' [], CallStage 1), (sample_object 0 ''a'' [''c''], CallStage 1)], None)"
  unfolding startOutbounds_def
  by (subst start_rounds.simps, simp add: sample_object_def LegacyStart_def call_def stage_defs,
      subst start_rounds.simps, simp add: LegacyStart_def call_def)

theorem startOutbounds_order_witness:
  "\<exists>ob\<in>set [sample_object 0 ''a'' [''c''], sample_object 2 ''c'' []]. mo_Tag ob = ''c'' \<and>
     (fst (LegacyStart (\<lambda>_ _. None) ob StartStateStart) = [] \<or>
      (\<exists>j<1. fst ([(sample_object 2 ''c'' [], CallStage 1), (sample_object 0 ''a'' [''c''], CallStage 1)] ! j) = ob \<and>
         (None :: err option) = None))"
  using startOutbounds_order [OF sample_start, of 1 "''c''"] by (simp add: sample_object_def)

text \<open>
  C17. A removal that is refused because another outbound depends on the outbound has removed it all the same, from the list,
  from the map and as the default, and has not closed it.
\<close>

theorem outbound_Remove_refused:
  assumes "tagged m" "mg_byTag m tag = Some ob" "om_dependByTag m tag \<noteq> []"
  shows "\<exists>m'. outbound_Remove ans tag m = ([], Some (Err ''outbound is depended by others''), m') \<and>
    mg_byTag m' tag = None \<and> ob \<notin> set (mg_objects m') \<and> om_defaultOutbound m' \<noteq> Some ob"
proof -
  have "ob \<notin> set (remove1 ob (mg_objects m))"
    using tagged_D(2) [OF assms(1)] by simp
  then show ?thesis
    using assms
    by (auto simp: outbound_Remove_def delete_object_ok next_default_def Let_def split: list.splits)
qed

definition sample_manager :: outbound_manager where
  "sample_manager = \<lparr>mg_started = True, mg_stage = 3, mg_objects = [sample_object 0 ''a'' [], sample_object 1 ''b'' [''a'']],
     mg_byTag = [''a'' \<mapsto> sample_object 0 ''a'' [], ''b'' \<mapsto> sample_object 1 ''b'' [''a'']], om_defaultTag = [],
     om_dependByTag = (\<lambda>_. [])(''a'' := [''b'']), om_defaultOutbound = Some (sample_object 0 ''a'' [])\<rparr>"

lemma sample_manager_tagged: "tagged sample_manager"
  by (auto simp: tagged_def sample_manager_def sample_object_def)

theorem outbound_Remove_refused_witness:
  "\<exists>m'. outbound_Remove (\<lambda>_ _. None) ''a'' sample_manager = ([], Some (Err ''outbound is depended by others''), m') \<and>
     mg_byTag m' ''a'' = None \<and> sample_object 0 ''a'' [] \<notin> set (mg_objects m') \<and> om_defaultOutbound m' \<noteq> Some (sample_object 0 ''a'' [])"
  by (rule outbound_Remove_refused [OF sample_manager_tagged]) (simp_all add: sample_manager_def)

text \<open>
  Creating an outbound again under the tag of the default outbound, when the default was not configured
  by its tag, closes the old outbound and takes it out of the table but leaves it as the default.
\<close>

theorem outbound_Create_stale_default:
  assumes "tagged m" "mg_started m" "om_defaultTag m = []" "om_defaultOutbound m = Some old" "mg_byTag m tag = Some old"
    and "mo_Closer old" "tag \<noteq> []" "reg type' = Some (\<lambda>tag. Inr new)" "new \<noteq> old" "\<And>ob c. ans ob c = None"
  shows "\<exists>cs m'. outbound_Create ans reg tag type' m = (cs @ [(old, CallClose)], None, m') \<and>
    mg_byTag m' tag = Some new \<and> old \<notin> set (mg_objects m') \<and> om_defaultOutbound m' = Some old"
proof -
  have "old \<in> set (mg_objects m)" "old \<notin> set (remove1 old (mg_objects m))"
    using tagged_D [OF assms(1)] assms(5) by auto
  moreover have "start_each (LegacyStart ans new) stages = (fst (start_each (LegacyStart ans new) stages), None)" for stages
    using assms(10) by (induction stages) (auto simp: LegacyStart_def call_def split: prod.splits)
  then have "start_created ans new m = (fst (start_created ans new m), None)"
    using assms(2) unfolding start_created_def by simp
  moreover have "replace_object ''invalid inbound index'' (common_Close ans) tag m =
      ([(old, CallClose)], Inr (m\<lparr>mg_objects := remove1 old (mg_objects m)\<rparr>))"
    using assms(2,5,6,10) \<open>old \<in> _\<close> by (simp add: replace_object_def common_Close_def call_def delete_object_def)
  ultimately show ?thesis
    using assms(3,4,7,8,9)
    by (auto simp: outbound_Create_def registry_Create_def insert_object_def Let_def split: prod.splits option.splits)
qed

theorem outbound_Create_stale_default_witness:
  "\<exists>cs m'. outbound_Create (\<lambda>_ _. None) [''direct'' \<mapsto> (\<lambda>tag. Inr (sample_object 7 ''a'' []))] ''a'' ''direct'' sample_manager =
       (cs @ [(sample_object 0 ''a'' [], CallClose)], None, m') \<and>
     mg_byTag m' ''a'' = Some (sample_object 7 ''a'' []) \<and> sample_object 0 ''a'' [] \<notin> set (mg_objects m') \<and>
     om_defaultOutbound m' = Some (sample_object 0 ''a'' [])"
  by (rule outbound_Create_stale_default [OF sample_manager_tagged]) (simp_all add: sample_manager_def sample_object_def)

end
