(* ===== verification/Dns_Client.thy ===== *)
theory Dns_Client
  imports Metadata
begin

text \<open>
  The DNS client (\<^verbatim>\<open>src/dns/client.go\<close>, \<^verbatim>\<open>src/dns/extension_edns0_subnet.go\<close>): it
  sends a query to a transport, unless the answer is in its cache, checks the response for the router,
  rewrites the times to live and stores the response.

  The cache is either in memory or a persistent store. The memory cache is an LRU cache of another package:
  here it is a map, and adding to it first drops the entries that the parameter \<open>evict\<close> chooses.
  The functions of the package \<^verbatim>\<open>miekg/dns\<close> that look into or encode messages are parameters.
  Two queries for the same key wait for each other, so an exchange is one step on the state of the client.
\<close>

section \<open>Transports, options and errors\<close>

text \<open>A transport by its tag and type; what it answers is a field of the environment of an exchange.\<close>

record dns_transport =
  tr_Tag :: string
  tr_Type :: string

definition DNSTypeFakeIP :: string where "DNSTypeFakeIP = ''fakeip''"

definition DomainStrategyAsIS :: u8 where "DomainStrategyAsIS = 0"
definition DomainStrategyPreferIPv4 :: u8 where "DomainStrategyPreferIPv4 = 1"
definition DomainStrategyPreferIPv6 :: u8 where "DomainStrategyPreferIPv6 = 2"
definition DomainStrategyIPv4Only :: u8 where "DomainStrategyIPv4Only = 3"
definition DomainStrategyIPv6Only :: u8 where "DomainStrategyIPv6Only = 4"

lemmas strategy_defs = DomainStrategyAsIS_def DomainStrategyPreferIPv4_def DomainStrategyPreferIPv6_def
  DomainStrategyIPv4Only_def DomainStrategyIPv6Only_def

record DNSQueryOptions =
  qo_Transport :: "dns_transport option"
  qo_Strategy :: u8
  qo_LookupStrategy :: u8
  qo_DisableCache :: bool
  qo_DisableOptimisticCache :: bool
  qo_RewriteTTL :: "u32 option"
  qo_ClientSubnet :: prefix

datatype dns_error =
    ErrResponseRejected
  | ErrResponseRejectedCached
  | ErrNotCached
  | RcodeError int
  | ErrOther err
  | ErrCause string dns_error

type_synonym 'a dns_result = "dns_error + 'a"

definition RcodeFormatError :: int where "RcodeFormatError = 1"
definition RcodeNameError :: int where "RcodeNameError = 3"
definition RcodeRefused :: int where "RcodeRefused = 5"

text \<open>What the sources call of \<^verbatim>\<open>miekg/dns\<close>.\<close>

record dnslib =
  IsEdns0 :: "dns_msg \<Rightarrow> rr option"
  EdnsVersion :: "rr \<Rightarrow> u8"
  EdnsUDPSize :: "rr \<Rightarrow> u16"
  EdnsDo :: "rr \<Rightarrow> bool"
  SetEdns0 :: "dns_msg \<Rightarrow> u16 \<Rightarrow> bool \<Rightarrow> dns_msg"
  Pack :: "dns_msg \<Rightarrow> byte list result"
  Unpack :: "byte list \<Rightarrow> dns_msg result"
  IsFqdn :: "string \<Rightarrow> bool"
  Fqdn :: "string \<Rightarrow> string"

definition FqdnToDomain :: "dnslib \<Rightarrow> string \<Rightarrow> string" where
  "FqdnToDomain dl fqdn = (if IsFqdn dl fqdn then take (length fqdn - 1) fqdn else fqdn)"

section \<open>The client subnet\<close>

text \<open>The loop that looks for the OPT record and its subnet option. A type assertion that fails resets the
  variable, so a record that is not an OPT record after one makes the loop forget it.\<close>

fun find_option :: "edns0_option list \<Rightarrow> nat \<Rightarrow> nat option" where
  "find_option [] j = None"
| "find_option (EDNS0_SUBNET f n s a # rest) j = Some j"
| "find_option (EDNS0_Other c d # rest) j = find_option rest (Suc j)"

fun find_exists :: "rr list \<Rightarrow> nat \<Rightarrow> nat option \<Rightarrow> nat option \<times> nat option" where
  "find_exists [] i optRecord = (optRecord, None)"
| "find_exists (record' # rest) i optRecord =
     (case rr_Data record' of
        RD_OPT opts \<Rightarrow>
          (case find_option opts 0 of
             Some j \<Rightarrow> (Some i, Some j)
           | None \<Rightarrow> find_exists rest (Suc i) (Some i))
      | _ \<Rightarrow> find_exists rest (Suc i) None)"

definition subnet_option :: "prefix \<Rightarrow> u8 \<Rightarrow> edns0_option" where
  "subnet_option clientSubnet scope =
     EDNS0_SUBNET (if addr_Is4 (prefix_Addr clientSubnet) then 1 else 2)
       (case prefix_Bits clientSubnet of Some n \<Rightarrow> of_nat n | None \<Rightarrow> -1) scope (addr_AsSlice (prefix_Addr clientSubnet))"

definition set_option :: "prefix \<Rightarrow> nat option \<Rightarrow> edns0_option list \<Rightarrow> edns0_option list" where
  "set_option clientSubnet subnetOption opts =
     (case subnetOption of
        None \<Rightarrow> opts @ [subnet_option clientSubnet 0]
      | Some j \<Rightarrow> opts[j := subnet_option clientSubnet (edns_SourceScope (opts ! j))])"

definition SetClientSubnet :: "dns_msg \<Rightarrow> prefix \<Rightarrow> dns_msg" where
  "SetClientSubnet message clientSubnet =
     (case find_exists (msg_Extra message) 0 None of
        (None, subnetOption) \<Rightarrow>
          message\<lparr>msg_Extra := msg_Extra message @
            [\<lparr>rr_Name = ''.'', rr_Rrtype = TypeOPT, rr_Class = 0, rr_Ttl = 0,
              rr_Data = RD_OPT (set_option clientSubnet None [])\<rparr>]\<rparr>
      | (Some i, subnetOption) \<Rightarrow>
          (case rr_Data (msg_Extra message ! i) of
             RD_OPT opts \<Rightarrow>
               message\<lparr>msg_Extra := (msg_Extra message)[i :=
                 (msg_Extra message ! i)\<lparr>rr_Data := RD_OPT (set_option clientSubnet subnetOption opts)\<rparr>]\<rparr>
           | _ \<Rightarrow> message))"

section \<open>Times to live\<close>

fun extractNegativeTTL :: "rr list \<Rightarrow> u32 option" where
  "extractNegativeTTL [] = None"
| "extractNegativeTTL (record' # rest) =
     (case rr_Data record' of
        RD_SOA soaMinimum \<Rightarrow> Some (if rr_Ttl record' < soaMinimum then rr_Ttl record' else soaMinimum)
      | _ \<Rightarrow> extractNegativeTTL rest)"

definition msg_records :: "dns_msg \<Rightarrow> rr list" where
  "msg_records response = msg_Answer response @ msg_Ns response @ msg_Extra response"

definition ttl_step :: "u32 \<Rightarrow> rr \<Rightarrow> u32" where
  "ttl_step timeToLive record' =
     (if rr_Rrtype record' = TypeOPT then timeToLive
      else if timeToLive = 0 \<or> rr_Ttl record' > 0 \<and> rr_Ttl record' < timeToLive then rr_Ttl record'
      else timeToLive)"

definition computeTimeToLive :: "dns_msg \<Rightarrow> u32" where
  "computeTimeToLive response =
     (case (msg_Answer response, extractNegativeTTL (msg_Ns response)) of
        ([], Some soaTTL) \<Rightarrow> soaTTL
      | _ \<Rightarrow> foldl ttl_step 0 (msg_records response))"

definition set_ttl :: "u32 \<Rightarrow> rr \<Rightarrow> rr" where
  "set_ttl timeToLive record' = (if rr_Rrtype record' = TypeOPT then record' else record'\<lparr>rr_Ttl := timeToLive\<rparr>)"

definition normalizeTTL :: "u32 \<Rightarrow> dns_msg \<Rightarrow> dns_msg" where
  "normalizeTTL timeToLive response = response\<lparr>
     msg_Answer := map (set_ttl timeToLive) (msg_Answer response),
     msg_Ns := map (set_ttl timeToLive) (msg_Ns response),
     msg_Extra := map (set_ttl timeToLive) (msg_Extra response)\<rparr>"

definition keep_hint :: "u8 \<Rightarrow> svcb_value \<Rightarrow> bool" where
  "keep_hint strategy it =
     (if strategy = DomainStrategyIPv4Only then (case it of SVCBIPv6Hint _ \<Rightarrow> False | _ \<Rightarrow> True)
      else (case it of SVCBIPv4Hint _ \<Rightarrow> False | _ \<Rightarrow> True))"

definition strip_hints :: "u8 \<Rightarrow> rr \<Rightarrow> rr" where
  "strip_hints strategy r =
     (case rr_Data r of RD_HTTPS values \<Rightarrow> r\<lparr>rr_Data := RD_HTTPS (filter (keep_hint strategy) values)\<rparr> | _ \<Rightarrow> r)"

definition applyResponseOptions :: "question \<Rightarrow> DNSQueryOptions \<Rightarrow> dns_msg \<Rightarrow> u32 \<times> dns_msg" where
  "applyResponseOptions question options response =
     (let response1 =
            (if q_Qtype question = TypeHTTPS \<and>
                (qo_Strategy options = DomainStrategyIPv4Only \<or> qo_Strategy options = DomainStrategyIPv6Only)
             then response\<lparr>msg_Answer := map (strip_hints (qo_Strategy options)) (msg_Answer response)\<rparr>
             else response);
          timeToLive = (case qo_RewriteTTL options of Some t \<Rightarrow> t | None \<Rightarrow> computeTimeToLive response1)
      in (timeToLive, normalizeTTL timeToLive response1))"

section \<open>The state of the client and its cache\<close>

record dnsCacheKey =
  key_Question :: question
  key_transportTag :: string

type_synonym memory_cache = "dnsCacheKey \<rightharpoonup> dns_msg \<times> int"
type_synonym store_key = "string \<times> string \<times> u16"

record dns_client =
  c_disableCache :: bool
  c_disableExpire :: bool
  c_optimisticTimeout :: int
  c_clientSubnet :: prefix
  c_rdrc :: "store_key set option"
  c_dnsCache :: "(store_key \<rightharpoonup> byte list \<times> int) option"
  c_cache :: "memory_cache option"
  c_backgroundRefresh :: "dnsCacheKey set"

text \<open>The environment of an exchange: the times at which the cache is read and written, the transport tag
  of the context, the error when waiting for another query of the key is cancelled, and what the transport
  answers.\<close>

datatype upstream = Answered dns_msg | AnsweredRcode int | Failed err

record exchange_env =
  xe_Now :: int
  xe_Done :: int
  xe_ContextTag :: "string option"
  xe_WaitError :: "err option"
  xe_Upstream :: "dns_transport \<Rightarrow> dns_msg \<Rightarrow> upstream"
  xe_Evict :: "memory_cache \<Rightarrow> memory_cache"

definition initializeMemoryCache :: "dns_client \<Rightarrow> dns_client" where
  "initializeMemoryCache c = (if c_disableCache c \<or> c_cache c \<noteq> None then c else c\<lparr>c_cache := Some Map.empty\<rparr>)"

text \<open>The two stores come from the functions given to the client, when there are any; the client made
  without the second has a memory cache at once.\<close>

definition client_Start ::
    "store_key set option option \<Rightarrow> (store_key \<rightharpoonup> byte list \<times> int) option option \<Rightarrow> dns_client \<Rightarrow> dns_client" where
  "client_Start initRDRC initDNSCache c =
     (let c1 = (case initRDRC of None \<Rightarrow> c | Some store \<Rightarrow> c\<lparr>c_rdrc := store\<rparr>);
          c2 = (case initDNSCache of None \<Rightarrow> c1 | Some store \<Rightarrow> c1\<lparr>c_dnsCache := store\<rparr>)
      in if c_dnsCache c2 = None then initializeMemoryCache c2 else c2)"

definition NewClient :: "bool \<Rightarrow> bool \<Rightarrow> int \<Rightarrow> prefix \<Rightarrow> bool \<Rightarrow> dns_client" where
  "NewClient disableCache disableExpire optimisticTimeout clientSubnet hasDNSCacheFunc =
     (let c = \<lparr>c_disableCache = disableCache, c_disableExpire = disableExpire, c_optimisticTimeout = optimisticTimeout,
            c_clientSubnet = clientSubnet, c_rdrc = None, c_dnsCache = None, c_cache = None, c_backgroundRefresh = {}\<rparr>
      in if \<not> disableCache \<and> \<not> hasDNSCacheFunc then initializeMemoryCache c else c)"

text \<open>A store that cannot be cleared is left as it is, with a warning.\<close>

definition client_ClearCache :: "bool \<Rightarrow> dns_client \<Rightarrow> dns_client" where
  "client_ClearCache storeCleared c =
     c\<lparr>c_cache := map_option (\<lambda>_. Map.empty) (c_cache c),
       c_dnsCache := (if storeCleared then map_option (\<lambda>_. Map.empty) (c_dnsCache c) else c_dnsCache c)\<rparr>"

definition storeCache ::
    "dnslib \<Rightarrow> exchange_env \<Rightarrow> dns_transport \<Rightarrow> question \<Rightarrow> dns_msg \<Rightarrow> u32 \<Rightarrow> dns_client \<Rightarrow> dns_client" where
  "storeCache dl xe transport question message timeToLive c =
     (if timeToLive = 0 then c
      else
        let expireAt = xe_Done xe + second_ns * uint timeToLive
        in case c_dnsCache c of
             Some store \<Rightarrow>
               (case Pack dl message of
                  Inr packed \<Rightarrow>
                    c\<lparr>c_dnsCache := Some (store((tr_Tag transport, q_Name question, q_Qtype question) \<mapsto> (packed, expireAt)))\<rparr>
                | Inl _ \<Rightarrow> c)
           | None \<Rightarrow>
               (case c_cache c of
                  None \<Rightarrow> c
                | Some cache \<Rightarrow>
                    c\<lparr>c_cache := Some ((xe_Evict xe cache)(\<lparr>key_Question = question, key_transportTag = tr_Tag transport\<rparr> \<mapsto>
                      (message, if c_disableExpire c then 0 else expireAt)))\<rparr>))"

text \<open>What is left of a time to live: the seconds until the entry expires, or a stale entry that may still
  be served.\<close>

datatype freshness = Fresh int | Stale | Expired

definition freshness_of :: "dns_client \<Rightarrow> int \<Rightarrow> int \<Rightarrow> freshness" where
  "freshness_of c timeNow expireAt =
     (if timeNow > expireAt then
        (if c_optimisticTimeout c > 0 \<and> timeNow < expireAt + c_optimisticTimeout c then Stale else Expired)
      else
        let nowTTL = (expireAt - timeNow) div second_ns in Fresh (if nowTTL < 0 then 0 else nowTTL))"

definition loadPersistentResponse ::
    "dnslib \<Rightarrow> exchange_env \<Rightarrow> question \<Rightarrow> dns_transport \<Rightarrow> (store_key \<rightharpoonup> byte list \<times> int) \<Rightarrow> dns_client \<Rightarrow>
     (dns_msg \<times> int \<times> bool) option" where
  "loadPersistentResponse dl xe question transport store c =
     (case store (tr_Tag transport, q_Name question, q_Qtype question) of
        None \<Rightarrow> None
      | Some (rawMessage, expireAt) \<Rightarrow>
          (case Unpack dl rawMessage of
             Inl _ \<Rightarrow> None
           | Inr response \<Rightarrow>
               if c_disableExpire c then Some (response, 0, False)
               else (case freshness_of c (xe_Now xe) expireAt of
                       Expired \<Rightarrow> None
                     | Stale \<Rightarrow> Some (normalizeTTL 1 response, 0, True)
                     | Fresh nowTTL \<Rightarrow> Some (normalizeTTL (word_of_int nowTTL) response, nowTTL, False))))"

definition loadResponse ::
    "dnslib \<Rightarrow> exchange_env \<Rightarrow> question \<Rightarrow> dns_transport \<Rightarrow> dns_client \<Rightarrow> (dns_msg \<times> int \<times> bool) option \<times> dns_client" where
  "loadResponse dl xe question transport c =
     (case c_dnsCache c of
        Some store \<Rightarrow> (loadPersistentResponse dl xe question transport store c, c)
      | None \<Rightarrow>
          (case c_cache c of
             None \<Rightarrow> (None, c)
           | Some cache \<Rightarrow>
               (let key = \<lparr>key_Question = question, key_transportTag = tr_Tag transport\<rparr>
                in case cache key of
                     None \<Rightarrow> (None, c)
                   | Some (response, expireAt) \<Rightarrow>
                       if c_disableExpire c then (Some (response, 0, False), c)
                       else (case freshness_of c (xe_Now xe) expireAt of
                               Expired \<Rightarrow> (None, c\<lparr>c_cache := Some (cache(key := None))\<rparr>)
                             | Stale \<Rightarrow> (Some (normalizeTTL 1 response, 0, True), c)
                             | Fresh nowTTL \<Rightarrow> (Some (normalizeTTL (word_of_int nowTTL) response, nowTTL, False), c)))))"

section \<open>Exchanging\<close>

definition FixedResponseStatus :: "dns_msg \<Rightarrow> int \<Rightarrow> dns_msg" where
  "FixedResponseStatus message rcode =
     \<lparr>msg_Id = msg_Id message, msg_Response = True, msg_Authoritative = True, msg_RecursionDesired = True,
      msg_RecursionAvailable = True, msg_Rcode = rcode, msg_Question = msg_Question message,
      msg_Answer = [], msg_Ns = [], msg_Extra = []\<rparr>"

definition prepareExchangeMessage :: "dns_client \<Rightarrow> DNSQueryOptions \<Rightarrow> dns_msg \<Rightarrow> dns_msg" where
  "prepareExchangeMessage c options message =
     (let clientSubnet = (if prefix_IsValid (qo_ClientSubnet options) then qo_ClientSubnet options else c_clientSubnet c)
      in if prefix_IsValid clientSubnet then SetClientSubnet message clientSubnet else message)"

text \<open>A request that is simple enough to be cached. The conversion of the only extra record to an OPT record
  panics when its header says so and its data does not.\<close>

definition is_simple_request :: "dns_msg \<Rightarrow> DNSQueryOptions \<Rightarrow> bool result" where
  "is_simple_request message options =
     (if length (msg_Question message) = 1 \<and> msg_Ns message = [] then
        bind_result
          (case msg_Extra message of
             [] \<Rightarrow> Inr True
           | [extra] \<Rightarrow>
               if rr_Rrtype extra = TypeOPT \<and> rr_Class extra > 0 \<and> rr_Ttl extra = 0 then
                 (case rr_Data extra of RD_OPT opts \<Rightarrow> Inr (opts = []) | _ \<Rightarrow> Inl (Panic ''interface conversion''))
               else Inr False
           | _ \<Rightarrow> Inr False)
          (\<lambda>simple. Inr (simple \<and> \<not> prefix_IsValid (qo_ClientSubnet options)))
      else Inr False)"

definition exchangeToTransport :: "exchange_env \<Rightarrow> dns_transport \<Rightarrow> dns_msg \<Rightarrow> dns_msg dns_result" where
  "exchangeToTransport xe transport message =
     (case xe_Upstream xe transport message of
        Answered response \<Rightarrow> Inr response
      | AnsweredRcode rcode \<Rightarrow> Inr (FixedResponseStatus message rcode)
      | Failed e \<Rightarrow> Inl (ErrOther e))"

definition bad_rcode :: "dns_msg \<Rightarrow> bool" where
  "bad_rcode response \<longleftrightarrow> msg_Rcode response \<noteq> RcodeSuccess \<and> msg_Rcode response \<noteq> RcodeNameError"

definition check_rejects :: "(dns_msg \<Rightarrow> bool) option \<Rightarrow> dns_msg \<Rightarrow> bool" where
  "check_rejects responseChecker response =
     (case responseChecker of
        None \<Rightarrow> False
      | Some check \<Rightarrow> if bad_rcode response then True else \<not> check response)"

definition save_rdrc :: "dns_transport \<Rightarrow> question \<Rightarrow> dns_client \<Rightarrow> dns_client" where
  "save_rdrc transport question c =
     c\<lparr>c_rdrc := map_option (insert (tr_Tag transport, q_Name question, q_Qtype question)) (c_rdrc c)\<rparr>"

text \<open>The OPT record of a response to a request that has none, or an older version of it, is dropped; in the
  second case one of the library's own making takes its place.\<close>

definition fix_edns :: "dnslib \<Rightarrow> dns_msg \<Rightarrow> dns_msg \<Rightarrow> dns_msg" where
  "fix_edns dl message response =
     (case IsEdns0 dl response of
        None \<Rightarrow> response
      | Some responseOpt \<Rightarrow>
          (case IsEdns0 dl message of
             None \<Rightarrow> response\<lparr>msg_Extra := filter (\<lambda>it. rr_Rrtype it \<noteq> TypeOPT) (msg_Extra response)\<rparr>
           | Some requestOpt \<Rightarrow>
               if EdnsVersion dl requestOpt < EdnsVersion dl responseOpt then
                 SetEdns0 dl (response\<lparr>msg_Extra := filter (\<lambda>it. rr_Rrtype it \<noteq> TypeOPT) (msg_Extra response)\<rparr>)
                   (EdnsUDPSize dl responseOpt) (EdnsDo dl responseOpt)
               else response))"

text \<open>The part of \<^verbatim>\<open>Exchange\<close> after the cache was asked. A rejected response is an error; the
  code returns the response with it, which no caller reads.\<close>

definition exchange_uncached ::
    "dnslib \<Rightarrow> exchange_env \<Rightarrow> dns_transport \<Rightarrow> dns_msg \<Rightarrow> question \<Rightarrow> DNSQueryOptions \<Rightarrow> (dns_msg \<Rightarrow> bool) option \<Rightarrow>
     bool \<Rightarrow> dns_client \<Rightarrow> dns_msg dns_result \<times> dns_client" where
  "exchange_uncached dl xe transport message question options responseChecker disableCache c =
     (let key = (tr_Tag transport, q_Name question, q_Qtype question) in
      if xe_ContextTag xe = Some (tr_Tag transport) then
        (Inl (ErrOther (Err ''DNS query loopback in transport'')), c)
      else if \<not> disableCache \<and> responseChecker \<noteq> None \<and> (case c_rdrc c of None \<Rightarrow> False | Some rdrc \<Rightarrow> key \<in> rdrc) then
        (Inl ErrResponseRejectedCached, c)
      else case exchangeToTransport xe transport message of
             Inl e \<Rightarrow> (Inl e, c)
           | Inr response \<Rightarrow>
               (let disableCache' = (disableCache \<or> bad_rcode response) in
                if check_rejects responseChecker response then
                  (Inl ErrResponseRejected, if disableCache' then c else save_rdrc transport question c)
                else
                  (let (timeToLive, response1) = applyResponseOptions question options response;
                       c1 = (if disableCache' then c else storeCache dl xe transport question response1 timeToLive c)
                   in (Inr (fix_edns dl message (response1\<lparr>msg_Id := msg_Id message\<rparr>)), c1))))"

definition start_refresh :: "dns_transport \<Rightarrow> question \<Rightarrow> dns_client \<Rightarrow> dns_client" where
  "start_refresh transport question c =
     c\<lparr>c_backgroundRefresh := insert \<lparr>key_Question = question, key_transportTag = tr_Tag transport\<rparr> (c_backgroundRefresh c)\<rparr>"

definition client_Exchange ::
    "dnslib \<Rightarrow> exchange_env \<Rightarrow> dns_transport \<Rightarrow> dns_msg \<Rightarrow> DNSQueryOptions \<Rightarrow> (dns_msg \<Rightarrow> bool) option \<Rightarrow>
     dns_client \<Rightarrow> dns_msg dns_result \<times> dns_client" where
  "client_Exchange dl xe transport message options responseChecker c =
     (case msg_Question message of
        [] \<Rightarrow> (Inr (FixedResponseStatus message RcodeFormatError), c)
      | question # _ \<Rightarrow>
          if q_Qtype question = TypeA \<and> qo_Strategy options = DomainStrategyIPv6Only \<or>
             q_Qtype question = TypeAAAA \<and> qo_Strategy options = DomainStrategyIPv4Only then
            (Inr (FixedResponseStatus message RcodeSuccess), c)
          else
            let message1 = prepareExchangeMessage c options message
            in case is_simple_request message1 options of
                 Inl e \<Rightarrow> (Inl (ErrOther e), c)
               | Inr simple \<Rightarrow>
                   (let disableCache = (\<not> simple \<or> c_disableCache c \<or> qo_DisableCache options);
                        uncached = exchange_uncached dl xe transport message1 question options responseChecker disableCache
                    in if disableCache then uncached c
                       else case xe_WaitError xe of
                              Some e \<Rightarrow> (Inl (ErrOther e), c)
                            | None \<Rightarrow>
                                (case loadResponse dl xe question transport c of
                                   (None, c1) \<Rightarrow> uncached c1
                                 | (Some (response, ttl, isStale), c1) \<Rightarrow>
                                     if isStale then
                                       (if qo_DisableOptimisticCache options then uncached c1
                                        else (Inr (response\<lparr>msg_Id := msg_Id message1\<rparr>), start_refresh transport question c1))
                                     else (Inr (response\<lparr>msg_Id := msg_Id message1\<rparr>), c1))))"

text \<open>The goroutine of a refresh, which runs unless one for the key is running: it stores the response it
  gets and clears the mark.\<close>

definition run_refresh ::
    "dnslib \<Rightarrow> exchange_env \<Rightarrow> dns_transport \<Rightarrow> dns_msg \<Rightarrow> question \<Rightarrow> DNSQueryOptions \<Rightarrow> (dns_msg \<Rightarrow> bool) option \<Rightarrow>
     dns_client \<Rightarrow> dns_client" where
  "run_refresh dl xe transport message question options responseChecker c =
     (let key = \<lparr>key_Question = question, key_transportTag = tr_Tag transport\<rparr>;
          c1 = (case exchangeToTransport xe transport message of
                  Inl _ \<Rightarrow> c
                | Inr response \<Rightarrow>
                    if check_rejects responseChecker response then save_rdrc transport question c
                    else if responseChecker = None \<and> bad_rcode response then c
                    else (let (timeToLive, response1) = applyResponseOptions question options response
                          in storeCache dl xe transport question response1 timeToLive c))
      in c1\<lparr>c_backgroundRefresh := c_backgroundRefresh c1 - {key}\<rparr>)"

section \<open>Looking up addresses\<close>

definition MessageToAddresses :: "golib \<Rightarrow> dns_msg \<Rightarrow> addr list" where
  "MessageToAddresses lib response = DNSResponseAddresses lib (Some response)"

definition response_addresses :: "golib \<Rightarrow> dns_msg \<Rightarrow> addr list dns_result" where
  "response_addresses lib response =
     (if msg_Rcode response \<noteq> RcodeSuccess then Inl (RcodeError (msg_Rcode response))
      else Inr (MessageToAddresses lib response))"

definition questionCache ::
    "golib \<Rightarrow> dnslib \<Rightarrow> exchange_env \<Rightarrow> dns_transport \<Rightarrow> question \<Rightarrow> DNSQueryOptions \<Rightarrow> dns_client \<Rightarrow>
     addr list dns_result \<times> dns_client" where
  "questionCache lib dl xe transport question options c =
     (case loadResponse dl xe question transport c of
        (None, c1) \<Rightarrow> (Inl ErrNotCached, c1)
      | (Some (response, ttl, isStale), c1) \<Rightarrow>
          if isStale \<and> qo_DisableOptimisticCache options then (Inl ErrNotCached, c1)
          else (response_addresses lib response, if isStale then start_refresh transport question c1 else c1))"

definition lookup_message :: "string \<Rightarrow> u16 \<Rightarrow> dns_msg" where
  "lookup_message name qType =
     \<lparr>msg_Id = 0, msg_Response = False, msg_Authoritative = False, msg_RecursionDesired = True,
      msg_RecursionAvailable = False, msg_Rcode = 0,
      msg_Question = [\<lparr>q_Name = name, q_Qtype = qType, q_Qclass = ClassINET\<rparr>],
      msg_Answer = [], msg_Ns = [], msg_Extra = []\<rparr>"

definition lookupToExchange ::
    "golib \<Rightarrow> dnslib \<Rightarrow> exchange_env \<Rightarrow> dns_transport \<Rightarrow> string \<Rightarrow> u16 \<Rightarrow> DNSQueryOptions \<Rightarrow> (dns_msg \<Rightarrow> bool) option \<Rightarrow>
     dns_client \<Rightarrow> addr list dns_result \<times> dns_client" where
  "lookupToExchange lib dl xe transport name qType options responseChecker c =
     (let question = \<lparr>q_Name = name, q_Qtype = qType, q_Qclass = ClassINET\<rparr>;
          exchange = (\<lambda>c1.
            case client_Exchange dl xe transport (lookup_message name qType) options responseChecker c1 of
              (Inl e, c2) \<Rightarrow> (Inl e, c2)
            | (Inr response, c2) \<Rightarrow> (response_addresses lib response, c2))
      in if c_disableCache c \<or> qo_DisableCache options then exchange c
         else case questionCache lib dl xe transport question options c of
                (Inl ErrNotCached, c1) \<Rightarrow> exchange c1
              | (r, c1) \<Rightarrow> (r, c1))"

definition sortAddresses :: "addr list \<Rightarrow> addr list \<Rightarrow> u8 \<Rightarrow> addr list" where
  "sortAddresses response4 response6 strategy =
     (if strategy = DomainStrategyPreferIPv6 then response6 @ response4 else response4 @ response6)"

text \<open>The two lookups of a group run concurrently; they are taken here in the order in which they are
  added. \<^verbatim>\<open>Run\<close> of the group joins their errors.\<close>

definition group_results ::
    "(dns_error option \<Rightarrow> dns_error option \<Rightarrow> dns_error option) \<Rightarrow> u8 \<Rightarrow> addr list dns_result \<Rightarrow> addr list dns_result \<Rightarrow>
     addr list dns_result" where
  "group_results join strategy r4 r6 =
     (let addresses = (\<lambda>r. case r of Inl _ \<Rightarrow> [] | Inr as \<Rightarrow> as); error = (\<lambda>r. case r of Inl e \<Rightarrow> Some e | Inr _ \<Rightarrow> None)
      in if addresses r4 = [] \<and> addresses r6 = [] then
           (case join (error r4) (error r6) of Some e \<Rightarrow> Inl e | None \<Rightarrow> Inr [])
         else Inr (sortAddresses (addresses r4) (addresses r6) strategy))"

definition client_Lookup ::
    "golib \<Rightarrow> dnslib \<Rightarrow> exchange_env \<Rightarrow> (dns_error option \<Rightarrow> dns_error option \<Rightarrow> dns_error option) \<Rightarrow> dns_transport \<Rightarrow>
     string \<Rightarrow> DNSQueryOptions \<Rightarrow> (dns_msg \<Rightarrow> bool) option \<Rightarrow> dns_client \<Rightarrow> addr list dns_result \<times> dns_client" where
  "client_Lookup lib dl xe join transport domain options responseChecker c =
     (let dnsName = Fqdn dl (FqdnToDomain dl domain);
          strategy = (if qo_LookupStrategy options \<noteq> DomainStrategyAsIS then qo_LookupStrategy options else qo_Strategy options);
          lookupOptions = (if qo_LookupStrategy options \<noteq> DomainStrategyAsIS then options\<lparr>qo_Strategy := strategy\<rparr> else options);
          lookup = (\<lambda>qType. lookupToExchange lib dl xe transport dnsName qType lookupOptions responseChecker)
      in if strategy = DomainStrategyIPv4Only then lookup TypeA c
         else if strategy = DomainStrategyIPv6Only then lookup TypeAAAA c
         else
           (let (r4, c1) = lookup TypeA c; (r6, c2) = lookup TypeAAAA c1
            in (group_results join strategy r4 r6, c2)))"

section \<open>Times to live: laws\<close>

text \<open>The times to live that count: those of the records that are not OPT records and are not zero.\<close>

definition positive_ttls :: "rr list \<Rightarrow> u32 list" where
  "positive_ttls rs = filter (\<lambda>t. t \<noteq> 0) (map rr_Ttl (filter (\<lambda>r. rr_Rrtype r \<noteq> TypeOPT) rs))"

lemma positive_ttls_simps [simp]:
  "positive_ttls [] = []"
  "positive_ttls (r # rs) = (if rr_Rrtype r \<noteq> TypeOPT \<and> rr_Ttl r \<noteq> 0 then [rr_Ttl r] else []) @ positive_ttls rs"
  by (simp_all add: positive_ttls_def)

lemma ttl_step_eq:
  "acc \<noteq> 0 \<Longrightarrow> ttl_step acc r = (if rr_Rrtype r \<noteq> TypeOPT \<and> rr_Ttl r \<noteq> 0 then min acc (rr_Ttl r) else acc)"
  "ttl_step 0 r = (if rr_Rrtype r \<noteq> TypeOPT then rr_Ttl r else 0)"
  by (auto simp: ttl_step_def min_def word_gt_0 not_less)

lemma ttl_fold_pos: "acc \<noteq> 0 \<Longrightarrow> foldl ttl_step acc rs = Min (insert acc (set (positive_ttls rs)))"
proof (induction rs arbitrary: acc)
  case (Cons r rs)
  show ?case
  proof (cases "rr_Rrtype r \<noteq> TypeOPT \<and> rr_Ttl r \<noteq> 0")
    case True
    then have nz: "min acc (rr_Ttl r) \<noteq> 0"
      using Cons.prems by (simp add: min_def)
    have "insert acc (set (positive_ttls (r # rs))) = insert acc (insert (rr_Ttl r) (set (positive_ttls rs)))"
      using True by simp
    moreover have "Min (insert acc (insert (rr_Ttl r) S)) = Min (insert (min acc (rr_Ttl r)) S)" if "finite S" for S
      using that by (cases "S = {}") (simp_all add: min.assoc)
    ultimately show ?thesis
      using True Cons.prems Cons.IH [OF nz] by (simp add: ttl_step_eq)
  next
    case False
    then have "positive_ttls (r # rs) = positive_ttls rs" "ttl_step acc r = acc"
      using Cons.prems by (auto simp: ttl_step_eq)
    then show ?thesis
      using Cons by simp
  qed
qed simp

lemma ttl_fold: "foldl ttl_step 0 rs = (if positive_ttls rs = [] then 0 else Min (set (positive_ttls rs)))"
proof (induction rs)
  case (Cons r rs)
  then show ?case
    by (cases "rr_Rrtype r \<noteq> TypeOPT \<and> rr_Ttl r \<noteq> 0") (auto simp: ttl_step_eq ttl_fold_pos)
qed simp

lemma set_ttl_simps [simp]:
  "rr_Rrtype (set_ttl t r) = rr_Rrtype r" "rr_Data (set_ttl t r) = rr_Data r" "rr_Name (set_ttl t r) = rr_Name r"
  by (simp_all add: set_ttl_def)

lemma normalizeTTL_simps [simp]:
  "msg_Rcode (normalizeTTL t m) = msg_Rcode m" "msg_Question (normalizeTTL t m) = msg_Question m"
  "msg_Answer (normalizeTTL t m) = map (set_ttl t) (msg_Answer m)"
  "msg_records (normalizeTTL t m) = map (set_ttl t) (msg_records m)"
  by (simp_all add: normalizeTTL_def msg_records_def)

lemma normalizeTTL_addresses: "DNSResponseAddresses lib (Some (normalizeTTL t m)) = DNSResponseAddresses lib (Some m)"
  by (simp add: DNSResponseAddresses_def comp_def)

section \<open>The client subnet: laws\<close>

lemma find_option_Some: "find_option opts j = Some k \<Longrightarrow> j \<le> k \<and> k < j + length opts"
proof (induction opts j rule: find_option.induct)
  case (3 c d rest j)
  then show ?case
    by fastforce
qed auto

lemma find_exists_Some:
  "find_exists rs i o' = (Some k, sub) \<Longrightarrow>
   (o' = Some k \<and> sub = None) \<or>
   i \<le> k \<and> k < i + length rs \<and>
     (\<exists>opts. rr_Data (rs ! (k - i)) = RD_OPT opts \<and> (\<forall>j. sub = Some j \<longrightarrow> j < length opts))"
proof (induction rs i o' rule: find_exists.induct)
  case (2 r rest i o')
  have step: "?case" if "find_exists rest (Suc i) o'' = (Some k, sub)"
    "o'' = Some k \<Longrightarrow> sub = None \<Longrightarrow> \<exists>opts. rr_Data r = RD_OPT opts \<and> k = i"
    "(o'' = Some k \<and> sub = None) \<or> Suc i \<le> k \<and> k < Suc i + length rest \<and>
      (\<exists>opts. rr_Data (rest ! (k - Suc i)) = RD_OPT opts \<and> (\<forall>j. sub = Some j \<longrightarrow> j < length opts))" for o''
    using that by (auto simp: nth_Cons' Suc_diff_le)
  show ?case
  proof (cases "rr_Data r")
    case (RD_OPT opts)
    show ?thesis
    proof (cases "find_option opts 0")
      case None
      then show ?thesis
        using 2 RD_OPT by (intro step [of "Some i"]) auto
    next
      case (Some j)
      then show ?thesis
        using "2.prems" RD_OPT find_option_Some [OF Some] by auto
    qed
  qed (use 2 in \<open>auto intro!: step [of None]\<close>)
qed simp

lemma set_option_nonempty: "(\<And>j. sub = Some j \<Longrightarrow> j < length opts) \<Longrightarrow> set_option p sub opts \<noteq> []"
  by (auto simp: set_option_def split: option.splits)

lemma not_simple_many: "length (msg_Extra m) > 1 \<Longrightarrow> is_simple_request m options = Inr False"
  by (auto simp: is_simple_request_def split: list.splits)

lemma not_simple_one:
  "msg_Extra m = [r] \<Longrightarrow> rr_Data r = RD_OPT opts \<Longrightarrow> rr_Class r = 0 \<or> opts \<noteq> [] \<Longrightarrow> is_simple_request m options = Inr False"
  by (auto simp: is_simple_request_def)

lemma SetClientSubnet_Extra:
  "\<exists>i r opts. i < length (msg_Extra (SetClientSubnet message p)) \<and> msg_Extra (SetClientSubnet message p) ! i = r \<and>
     rr_Data r = RD_OPT opts \<and> opts \<noteq> []"
proof (cases "find_exists (msg_Extra message) 0 None")
  case (Pair o' sub)
  show ?thesis
  proof (cases o')
    case None
    then show ?thesis
      using Pair by (intro exI [of _ "length (msg_Extra message)"]) (simp add: SetClientSubnet_def set_option_def)
  next
    case (Some k)
    then obtain opts where k: "k < length (msg_Extra message)" "rr_Data (msg_Extra message ! k) = RD_OPT opts"
      "\<And>j. sub = Some j \<Longrightarrow> j < length opts"
      using find_exists_Some [of "msg_Extra message" 0 None k sub] Pair by auto
    then show ?thesis
      using Pair Some set_option_nonempty [of sub opts p] by (intro exI [of _ k]) (simp add: SetClientSubnet_def)
  qed
qed

lemma SetClientSubnet_not_simple: "is_simple_request (SetClientSubnet message p) options = Inr False"
proof -
  obtain i r opts where i: "i < length (msg_Extra (SetClientSubnet message p))" "msg_Extra (SetClientSubnet message p) ! i = r"
    "rr_Data r = RD_OPT opts" "opts \<noteq> []"
    using SetClientSubnet_Extra by blast
  show ?thesis
  proof (cases "length (msg_Extra (SetClientSubnet message p)) > 1")
    case False
    then have "msg_Extra (SetClientSubnet message p) = [r]"
      using i(1,2) by (cases "msg_Extra (SetClientSubnet message p)") auto
    then show ?thesis
      using i(3,4) not_simple_one by blast
  qed (rule not_simple_many)
qed

section \<open>Exchanges: laws\<close>

text \<open>A query the cache is asked for.\<close>

definition cacheable :: "dns_client \<Rightarrow> DNSQueryOptions \<Rightarrow> dns_msg \<Rightarrow> question \<Rightarrow> bool" where
  "cacheable c options message question \<longleftrightarrow>
     (\<exists>rest. msg_Question message = question # rest) \<and>
     \<not> (q_Qtype question = TypeA \<and> qo_Strategy options = DomainStrategyIPv6Only \<or>
        q_Qtype question = TypeAAAA \<and> qo_Strategy options = DomainStrategyIPv4Only) \<and>
     is_simple_request (prepareExchangeMessage c options message) options = Inr True \<and>
     \<not> c_disableCache c \<and> \<not> qo_DisableCache options"

lemma prepare_Id [simp]: "msg_Id (prepareExchangeMessage c options message) = msg_Id message"
  by (simp add: prepareExchangeMessage_def SetClientSubnet_def Let_def split: option.splits prod.splits rdata.splits)

lemma cacheable_cong:
  "c_clientSubnet c' = c_clientSubnet c \<Longrightarrow> c_disableCache c' = c_disableCache c \<Longrightarrow>
   cacheable c options message question \<Longrightarrow> cacheable c' options message question"
  unfolding cacheable_def prepareExchangeMessage_def by metis

lemma storeCache_keeps:
  "c_clientSubnet (storeCache dl xe transport question m t c) = c_clientSubnet c"
  "c_disableCache (storeCache dl xe transport question m t c) = c_disableCache c"
  by (simp_all add: storeCache_def Let_def split: option.splits sum.splits)

lemma client_Exchange_cacheable:
  assumes "cacheable c options message question" "xe_WaitError xe = None"
  shows "client_Exchange dl xe transport message options responseChecker c =
    (let uncached = exchange_uncached dl xe transport (prepareExchangeMessage c options message) question options responseChecker False
     in case loadResponse dl xe question transport c of
          (None, c1) \<Rightarrow> uncached c1
        | (Some (response, ttl, isStale), c1) \<Rightarrow>
            if isStale then
              (if qo_DisableOptimisticCache options then uncached c1
               else (Inr (response\<lparr>msg_Id := msg_Id message\<rparr>), start_refresh transport question c1))
            else (Inr (response\<lparr>msg_Id := msg_Id message\<rparr>), c1))"
  using assms unfolding cacheable_def client_Exchange_def Let_def prepare_Id
  by (auto split: prod.splits option.splits)

lemma exchange_uncached_Inr:
  assumes "exchange_uncached dl xe transport message question options (Some check) d c = (Inr r, c')"
  shows "\<exists>response. exchangeToTransport xe transport message = Inr response \<and> \<not> bad_rcode response \<and> check response"
  using assms
  by (auto simp: exchange_uncached_def Let_def check_rejects_def split: if_splits sum.splits option.splits)

lemma exchange_uncached_disabled: "snd (exchange_uncached dl xe transport message question options check True c) = c"
  by (auto simp: exchange_uncached_def Let_def split: sum.splits option.splits prod.splits)

lemma loadResponse_keeps_rdrc: "c_rdrc (snd (loadResponse dl xe question transport c)) = c_rdrc c"
  by (auto simp: loadResponse_def Let_def split: option.splits freshness.splits)

section \<open>Properties\<close>


definition sample_dnslib :: dnslib where
  "sample_dnslib = \<lparr>IsEdns0 = (\<lambda>m. find (\<lambda>r. rr_Rrtype r = TypeOPT) (msg_Extra m)), EdnsVersion = (\<lambda>_. 0),
     EdnsUDPSize = (\<lambda>r. rr_Class r), EdnsDo = (\<lambda>_. False), SetEdns0 = (\<lambda>m _ _. m),
     Pack = (\<lambda>_. Inl (Err ''pack'')), Unpack = (\<lambda>_. Inl (Err ''unpack'')),
     IsFqdn = (\<lambda>s. s \<noteq> [] \<and> last s = CHR ''.''), Fqdn = (\<lambda>s. if s \<noteq> [] \<and> last s = CHR ''.'' then s else s @ ''.'')\<rparr>"

definition sample_transport :: dns_transport where
  "sample_transport = \<lparr>tr_Tag = ''local'', tr_Type = ''udp''\<rparr>"

definition sample_query :: dns_msg where
  "sample_query = (lookup_message ''example.org.'' TypeA)\<lparr>msg_Id := 7\<rparr>"

definition sample_question :: question where
  "sample_question = \<lparr>q_Name = ''example.org.'', q_Qtype = TypeA, q_Qclass = ClassINET\<rparr>"

definition sample_answer :: dns_msg where
  "sample_answer = sample_query\<lparr>msg_Response := True,
     msg_Answer := [\<lparr>rr_Name = ''example.org.'', rr_Rrtype = TypeA, rr_Class = ClassINET, rr_Ttl = 60, rr_Data = RD_A [8, 8, 8, 8]\<rparr>]\<rparr>"

definition sample_xe :: "int \<Rightarrow> exchange_env" where
  "sample_xe now = \<lparr>xe_Now = now, xe_Done = now, xe_ContextTag = None, xe_WaitError = None,
     xe_Upstream = (\<lambda>_ _. Answered sample_answer), xe_Evict = id\<rparr>"

definition sample_client :: dns_client where
  "sample_client = (NewClient False False 0 prefix_zero False)\<lparr>c_rdrc := Some {}\<rparr>"

definition sample_query_options :: DNSQueryOptions where
  "sample_query_options = \<lparr>qo_Transport = None, qo_Strategy = DomainStrategyAsIS, qo_LookupStrategy = DomainStrategyAsIS,
     qo_DisableCache = False, qo_DisableOptimisticCache = False, qo_RewriteTTL = None, qo_ClientSubnet = prefix_zero\<rparr>"

lemma sample_client_simps:
  "c_disableCache sample_client = False" "c_disableExpire sample_client = False" "c_dnsCache sample_client = None"
  "c_cache sample_client = Some Map.empty" "c_rdrc sample_client = Some {}" "c_clientSubnet sample_client = prefix_zero"
  by (simp_all add: sample_client_def NewClient_def initializeMemoryCache_def)

lemma sample_cacheable: "cacheable sample_client sample_query_options sample_query sample_question"
  by (simp add: cacheable_def sample_client_simps sample_query_options_def sample_query_def sample_question_def
      lookup_message_def prepareExchangeMessage_def prefix_IsValid_def prefix_zero_def is_simple_request_def strategy_defs)


text \<open>
  The time to live of a response is the smallest of those of its records, OPT records left out, but a
  record with time to live zero counts only when there is no other: such a response is stored, with the time to
  live of the others written over the zero. A response without answers takes it from the SOA record.
\<close>

theorem response_time_to_live:
  "computeTimeToLive response =
     (if msg_Answer response = [] \<and> extractNegativeTTL (msg_Ns response) \<noteq> None
      then the (extractNegativeTTL (msg_Ns response))
      else if \<exists>r\<in>set (msg_records response). rr_Rrtype r \<noteq> TypeOPT \<and> rr_Ttl r > 0
      then Min {rr_Ttl r |r. r \<in> set (msg_records response) \<and> rr_Rrtype r \<noteq> TypeOPT \<and> rr_Ttl r > 0}
      else 0)"
proof -
  have "set (positive_ttls rs) = {rr_Ttl r |r. r \<in> set rs \<and> rr_Rrtype r \<noteq> TypeOPT \<and> rr_Ttl r > 0}" for rs
    by (auto simp: positive_ttls_def word_gt_0)
  moreover have "positive_ttls rs = [] \<longleftrightarrow> \<not> (\<exists>r\<in>set rs. rr_Rrtype r \<noteq> TypeOPT \<and> rr_Ttl r > 0)" for rs
    by (auto simp: positive_ttls_def filter_empty_conv word_gt_0)
  ultimately show ?thesis
    by (auto simp: computeTimeToLive_def ttl_fold split: list.splits option.splits)
qed

text \<open>
  With a client subnet set for the client, nothing is ever cached: no exchange changes the state of the
  client, because the option that is added to every request makes it one that is not cached.
\<close>

theorem client_subnet_disables_cache:
  assumes "prefix_IsValid (c_clientSubnet c)"
  shows "snd (client_Exchange dl xe transport message options responseChecker c) = c"
proof -
  have "is_simple_request (prepareExchangeMessage c options message) options = Inr False"
    using assms by (simp add: prepareExchangeMessage_def Let_def SetClientSubnet_not_simple)
  then show ?thesis
    by (simp add: client_Exchange_def Let_def exchange_uncached_disabled split: list.splits)
qed

lemma client_subnet_disables_cache_witness:
  "prefix_IsValid (c_clientSubnet (sample_client\<lparr>c_clientSubnet := Prefix (Addr4 0x01020300) (Some 24)\<rparr>)) \<and>
   snd (client_Exchange sample_dnslib (sample_xe 0) sample_transport sample_query sample_query_options None
     (sample_client\<lparr>c_clientSubnet := Prefix (Addr4 0x01020300) (Some 24)\<rparr>)) =
   sample_client\<lparr>c_clientSubnet := Prefix (Addr4 0x01020300) (Some 24)\<rparr>"
  using client_subnet_disables_cache [of "sample_client\<lparr>c_clientSubnet := Prefix (Addr4 0x01020300) (Some 24)\<rparr>"]
  by (simp add: prefix_IsValid_def)

text \<open>
  The check that the router gives to an exchange is made on what the transport answers and on nothing
  else: a response that is not in the cache is returned only when its code is good and the check accepts it,
  but a response in the cache is returned whatever the check would say of it. The cache has no part for the
  rule that asks, so a response that one rule accepted is taken for any other rule with the same server.
\<close>

theorem response_check_only_fresh:
  assumes "cacheable c options message question" "xe_WaitError xe = None"
  shows "(\<forall>response ttl. fst (loadResponse dl xe question transport c) = Some (response, ttl, False) \<longrightarrow>
      fst (client_Exchange dl xe transport message options (Some check) c) = Inr (response\<lparr>msg_Id := msg_Id message\<rparr>)) \<and>
    (fst (loadResponse dl xe question transport c) = None \<longrightarrow>
      (\<forall>r. fst (client_Exchange dl xe transport message options (Some check) c) = Inr r \<longrightarrow>
        (\<exists>response. exchangeToTransport xe transport (prepareExchangeMessage c options message) = Inr response \<and>
           \<not> bad_rcode response \<and> check response)))"
proof (cases "loadResponse dl xe question transport c")
  case (Pair found c1)
  show ?thesis
  proof (cases found)
    case None
    let ?m = "prepareExchangeMessage c options message"
    have eq: "client_Exchange dl xe transport message options (Some check) c =
        exchange_uncached dl xe transport ?m question options (Some check) False c1"
      using Pair None by (simp add: client_Exchange_cacheable [OF assms])
    have "\<exists>response. exchangeToTransport xe transport ?m = Inr response \<and> \<not> bad_rcode response \<and> check response"
      if "fst (client_Exchange dl xe transport message options (Some check) c) = Inr r" for r
      using that unfolding eq
      by (cases "exchange_uncached dl xe transport ?m question options (Some check) False c1")
        (auto dest: exchange_uncached_Inr)
    then show ?thesis
      using Pair None by simp
  next
    case (Some found')
    then show ?thesis
      using Pair by (simp add: client_Exchange_cacheable [OF assms])
  qed
qed

lemma response_check_only_fresh_witness:
  "fst (client_Exchange sample_dnslib (sample_xe (10 * second_ns)) sample_transport sample_query sample_query_options (Some (\<lambda>_. False))
     (storeCache sample_dnslib (sample_xe 0) sample_transport sample_question sample_answer 60 sample_client)) =
   Inr (normalizeTTL 50 sample_answer)"
proof -
  let ?c = "storeCache sample_dnslib (sample_xe 0) sample_transport sample_question sample_answer 60 sample_client"
  have "cacheable ?c sample_query_options sample_query sample_question"
    by (rule cacheable_cong [OF _ _ sample_cacheable]) (rule storeCache_keeps)+
  moreover have "fst (loadResponse sample_dnslib (sample_xe (10 * second_ns)) sample_question sample_transport ?c) =
      Some (normalizeTTL 50 sample_answer, 50, False)"
    by (simp add: loadResponse_def storeCache_def sample_client_simps freshness_of_def sample_xe_def second_ns_def)
  moreover have "(normalizeTTL 50 sample_answer)\<lparr>msg_Id := msg_Id sample_query\<rparr> = normalizeTTL 50 sample_answer"
    by (simp add: sample_answer_def sample_query_def normalizeTTL_def)
  ultimately show ?thesis
    using response_check_only_fresh [of ?c sample_query_options sample_query sample_question "sample_xe (10 * second_ns)"
        sample_dnslib sample_transport "\<lambda>_. False"]
    by (simp add: sample_xe_def)
qed

text \<open>
  A rejection is remembered for the server and the question, not for the rule that rejected: once the check
  of one rule has rejected the response of a transport, an exchange with any other check is refused without
  asking the transport, until the entry is forgotten.
\<close>

theorem rejection_remembered_per_server:
  assumes "cacheable c options message question" "xe_WaitError xe = None" "xe_WaitError xe' = None"
    and "c_rdrc c = Some rdrc" "(tr_Tag transport, q_Name question, q_Qtype question) \<notin> rdrc"
    and "fst (loadResponse dl xe question transport c) = None"
    and "xe_ContextTag xe \<noteq> Some (tr_Tag transport)" "xe_ContextTag xe' \<noteq> Some (tr_Tag transport)"
    and "exchangeToTransport xe transport (prepareExchangeMessage c options message) = Inr response"
    and "\<not> bad_rcode response" "\<not> check response"
    and "fst (loadResponse dl xe' question transport (snd (client_Exchange dl xe transport message options (Some check) c))) = None"
  shows "fst (client_Exchange dl xe transport message options (Some check) c) = Inl ErrResponseRejected \<and>
    fst (client_Exchange dl xe' transport message options (Some check')
      (snd (client_Exchange dl xe transport message options (Some check) c))) = Inl ErrResponseRejectedCached"
proof -
  let ?k = "(tr_Tag transport, q_Name question, q_Qtype question)"
  obtain c1 where c1: "loadResponse dl xe question transport c = (None, c1)"
    using assms(6) by (metis prod.collapse)
  have rdrc1: "c_rdrc c1 = Some rdrc"
    using loadResponse_keeps_rdrc [of dl xe question transport c] c1 assms(4) by simp
  have first: "client_Exchange dl xe transport message options (Some check) c =
      (Inl ErrResponseRejected, save_rdrc transport question c1)"
    using assms(5,7,9-11) c1 rdrc1 unfolding client_Exchange_cacheable [OF assms(1,2)]
    by (simp add: exchange_uncached_def Let_def check_rejects_def)
  have same: "c_clientSubnet c1 = c_clientSubnet c" "c_disableCache c1 = c_disableCache c"
    using c1 by (auto simp: loadResponse_def Let_def split: option.splits if_splits freshness.splits)
  let ?c2 = "save_rdrc transport question c1"
  have "cacheable ?c2 options message question"
    by (rule cacheable_cong [OF _ _ assms(1)]) (simp_all add: save_rdrc_def same)
  moreover obtain c3 where c3: "loadResponse dl xe' question transport ?c2 = (None, c3)"
    using assms(12) first by (metis prod.collapse snd_conv)
  moreover have "c_rdrc c3 = Some (insert ?k rdrc)"
    using loadResponse_keeps_rdrc [of dl xe' question transport ?c2] c3 rdrc1 by (simp add: save_rdrc_def)
  ultimately have "fst (client_Exchange dl xe' transport message options (Some check') ?c2) = Inl ErrResponseRejectedCached"
    using assms(3,8) by (simp add: client_Exchange_cacheable exchange_uncached_def Let_def)
  with first show ?thesis
    by simp
qed

lemma rejection_remembered_per_server_witness:
  "fst (client_Exchange sample_dnslib (sample_xe 1) sample_transport sample_query sample_query_options (Some (\<lambda>_. True))
     (snd (client_Exchange sample_dnslib (sample_xe 0) sample_transport sample_query sample_query_options (Some (\<lambda>_. False)) sample_client))) =
   Inl ErrResponseRejectedCached"
proof -
  have load: "fst (loadResponse dl xe question transport c) = None" if "c_dnsCache c = None" "c_cache c = Some Map.empty"
    for dl xe question transport c
    using that by (simp add: loadResponse_def Let_def)
  have "client_Exchange sample_dnslib (sample_xe 0) sample_transport sample_query sample_query_options (Some (\<lambda>_. False)) sample_client =
      (Inl ErrResponseRejected, save_rdrc sample_transport sample_question sample_client)"
    by (subst client_Exchange_cacheable [OF sample_cacheable])
      (simp_all add: sample_xe_def loadResponse_def sample_client_simps exchange_uncached_def exchangeToTransport_def
        check_rejects_def bad_rcode_def sample_answer_def sample_query_def lookup_message_def RcodeSuccess_def Let_def)
  then show ?thesis
    using rejection_remembered_per_server [OF sample_cacheable, of "sample_xe 0" "sample_xe 1" "{}" sample_transport sample_dnslib
        sample_answer "\<lambda>_. False" "\<lambda>_. True"] load
    by (simp add: sample_xe_def sample_client_simps exchangeToTransport_def bad_rcode_def sample_answer_def sample_query_def
        lookup_message_def RcodeSuccess_def save_rdrc_def)
qed

end
