(* ===== verification/Dns_Transport.thy ===== *)
theory Dns_Transport
  imports Outbound_Manager Dns_Client
begin

text \<open>
  The manager of DNS servers (\<^verbatim>\<open>src/dns/transport_manager.go\<close>, \<^verbatim>\<open>src/dns/transport_adapter.go\<close>): the table of
  servers, the default server and the FakeIP server, on the table and the start loop of the outbound manager.
\<close>

section \<open>Operations\<close>

record transport_manager = manager +
  tm_defaultTag :: string
  tm_dependByTag :: "string \<Rightarrow> string list"
  tm_defaultTransport :: "managed option"
  tm_fakeIPTransport :: "managed option"

definition NewTransportManager :: "string \<Rightarrow> transport_manager" where
  "NewTransportManager defaultTag = \<lparr>mg_started = False, mg_stage = 0, mg_objects = [], mg_byTag = Map.empty,
     tm_defaultTag = defaultTag, tm_dependByTag = (\<lambda>_. []), tm_defaultTransport = None, tm_fakeIPTransport = None\<rparr>"

text \<open>The dependencies of a server: the server that resolves its own domain name, when one is configured.\<close>

definition transport_dependencies :: "string option \<Rightarrow> string list" where
  "transport_dependencies domainResolverServer =
     (case domainResolverServer of Some server \<Rightarrow> if server \<noteq> [] then [server] else [] | None \<Rightarrow> [])"

definition start_transport :: "answers \<Rightarrow> managed \<Rightarrow> calls \<times> err option" where
  "start_transport ans transport = (if mo_Lifecycle transport then call ans transport (CallStage StartStateStart) else ([], None))"

definition startTransports ::
    "answers \<Rightarrow> (string \<rightharpoonup> managed) \<Rightarrow> managed list \<Rightarrow> (calls \<times> err option) option" where
  "startTransports ans transportByTag transports = start_rounds ''server'' (start_transport ans) transportByTag transports {}"

definition transport_Start ::
    "answers \<Rightarrow> managed result \<Rightarrow> StartStage \<Rightarrow> transport_manager \<Rightarrow> transport_manager step option" where
  "transport_Start ans fallback stage m =
     (case begin_stage stage m of
        Inl e \<Rightarrow> Some ([], Some e, m)
      | Inr m1 \<Rightarrow>
          if stage = StartStateStart then
            (if tm_defaultTag m1 \<noteq> [] \<and> tm_defaultTransport m1 = None
             then Some ([], Some (Err ''default DNS server not found''), m1)
             else
               (case (if tm_defaultTransport m1 = None
                      then bind_result (with_cause ''default DNS server fallback'' fallback)
                        (\<lambda>t. Inr ((insert_object (mo_Tag t) t m1)\<lparr>tm_defaultTransport := Some t\<rparr>))
                      else Inr m1) of
                  Inl e \<Rightarrow> Some ([], Some e, m1)
                | Inr m2 \<Rightarrow> map_option (\<lambda>(cs, e). (cs, e, m2)) (startTransports ans (mg_byTag m2) (mg_objects m2))))
          else
            (case start_each (\<lambda>ob. LegacyStart ans ob stage) (mg_objects m1) of (cs, e) \<Rightarrow> Some (cs, e, m1)))"

definition transport_Close :: "answers \<Rightarrow> transport_manager \<Rightarrow> transport_manager step" where
  "transport_Close ans m =
     (if mg_started m then (close_each ans (filter mo_Closer (mg_objects m)), None, stop m) else ([], None, m))"

definition manager_Transport :: "transport_manager \<Rightarrow> string \<Rightarrow> managed option" where
  "manager_Transport m tag = mg_byTag m tag"

text \<open>Removing the default server: \<open>None\<close> is the error return.\<close>

definition next_transport :: "managed \<Rightarrow> transport_manager \<Rightarrow> transport_manager option" where
  "next_transport transport m =
     (if tm_defaultTransport m = Some transport then
        (case mg_objects m of
           [] \<Rightarrow> Some (m\<lparr>tm_defaultTransport := None\<rparr>)
         | nextTransport # _ \<Rightarrow>
             if mo_Type nextTransport \<noteq> DNSTypeFakeIP then None
             else Some (m\<lparr>tm_defaultTransport := Some nextTransport\<rparr>))
      else Some m)"

definition transport_Remove :: "answers \<Rightarrow> string \<Rightarrow> transport_manager \<Rightarrow> transport_manager step" where
  "transport_Remove ans tag m =
     (case mg_byTag m tag of
        None \<Rightarrow> ([], Some (Err ''invalid argument''), m)
      | Some transport \<Rightarrow>
          (case delete_object ''invalid inbound index'' transport (delete_tag tag m) of
             Inl e \<Rightarrow> ([], Some e, delete_tag tag m)
           | Inr m1 \<Rightarrow>
               (case next_transport transport m1 of
                  None \<Rightarrow> ([], Some (Err ''default server cannot be fakeip''), m1)
                | Some m2 \<Rightarrow>
                    if tm_dependByTag m2 tag \<noteq> [] then ([], Some (Err ''server is depended by others''), m2)
                    else
                      (let m3 = m2\<lparr>tm_dependByTag := fold (release_dependency tag) (mo_Dependencies transport) (tm_dependByTag m2)\<rparr>
                       in (if mg_started m3 then fst (call ans transport CallClose) else [], None, m3)))))"

definition set_default_transport :: "string \<Rightarrow> managed \<Rightarrow> transport_manager \<Rightarrow> transport_manager option" where
  "set_default_transport tag transport m =
     (if tag = tm_defaultTag m \<or> tm_defaultTag m = [] \<and> tm_defaultTransport m = None then
        (if mo_Type transport = DNSTypeFakeIP then None else Some (m\<lparr>tm_defaultTransport := Some transport\<rparr>))
      else Some m)"

definition transport_Create ::
    "answers \<Rightarrow> registry \<Rightarrow> string \<Rightarrow> string \<Rightarrow> transport_manager \<Rightarrow> transport_manager step" where
  "transport_Create ans reg tag type' m =
     (if tag = [] then ([], Some (Err ''invalid argument''), m)
      else
        (case registry_Create ''transport type not found'' reg tag type' of
           Inl e \<Rightarrow> ([], Some e, m)
         | Inr transport \<Rightarrow>
             (case start_created ans transport m of
                (cs, Some e) \<Rightarrow> (cs, Some e, m)
              | (cs, None) \<Rightarrow>
                  (case replace_object ''invalid inbound index'' (common_Close ans) tag m of
                     (cs', Inl e) \<Rightarrow> (cs @ cs', Some e, m)
                   | (cs', Inr m1) \<Rightarrow>
                       (let m2 = (insert_object tag transport m1)
                          \<lparr>tm_dependByTag := fold (add_dependency tag) (mo_Dependencies transport) (tm_dependByTag m1)\<rparr>
                        in (case set_default_transport tag transport m2 of
                              None \<Rightarrow> (cs @ cs', Some (Err ''default server cannot be fakeip''), m2)
                            | Some m3 \<Rightarrow>
                                if mo_Type transport = DNSTypeFakeIP then
                                  (if tm_fakeIPTransport m3 \<noteq> None
                                   then (cs @ cs', Some (Err ''multiple fakeip server are not supported''), m3)
                                   else (cs @ cs', None, m3\<lparr>tm_fakeIPTransport := Some transport\<rparr>))
                                else (cs @ cs', None, m3)))))))"

section \<open>Laws\<close>

lemma transport_Remove_tagged:
  assumes "tagged m" "transport_Remove ans tag m = (cs, e, m')"
  shows "tagged m'"
proof (cases "mg_byTag m tag")
  case (Some ob)
  then have "mg_objects m' = remove1 ob (mg_objects m)" "mg_byTag m' = (mg_byTag m)(tag := None)"
    using assms
    by (auto simp: transport_Remove_def delete_object_ok next_transport_def Let_def
        split: if_splits prod.splits option.splits list.splits)
  then show ?thesis
    by (rule tagged_without [OF assms(1) Some])
qed (use assms in \<open>simp add: transport_Remove_def\<close>)

text \<open>The default server, when it is set by creating servers, is never the FakeIP server.\<close>

lemma transport_Create_default:
  assumes "transport_Create ans reg tag type' m = (cs, e, m')"
    and "\<And>t. tm_defaultTransport m = Some t \<Longrightarrow> mo_Type t \<noteq> DNSTypeFakeIP" "tm_defaultTransport m' = Some t"
  shows "mo_Type t \<noteq> DNSTypeFakeIP"
  using assms
  by (auto simp: transport_Create_def Let_def set_default_transport_def insert_object_def replace_object_def delete_object_def
      split: if_splits sum.splits prod.splits option.splits)

section \<open>Properties\<close>

text \<open>
  C18. Removing the default server while other servers are left never makes a proper server the new default. If the first server left is
  not the FakeIP server, the removal reports that the default server cannot be FakeIP, and the removed
  server stays the default although it left the table and is not closed; if it is the FakeIP server, that one becomes the default.
\<close>

theorem transport_Remove_default:
  assumes "tagged m" "mg_byTag m tag = Some old" "tm_defaultTransport m = Some old" "mg_objects m \<noteq> [old]"
    and "transport_Remove ans tag m = (cs, e, m')"
  shows "\<exists>next. remove1 old (mg_objects m) \<noteq> [] \<and> next = hd (remove1 old (mg_objects m)) \<and> old \<notin> set (mg_objects m') \<and>
    (if mo_Type next \<noteq> DNSTypeFakeIP
     then cs = [] \<and> e = Some (Err ''default server cannot be fakeip'') \<and> tm_defaultTransport m' = Some old
     else tm_defaultTransport m' = Some next)"
proof -
  have old: "old \<in> set (mg_objects m)" "distinct (mg_objects m)"
    using tagged_D [OF assms(1)] assms(2) by auto
  have "remove1 old (mg_objects m) \<noteq> []"
    using old assms(4) by (cases "mg_objects m") (auto split: if_splits)
  then obtain next' rest where rest: "remove1 old (mg_objects m) = next' # rest"
    by (cases "remove1 old (mg_objects m)") auto
  moreover have "old \<notin> set (next' # rest)"
    using old(2) unfolding rest [symmetric] by simp
  ultimately show ?thesis
    using assms(1,2,3,5) rest
    by (auto simp: transport_Remove_def delete_object_ok next_transport_def Let_def split: if_splits)
qed

definition sample_server :: "nat \<Rightarrow> string \<Rightarrow> string \<Rightarrow> managed" where
  "sample_server i tag type' = (sample_object i tag [])\<lparr>mo_Type := type'\<rparr>"

definition sample_transports :: transport_manager where
  "sample_transports = \<lparr>mg_started = True, mg_stage = 3, mg_objects = [sample_server 0 ''a'' ''udp'', sample_server 1 ''b'' ''udp''],
     mg_byTag = [''a'' \<mapsto> sample_server 0 ''a'' ''udp'', ''b'' \<mapsto> sample_server 1 ''b'' ''udp''], tm_defaultTag = [],
     tm_dependByTag = (\<lambda>_. []), tm_defaultTransport = Some (sample_server 0 ''a'' ''udp''), tm_fakeIPTransport = None\<rparr>"

lemma sample_transports_tagged: "tagged sample_transports"
  by (auto simp: tagged_def sample_transports_def sample_server_def sample_object_def)

theorem transport_Remove_default_witness:
  "\<exists>m'. transport_Remove (\<lambda>_ _. None) ''a'' sample_transports = ([], Some (Err ''default server cannot be fakeip''), m') \<and>
     tm_defaultTransport m' = Some (sample_server 0 ''a'' ''udp'')"
proof -
  obtain cs e m' where *: "transport_Remove (\<lambda>_ _. None) ''a'' sample_transports = (cs, e, m')"
    by (metis surj_pair)
  show ?thesis
    using transport_Remove_default [OF sample_transports_tagged _ _ _ *, of "sample_server 0 ''a'' ''udp''"] *
    by (simp add: sample_transports_def sample_server_def sample_object_def DNSTypeFakeIP_def)
qed

end
