(* ===== verification/Dns_Mode.thy ===== *)
theory Dns_Mode
  imports Rule_Dns Dns_Transport
begin

text \<open>
  How the DNS router builds its rules (\<^verbatim>\<open>src/dns/router.go\<close>, \<^verbatim>\<open>buildRules\<close> and below line 870). The options of all
  rules together decide between the legacy mode, in which a rule may filter the addresses of a response
  and the next rule is tried when it does, and the current mode, in which rules evaluate a response first and
  later rules match it; options that only make sense in one of the modes are errors in the other. The metadata
  of the rule sets take part, so an update of a rule set is validated against the running mode.
\<close>

section \<open>The options of one rule\<close>

definition defaultRuleNeedsLegacyDNSModeFromAddressFilter :: "DefaultDNSRuleOptions \<Rightarrow> bool" where
  "defaultRuleNeedsLegacyDNSModeFromAddressFilter rule =
     (if dd_RuleSetIPCIDRAcceptEmpty rule then True
      else \<not> dd_MatchResponse rule \<and> (dd_IPAcceptAny rule \<or> slice (dd_IPCIDR rule) \<noteq> [] \<or> dd_IPIsPrivate rule))"

definition hasResponseMatchFields :: "DefaultDNSRuleOptions \<Rightarrow> bool" where
  "hasResponseMatchFields rule \<longleftrightarrow>
     dd_ResponseRcode rule \<noteq> None \<or> slice (dd_ResponseAnswer rule) \<noteq> [] \<or> slice (dd_ResponseNs rule) \<noteq> [] \<or>
     slice (dd_ResponseExtra rule) \<noteq> []"

definition defaultRuleDisablesLegacyDNSMode :: "DefaultDNSRuleOptions \<Rightarrow> bool" where
  "defaultRuleDisablesLegacyDNSMode rule \<longleftrightarrow>
     dd_MatchResponse rule \<or> hasResponseMatchFields rule \<or>
     da_Action (dd_DNSRuleAction rule) = RuleActionTypeEvaluate \<or> da_Action (dd_DNSRuleAction rule) = RuleActionTypeRespond \<or>
     dd_IPVersion rule > 0 \<or> slice (dd_QueryType rule) \<noteq> []"

definition dnsRuleActionDisablesLegacyDNSMode :: "DNSRuleActionOptions \<Rightarrow> bool" where
  "dnsRuleActionDisablesLegacyDNSMode act =
     (if da_Action act \<in> {[], RuleActionTypeRoute, RuleActionTypeEvaluate} then
        dra_DisableOptimisticCache (da_RouteOptions act)
      else if da_Action act = RuleActionTypeRouteOptions then dra_DisableOptimisticCache (da_RouteOptionsOptions act)
      else False)"

definition dnsRuleActionHasStrategy :: "DNSRuleActionOptions \<Rightarrow> bool" where
  "dnsRuleActionHasStrategy act =
     (if da_Action act \<in> {[], RuleActionTypeRoute, RuleActionTypeEvaluate} then
        dra_Strategy (da_RouteOptions act) \<noteq> DomainStrategyAsIS
      else if da_Action act = RuleActionTypeRouteOptions then dra_Strategy (da_RouteOptionsOptions act) \<noteq> DomainStrategyAsIS
      else False)"

text \<open>The action options of a rule by its type.\<close>

definition rule_action_options :: "DNSRuleOptions \<Rightarrow> DNSRuleActionOptions option" where
  "rule_action_options rule =
     (if du_Type rule = [] \<or> du_Type rule = RuleTypeDefault then Some (dd_DNSRuleAction (du_DefaultOptions rule))
      else if du_Type rule = RuleTypeLogical then Some (du_DNSRuleAction rule)
      else None)"

definition dnsRuleActionType :: "DNSRuleOptions \<Rightarrow> string" where
  "dnsRuleActionType rule =
     (case rule_action_options rule of
        None \<Rightarrow> []
      | Some act \<Rightarrow> if da_Action act = [] then RuleActionTypeRoute else da_Action act)"

definition dnsRuleActionServer :: "DNSRuleOptions \<Rightarrow> string" where
  "dnsRuleActionServer rule =
     (case rule_action_options rule of None \<Rightarrow> [] | Some act \<Rightarrow> dra_Server (da_RouteOptions act))"

section \<open>The mode of all rules\<close>

record dnsRuleModeFlags =
  flag_disabled :: bool
  flag_needed :: bool
  flag_neededFromStrategy :: bool

definition flags_zero :: dnsRuleModeFlags where
  "flags_zero = \<lparr>flag_disabled = False, flag_needed = False, flag_neededFromStrategy = False\<rparr>"

definition flags_merge :: "dnsRuleModeFlags \<Rightarrow> dnsRuleModeFlags \<Rightarrow> dnsRuleModeFlags" where
  "flags_merge f other = \<lparr>flag_disabled = flag_disabled f \<or> flag_disabled other,
     flag_needed = flag_needed f \<or> flag_needed other,
     flag_neededFromStrategy = flag_neededFromStrategy f \<or> flag_neededFromStrategy other\<rparr>"

text \<open>What the router says of the metadata of the rule sets; \<open>None\<close> is a router that is not there yet.\<close>

type_synonym rule_set_metadata = "string \<rightharpoonup> RuleSetMetadata"

definition lookupDNSRuleSetMetadata ::
    "rule_set_metadata \<Rightarrow> string \<Rightarrow> rule_set_metadata \<Rightarrow> RuleSetMetadata result" where
  "lookupDNSRuleSetMetadata router tag metadataOverrides =
     (case metadataOverrides tag of
        Some metadata \<Rightarrow> Inr metadata
      | None \<Rightarrow>
          (case router tag of
             None \<Rightarrow> Inl (Err ''rule-set not found: '')
           | Some metadata \<Rightarrow> Inr metadata))"

fun rule_set_flags ::
    "rule_set_metadata \<Rightarrow> bool \<Rightarrow> rule_set_metadata \<Rightarrow> string list \<Rightarrow> dnsRuleModeFlags \<Rightarrow> dnsRuleModeFlags result" where
  "rule_set_flags router matchSource overrides [] flags = Inr flags"
| "rule_set_flags router matchSource overrides (tag # rest) flags =
     bind_result (lookupDNSRuleSetMetadata router tag overrides) (\<lambda>metadata.
       rule_set_flags router matchSource overrides rest (flags\<lparr>
         flag_disabled := flag_disabled flags \<or> ContainsDNSQueryTypeRule metadata,
         flag_needed := flag_needed flags \<or> \<not> matchSource \<and> ContainsIPCIDRRule metadata\<rparr>))"

definition dnsRuleModeRequirementsInDefaultRule ::
    "rule_set_metadata option \<Rightarrow> DefaultDNSRuleOptions \<Rightarrow> rule_set_metadata \<Rightarrow> dnsRuleModeFlags result" where
  "dnsRuleModeRequirementsInDefaultRule router rule overrides =
     (let fromStrategy = dnsRuleActionHasStrategy (dd_DNSRuleAction rule);
          flags = \<lparr>flag_disabled = defaultRuleDisablesLegacyDNSMode rule \<or> dnsRuleActionDisablesLegacyDNSMode (dd_DNSRuleAction rule),
                   flag_needed = defaultRuleNeedsLegacyDNSModeFromAddressFilter rule \<or> fromStrategy,
                   flag_neededFromStrategy = fromStrategy\<rparr>
      in if slice (dd_RuleSet rule) = [] then Inr flags
         else case router of
                None \<Rightarrow> Inl (Err ''router service not found'')
              | Some r \<Rightarrow> rule_set_flags r (dd_RuleSetIPCIDRMatchSource rule) overrides (slice (dd_RuleSet rule)) flags)"

fun dnsRuleModeRequirementsInRule ::
    "rule_set_metadata option \<Rightarrow> DNSRuleOptions \<Rightarrow> rule_set_metadata \<Rightarrow> dnsRuleModeFlags result"
  and sub_rule_flags ::
    "rule_set_metadata option \<Rightarrow> DNSRuleOptions list \<Rightarrow> rule_set_metadata \<Rightarrow> dnsRuleModeFlags \<Rightarrow> dnsRuleModeFlags result" where
  "dnsRuleModeRequirementsInRule router (DNSRuleOptions ty default_options mode rules inverted act) overrides =
     (if ty = [] \<or> ty = RuleTypeDefault then dnsRuleModeRequirementsInDefaultRule router default_options overrides
      else if ty = RuleTypeLogical then
        sub_rule_flags router rules overrides
          \<lparr>flag_disabled = da_Action act = RuleActionTypeEvaluate \<or> da_Action act = RuleActionTypeRespond \<or>
             dnsRuleActionDisablesLegacyDNSMode act,
           flag_needed = dnsRuleActionHasStrategy act, flag_neededFromStrategy = dnsRuleActionHasStrategy act\<rparr>
      else Inr flags_zero)"
| "sub_rule_flags router [] overrides flags = Inr flags"
| "sub_rule_flags router (subRule # rest) overrides flags =
     bind_result (with_cause ''sub rule['' (dnsRuleModeRequirementsInRule router subRule overrides)) (\<lambda>subFlags.
       sub_rule_flags router rest overrides (flags_merge flags subFlags))"

fun all_rule_flags ::
    "rule_set_metadata option \<Rightarrow> DNSRuleOptions list \<Rightarrow> rule_set_metadata \<Rightarrow> dnsRuleModeFlags \<Rightarrow> dnsRuleModeFlags result" where
  "all_rule_flags router [] overrides flags = Inr flags"
| "all_rule_flags router (rule # rest) overrides flags =
     bind_result (with_cause ''dns rule['' (dnsRuleModeRequirementsInRule router rule overrides)) (\<lambda>ruleFlags.
       all_rule_flags router rest overrides (flags_merge flags ruleFlags))"

definition dnsRuleModeRequirements ::
    "rule_set_metadata option \<Rightarrow> DNSRuleOptions list \<Rightarrow> rule_set_metadata \<Rightarrow> dnsRuleModeFlags result" where
  "dnsRuleModeRequirements router rules overrides = all_rule_flags router rules overrides flags_zero"

definition resolveLegacyDNSMode ::
    "rule_set_metadata option \<Rightarrow> DNSRuleOptions list \<Rightarrow> rule_set_metadata \<Rightarrow> (bool \<times> dnsRuleModeFlags) result" where
  "resolveLegacyDNSMode router rules overrides =
     bind_result (dnsRuleModeRequirements router rules overrides) (\<lambda>flags.
       if flag_disabled flags \<and> flag_neededFromStrategy flags then Inl (Err ''legacy DNS rule strategy is deprecated'')
       else if flag_disabled flags then Inr (False, flags)
       else Inr (flag_needed flags, flags))"

section \<open>Validation\<close>

definition validateLegacyDNSModeDisabledDefaultRule :: "DefaultDNSRuleOptions \<Rightarrow> bool result" where
  "validateLegacyDNSModeDisabledDefaultRule rule =
     (if (hasResponseMatchFields rule \<or> slice (dd_IPCIDR rule) \<noteq> [] \<or> dd_IPIsPrivate rule \<or> dd_IPAcceptAny rule) \<and>
         \<not> dd_MatchResponse rule
      then Inl (Err ''Response Match Fields require match_response to be enabled'')
      else if dd_RuleSetIPCIDRAcceptEmpty rule then Inl (Err ''rule_set_ip_cidr_accept_empty is deprecated'')
      else Inr (dd_MatchResponse rule \<or> da_Action (dd_DNSRuleAction rule) = RuleActionTypeRespond))"

fun validateLegacyDNSModeDisabledRuleTree :: "DNSRuleOptions \<Rightarrow> bool result"
  and validate_sub_trees :: "DNSRuleOptions list \<Rightarrow> bool \<Rightarrow> bool result" where
  "validateLegacyDNSModeDisabledRuleTree (DNSRuleOptions ty default_options mode rules inverted act) =
     (if ty = [] \<or> ty = RuleTypeDefault then validateLegacyDNSModeDisabledDefaultRule default_options
      else if ty = RuleTypeLogical then validate_sub_trees rules (da_Action act = RuleActionTypeRespond)
      else Inr False)"
| "validate_sub_trees [] requires = Inr requires"
| "validate_sub_trees (subRule # rest) requires =
     bind_result (with_cause ''sub rule['' (validateLegacyDNSModeDisabledRuleTree subRule)) (\<lambda>subRequires.
       validate_sub_trees rest (requires \<or> subRequires))"

fun validate_evaluated :: "DNSRuleOptions list \<Rightarrow> bool \<Rightarrow> err option" where
  "validate_evaluated [] seenEvaluate = None"
| "validate_evaluated (rule # rest) seenEvaluate =
     (case with_cause ''validate dns rule['' (validateLegacyDNSModeDisabledRuleTree rule) of
        Inl e \<Rightarrow> Some e
      | Inr requiresPriorEvaluate \<Rightarrow>
          if requiresPriorEvaluate \<and> \<not> seenEvaluate then
            Some (Err ''response-based matching requires a preceding evaluate action'')
          else validate_evaluated rest (seenEvaluate \<or> dnsRuleActionType rule = RuleActionTypeEvaluate))"

definition validateLegacyDNSModeDisabledRules :: "DNSRuleOptions list \<Rightarrow> err option" where
  "validateLegacyDNSModeDisabledRules rules = validate_evaluated rules False"

text \<open>The manager of DNS servers is an argument; \<open>None\<close> is nil.\<close>

fun validateEvaluateFakeIPRules :: "DNSRuleOptions list \<Rightarrow> transport_manager option \<Rightarrow> err option" where
  "validateEvaluateFakeIPRules rules None = None"
| "validateEvaluateFakeIPRules [] (Some tm) = None"
| "validateEvaluateFakeIPRules (rule # rest) (Some tm) =
     (if dnsRuleActionType rule \<noteq> RuleActionTypeEvaluate \<or> dnsRuleActionServer rule = [] then
        validateEvaluateFakeIPRules rest (Some tm)
      else
        (case manager_Transport tm (dnsRuleActionServer rule) of
           Some transport \<Rightarrow>
             if mo_Type transport = DNSTypeFakeIP then Some (Err ''evaluate action cannot use fakeip server'')
             else validateEvaluateFakeIPRules rest (Some tm)
         | None \<Rightarrow> validateEvaluateFakeIPRules rest (Some tm)))"

section \<open>Building the rules\<close>

fun validate_nested :: "DNSRuleOptions list \<Rightarrow> unit result" where
  "validate_nested [] = Inr ()"
| "validate_nested (rule # rest) =
     bind_result (with_cause ''parse dns rule['' (validateNoNestedDNSRuleActions False rule)) (\<lambda>_. validate_nested rest)"

fun parse_dns_rules :: "golib \<Rightarrow> bool \<Rightarrow> DNSRuleOptions list \<Rightarrow> dns_rule list result" where
  "parse_dns_rules lib legacyDNSMode [] = Inr []"
| "parse_dns_rules lib legacyDNSMode (rule # rest) =
     bind_result (with_cause ''parse dns rule['' (NewDNSRule lib True legacyDNSMode rule)) (\<lambda>dnsRule.
     bind_result (parse_dns_rules lib legacyDNSMode rest) (\<lambda>rules. Inr (dnsRule # rules)))"

text \<open>What building needs of the other components: the rule sets by their tags (with the heap that holds
  them), the outbounds with preferred routes, and the DNS servers.\<close>

record dns_services =
  ds_RuleSet :: "string \<rightharpoonup> rule_set_ref"
  ds_PreferredBy :: preferred_manager
  ds_Transports :: "transport_manager option"

definition rule_sets_metadata :: "dns_services \<Rightarrow> rule_set_heap \<Rightarrow> rule_set_metadata" where
  "rule_sets_metadata services heap = (\<lambda>tag. map_option (\<lambda>ref. rs_Metadata (heap ref)) (ds_RuleSet services tag))"

definition option_error :: "err option \<Rightarrow> unit result" where
  "option_error e = (case e of None \<Rightarrow> Inr () | Some x \<Rightarrow> Inl x)"

definition buildRules ::
    "golib \<Rightarrow> dns_services \<Rightarrow> DNSRuleOptions list \<Rightarrow> bool \<Rightarrow> rule_set_heap \<Rightarrow>
     (dns_rule list \<times> bool \<times> dnsRuleModeFlags \<times> rule_set_heap) result" where
  "buildRules lib services rawRules startRules heap =
     bind_result (validate_nested rawRules) (\<lambda>_.
     bind_result (resolveLegacyDNSMode (Some (rule_sets_metadata services heap)) rawRules Map.empty) (\<lambda>(legacyDNSMode, modeFlags).
     bind_result (if legacyDNSMode then Inr () else option_error (validateLegacyDNSModeDisabledRules rawRules)) (\<lambda>_.
     bind_result (option_error (validateEvaluateFakeIPRules rawRules (ds_Transports services))) (\<lambda>_.
     bind_result (parse_dns_rules lib legacyDNSMode rawRules) (\<lambda>newRules.
       if startRules then
         bind_result (with_cause ''initialize DNS rule['' (dns_rules_Start (ds_PreferredBy services) (ds_RuleSet services) newRules heap))
           (\<lambda>(rules', heap'). Inr (rules', legacyDNSMode, modeFlags, heap'))
       else Inr (newRules, legacyDNSMode, modeFlags, heap))))))"

section \<open>From options to rules\<close>

text \<open>What the modes distinguish, in the options and in the rules built from them.\<close>

fun options_match_response :: "DNSRuleOptions \<Rightarrow> bool" where
  "options_match_response (DNSRuleOptions ty default_options mode rules inverted act) =
     (if ty = [] \<or> ty = RuleTypeDefault then dd_MatchResponse default_options
      else if ty = RuleTypeLogical then list_ex options_match_response rules else False)"

fun action_options :: "rule_action option \<Rightarrow> RuleActionDNSRouteOptions option" where
  "action_options (Some (ActionDNSRoute server options)) = Some options"
| "action_options (Some (ActionEvaluate server options)) = Some options"
| "action_options (Some (ActionDNSRouteOptions options)) = Some options"
| "action_options act = None"

definition evaluates :: "dns_rule \<Rightarrow> bool" where
  "evaluates rule \<longleftrightarrow> (\<exists>server options. dns_Action rule = Some (ActionEvaluate server options))"

definition uses_response :: "dns_rule \<Rightarrow> bool" where
  "uses_response rule \<longleftrightarrow> matches_response rule \<or> dns_Action rule = Some ActionRespond"

lemma NewDNSRule_matches_response:
  "NewDNSRule lib check legacy options = Inr rule \<Longrightarrow> matches_response rule = options_match_response options"
  "NewDNSSubRules lib legacy os = Inr rules \<Longrightarrow> list_ex matches_response rules = list_ex options_match_response os"
proof (induction lib check legacy options and lib legacy os arbitrary: rule and rules
    rule: NewDNSRule_NewDNSSubRules.induct)
  case (1 lib check legacy ty default_options mode rules inverted act)
  from "1.prems" show ?case
  proof (cases rule: NewDNSRule_cases)
    case default
    then show ?thesis
      by (auto elim: NewDefaultDNSRule_cases)
  next
    case (logical a rs)
    then show ?thesis
      using "1.IH" by (simp add: bind_result_Inr_iff)
  qed
qed (auto simp: bind_result_Inr_iff)

lemma NewDNSRule_action_options:
  assumes "NewDNSRule lib check legacy options = Inr rule"
  shows "\<exists>act. rule_action_options options = Some act \<and> check_dns_action check act = Inr () \<and> NewDNSRuleAction act = Inr (dns_Action rule)"
proof (cases options)
  case (DNSRuleOptions ty default_options mode rules inverted act)
  from assms [unfolded this] show ?thesis
  proof (cases rule: NewDNSRule_cases)
    case default
    then show ?thesis
      using DNSRuleOptions NewDefaultDNSRule_wf [OF default(3)] by (auto simp: rule_action_options_def)
  next
    case (logical a rs)
    then show ?thesis
      using DNSRuleOptions by (simp add: rule_action_options_def)
  qed
qed

lemma parse_dns_rules_nth:
  "parse_dns_rules lib legacy os = Inr rules \<Longrightarrow>
   length rules = length os \<and> (\<forall>i<length os. NewDNSRule lib True legacy (os ! i) = Inr (rules ! i))"
proof (induction os arbitrary: rules)
  case (Cons o' os)
  then show ?case
    by (auto simp: bind_result_Inr_iff nth_Cons split: nat.splits)
qed simp

text \<open>Starting a rule keeps its action and whether it matches the response.\<close>

lemma dns_Start_keeps:
  "dns_Start mgr router rule heap = Inr (rule', heap') \<Longrightarrow>
   dns_Action rule' = dns_Action rule \<and> matches_response rule' = matches_response rule"
  "dns_rules_Start mgr router rules heap = Inr (rules', heap') \<Longrightarrow>
   list_all2 (\<lambda>a b. dns_Action b = dns_Action a \<and> matches_response b = matches_response a) rules rules'"
proof (induction mgr router rule heap and mgr router rules heap arbitrary: rule' heap' and rules' heap'
    rule: dns_Start_dns_rules_Start.induct)
  case (2 mgr router mode rules inverted act heap)
  then obtain rs where rs: "rule' = LogicalDNSRule mode rs inverted act"
    "list_all2 (\<lambda>a b. dns_Action b = dns_Action a \<and> matches_response b = matches_response a) rules rs"
    by (auto simp: bind_result_Inr_iff)
  have "list_ex matches_response rs = list_ex matches_response rules"
    using rs(2) by (induction rule: list_all2_induct) auto
  then show ?case
    using rs(1) by simp
qed (auto simp: bind_result_Inr_iff default_Start_def)

section \<open>What the flags say\<close>

definition flags_le :: "dnsRuleModeFlags \<Rightarrow> dnsRuleModeFlags \<Rightarrow> bool" where
  "flags_le f g \<longleftrightarrow> (flag_disabled f \<longrightarrow> flag_disabled g) \<and> (flag_needed f \<longrightarrow> flag_needed g) \<and>
     (flag_neededFromStrategy f \<longrightarrow> flag_neededFromStrategy g)"

lemma flags_le_refl [simp, intro]: "flags_le f f"
  by (simp add: flags_le_def)

lemma flags_le_trans [trans]: "flags_le f g \<Longrightarrow> flags_le g h \<Longrightarrow> flags_le f h"
  by (simp add: flags_le_def)

lemma flags_le_merge [simp]: "flags_le (flags_merge f g) h \<longleftrightarrow> flags_le f h \<and> flags_le g h"
  by (auto simp: flags_le_def flags_merge_def)

lemma rule_set_flags_le: "rule_set_flags r b ov tags f = Inr g \<Longrightarrow> flags_le f g"
proof (induction tags arbitrary: f)
  case (Cons tag tags)
  then show ?case
    by (fastforce simp: bind_result_Inr_iff flags_le_def)
qed simp

lemma sub_rule_flags_le:
  "sub_rule_flags router rules ov f = Inr g \<Longrightarrow>
   flags_le f g \<and> (\<forall>rule\<in>set rules. \<exists>rf. dnsRuleModeRequirementsInRule router rule ov = Inr rf \<and> flags_le rf g)"
proof (induction rules arbitrary: f)
  case (Cons rule rules)
  then obtain rf where "dnsRuleModeRequirementsInRule router rule ov = Inr rf"
    "sub_rule_flags router rules ov (flags_merge f rf) = Inr g"
    by (auto simp: bind_result_Inr_iff)
  then show ?case
    using Cons.IH [of "flags_merge f rf"] by simp
qed simp

lemma all_rule_flags_le:
  "all_rule_flags router rules ov f = Inr g \<Longrightarrow>
   flags_le f g \<and> (\<forall>rule\<in>set rules. \<exists>rf. dnsRuleModeRequirementsInRule router rule ov = Inr rf \<and> flags_le rf g)"
proof (induction rules arbitrary: f)
  case (Cons rule rules)
  then obtain rf where "dnsRuleModeRequirementsInRule router rule ov = Inr rf"
    "all_rule_flags router rules ov (flags_merge f rf) = Inr g"
    by (auto simp: bind_result_Inr_iff)
  then show ?case
    using Cons.IH [of "flags_merge f rf"] by simp
qed simp

text \<open>A rule that matches the response, evaluates, responds or turns the optimistic cache off disables the legacy mode; a
  strategy asks for it.\<close>

definition action_disables :: "DNSRuleActionOptions \<Rightarrow> bool" where
  "action_disables act \<longleftrightarrow> da_Action act = RuleActionTypeEvaluate \<or> da_Action act = RuleActionTypeRespond \<or>
     dnsRuleActionDisablesLegacyDNSMode act"

lemma default_rule_flags:
  assumes "dnsRuleModeRequirementsInDefaultRule router rule ov = Inr f"
  shows "(dd_MatchResponse rule \<or> action_disables (dd_DNSRuleAction rule) \<longrightarrow> flag_disabled f) \<and>
    (dnsRuleActionHasStrategy (dd_DNSRuleAction rule) \<longrightarrow> flag_neededFromStrategy f \<and> flag_needed f)"
  using assms
  by (auto simp: dnsRuleModeRequirementsInDefaultRule_def defaultRuleDisablesLegacyDNSMode_def action_disables_def flags_le_def
      Let_def dest!: rule_set_flags_le split: if_splits option.splits)

lemma rule_flags:
  "dnsRuleModeRequirementsInRule router rule ov = Inr f \<Longrightarrow> rule_action_options rule = Some act \<Longrightarrow>
   (options_match_response rule \<or> action_disables act \<longrightarrow> flag_disabled f) \<and>
   (dnsRuleActionHasStrategy act \<longrightarrow> flag_neededFromStrategy f \<and> flag_needed f)"
proof (induction rule arbitrary: f act)
  case (DNSRuleOptions ty default_options mode rules inverted act')
  show ?case
  proof (cases "ty = [] \<or> ty = RuleTypeDefault")
    case True
    then have "act = dd_DNSRuleAction default_options" "dnsRuleModeRequirementsInDefaultRule router default_options ov = Inr f"
      using DNSRuleOptions.prems by (simp_all add: rule_action_options_def)
    moreover have "options_match_response (DNSRuleOptions ty default_options mode rules inverted act') = dd_MatchResponse default_options"
      using True by simp
    ultimately show ?thesis
      using default_rule_flags by metis
  next
    case False
    then have ty: "ty = RuleTypeLogical" "act' = act"
      using DNSRuleOptions.prems(2) by (auto simp: rule_action_options_def split: if_splits)
    define f0 where "f0 = \<lparr>flag_disabled = da_Action act = RuleActionTypeEvaluate \<or> da_Action act = RuleActionTypeRespond \<or>
        dnsRuleActionDisablesLegacyDNSMode act, flag_needed = dnsRuleActionHasStrategy act, flag_neededFromStrategy = dnsRuleActionHasStrategy act\<rparr>"
    have sub: "sub_rule_flags router rules ov f0 = Inr f"
      using DNSRuleOptions.prems(1) False ty by (simp add: f0_def)
    have "flag_disabled f" if "r \<in> set rules" "options_match_response r" for r
    proof -
      note r = that(1)
      obtain rf where rf: "dnsRuleModeRequirementsInRule router r ov = Inr rf" "flags_le rf f"
        using sub_rule_flags_le [OF sub, THEN conjunct2, THEN bspec, OF r] by (elim exE conjE)
      have "\<exists>a. rule_action_options r = Some a"
        using that(2) by (cases r) (auto simp: rule_action_options_def split: if_splits)
      then show ?thesis
        using DNSRuleOptions.IH [OF that(1) rf(1)] that(2) rf(2) by (auto simp: flags_le_def)
    qed
    moreover have "options_match_response (DNSRuleOptions ty default_options mode rules inverted act') \<longleftrightarrow>
        (\<exists>r\<in>set rules. options_match_response r)"
      using False ty(1) by (simp add: list_ex_iff)
    moreover have "flags_le f0 f"
      using sub_rule_flags_le [OF sub] by simp
    ultimately show ?thesis
      unfolding flags_le_def f0_def action_disables_def by auto
  qed
qed

section \<open>What validation says\<close>

lemma validate_sub_trees_Inr:
  "validate_sub_trees rules b = Inr c \<Longrightarrow> c \<longleftrightarrow> b \<or> (\<exists>rule\<in>set rules. validateLegacyDNSModeDisabledRuleTree rule = Inr True)"
proof (induction rules arbitrary: b)
  case (Cons rule rules)
  then obtain d where "validateLegacyDNSModeDisabledRuleTree rule = Inr d" "validate_sub_trees rules (b \<or> d) = Inr c"
    by (auto simp: bind_result_Inr_iff)
  then show ?case
    using Cons.IH [of "b \<or> d"] by auto
qed simp

lemma validate_sub_trees_each:
  "validate_sub_trees rules b = Inr c \<Longrightarrow> rule \<in> set rules \<Longrightarrow> \<exists>d. validateLegacyDNSModeDisabledRuleTree rule = Inr d"
  by (induction rules arbitrary: b) (auto simp: bind_result_Inr_iff)

lemma validate_tree:
  "validateLegacyDNSModeDisabledRuleTree rule = Inr c \<Longrightarrow> rule_action_options rule = Some act \<Longrightarrow>
   options_match_response rule \<or> da_Action act = RuleActionTypeRespond \<Longrightarrow> c"
proof (induction rule arbitrary: c act)
  case (DNSRuleOptions ty default_options mode rules inverted act')
  show ?case
  proof (cases "ty = [] \<or> ty = RuleTypeDefault")
    case True
    then show ?thesis
      using DNSRuleOptions.prems
      by (auto simp: rule_action_options_def validateLegacyDNSModeDisabledDefaultRule_def split: if_splits)
  next
    case False
    then have ty: "ty = RuleTypeLogical" "act' = act"
      using DNSRuleOptions.prems(2) by (auto simp: rule_action_options_def split: if_splits)
    have sub: "validate_sub_trees rules (da_Action act = RuleActionTypeRespond) = Inr c"
      using DNSRuleOptions.prems(1) False ty by simp
    have "c" if r: "r \<in> set rules" "options_match_response r" for r
    proof -
      obtain d where d: "validateLegacyDNSModeDisabledRuleTree r = Inr d"
        using validate_sub_trees_each [OF sub r(1)] by blast
      moreover obtain a where "rule_action_options r = Some a"
        using r(2) by (cases r) (auto simp: rule_action_options_def split: if_splits)
      ultimately have "d"
        using DNSRuleOptions.IH [OF r(1)] r(2) by blast
      then show ?thesis
        using validate_sub_trees_Inr [OF sub] r(1) d by auto
    qed
    then show ?thesis
      using DNSRuleOptions.prems(3) False ty validate_sub_trees_Inr [OF sub] by (auto simp: list_ex_iff)
  qed
qed

text \<open>A rule that needs a response comes after a rule that evaluates one.\<close>

lemma validate_evaluated_nth:
  "validate_evaluated rules seen = None \<Longrightarrow> i < length rules \<Longrightarrow> \<exists>c. validateLegacyDNSModeDisabledRuleTree (rules ! i) = Inr c \<and>
     (c \<longrightarrow> seen \<or> (\<exists>j<i. dnsRuleActionType (rules ! j) = RuleActionTypeEvaluate))"
proof (induction rules arbitrary: seen i)
  case (Cons rule rules)
  obtain c where c: "validateLegacyDNSModeDisabledRuleTree rule = Inr c" "c \<longrightarrow> seen"
    "validate_evaluated rules (seen \<or> dnsRuleActionType rule = RuleActionTypeEvaluate) = None"
    using Cons.prems(1) by (auto simp: with_cause_def split: sum.splits if_splits err.splits)
  show ?case
  proof (cases i)
    case (Suc n)
    then show ?thesis
      using Cons.IH [OF c(3), of n] Cons.prems(2) by (auto simp: Ex_less_Suc2)
  qed (use c in simp)
qed simp

lemma validateEvaluateFakeIPRules_each:
  "validateEvaluateFakeIPRules rules (Some tm) = None \<Longrightarrow> rule \<in> set rules \<Longrightarrow> dnsRuleActionType rule = RuleActionTypeEvaluate \<Longrightarrow>
   dnsRuleActionServer rule \<noteq> [] \<Longrightarrow> manager_Transport tm (dnsRuleActionServer rule) = Some t \<Longrightarrow> mo_Type t \<noteq> DNSTypeFakeIP"
  by (induction rules) (auto split: if_splits option.splits)

section \<open>Built rules\<close>

lemma action_type_simps [simp]:
  "RuleActionTypeRoute \<noteq> []" "RuleActionTypeEvaluate \<noteq> []" "RuleActionTypeRespond \<noteq> []" "RuleActionTypeRouteOptions \<noteq> []"
  by (simp_all add: RuleActionTypeRoute_def RuleActionTypeEvaluate_def RuleActionTypeRespond_def RuleActionTypeRouteOptions_def)

lemma built_action:
  assumes "NewDNSRuleAction act = Inr a"
  shows "action_options a = Some o' \<Longrightarrow> dnsRuleActionHasStrategy act \<longleftrightarrow> dro_Strategy o' \<noteq> DomainStrategyAsIS"
    "action_options a = Some o' \<Longrightarrow> dnsRuleActionDisablesLegacyDNSMode act \<longleftrightarrow> dro_DisableOptimisticCache o'"
    "(\<exists>s opts. a = Some (ActionEvaluate s opts)) \<longleftrightarrow> da_Action act = RuleActionTypeEvaluate"
    "a = Some ActionRespond \<longleftrightarrow> da_Action act = RuleActionTypeRespond"
  using assms
  by (auto simp: NewDNSRuleAction_def dnsRuleActionHasStrategy_def dnsRuleActionDisablesLegacyDNSMode_def dns_route_fields_def
      RuleActionTypeRoute_def RuleActionTypeEvaluate_def RuleActionTypeRespond_def RuleActionTypeRouteOptions_def Let_def split: if_splits)

text \<open>Every built rule with the options it was built from.\<close>

lemma buildRules_cases:
  assumes "buildRules lib services raw start heap = Inr (rules, legacy, flags, heap')"
  obtains "resolveLegacyDNSMode (Some (rule_sets_metadata services heap)) raw Map.empty = Inr (legacy, flags)"
    "\<not> legacy \<Longrightarrow> validateLegacyDNSModeDisabledRules raw = None"
    "length rules = length raw"
    "\<And>i. i < length raw \<Longrightarrow> \<exists>rule. NewDNSRule lib True legacy (raw ! i) = Inr rule \<and> dns_Action (rules ! i) = dns_Action rule \<and>
       matches_response (rules ! i) = matches_response rule"
proof -
  obtain ps where ps: "resolveLegacyDNSMode (Some (rule_sets_metadata services heap)) raw Map.empty = Inr (legacy, flags)"
    "\<not> legacy \<longrightarrow> validateLegacyDNSModeDisabledRules raw = None" "parse_dns_rules lib legacy raw = Inr ps"
    "rules = ps \<or> dns_rules_Start (ds_PreferredBy services) (ds_RuleSet services) ps heap = Inr (rules, heap')"
    using assms by (auto simp: buildRules_def bind_result_Inr_iff option_error_def split: if_splits option.splits)
  have "list_all2 (\<lambda>a b. dns_Action b = dns_Action a \<and> matches_response b = matches_response a) ps rules"
    using ps(4) dns_Start_keeps(2) by (auto simp: list_all2_same)
  then show ?thesis
    using that [OF ps(1)] ps(2) parse_dns_rules_nth [OF ps(3)] by (simp add: list_all2_conv_all_nth)
qed

text \<open>The facts of the options of a rule that the modes rest on.\<close>

lemma mode_of_rule:
  assumes "resolveLegacyDNSMode router raw ov = Inr (legacy, flags)" "o' \<in> set raw"
    and "NewDNSRule lib True legacy o' = Inr rule" "rule_action_options o' = Some act"
  shows "legacy \<longrightarrow> \<not> options_match_response o' \<and> \<not> action_disables act" "\<not> legacy \<longrightarrow> \<not> dnsRuleActionHasStrategy act"
proof -
  obtain g where g: "dnsRuleModeRequirements router raw ov = Inr g" "flags = g"
    "\<not> (flag_disabled g \<and> flag_neededFromStrategy g)" "legacy \<longleftrightarrow> \<not> flag_disabled g \<and> flag_needed g"
    using assms(1) by (auto simp: resolveLegacyDNSMode_def bind_result_Inr_iff split: if_splits)
  have le: "\<exists>rf. dnsRuleModeRequirementsInRule router o' ov = Inr rf \<and> flags_le rf g"
    using all_rule_flags_le [OF g(1) [unfolded dnsRuleModeRequirements_def], THEN conjunct2, THEN bspec, OF assms(2)] .
  then obtain rf where rf: "dnsRuleModeRequirementsInRule router o' ov = Inr rf" "flags_le rf g"
    by (elim exE conjE)
  note flags = rule_flags [OF rf(1) assms(4)]
  show "legacy \<longrightarrow> \<not> options_match_response o' \<and> \<not> action_disables act" "\<not> legacy \<longrightarrow> \<not> dnsRuleActionHasStrategy act"
    using flags rf(2) g(3,4) unfolding flags_le_def by auto
qed

section \<open>Properties\<close>

text \<open>
  C19. The rules the router runs fit the mode it runs them in. In the legacy mode no rule reads a response that
  an earlier rule evaluated, evaluates or responds, and none turns the optimistic cache off, which that mode would not
  carry out. In the current mode no rule carries a strategy, which that mode skips, and every rule that
  reads an evaluated response or responds with it comes after a rule that evaluates one.
\<close>

theorem buildRules_mode_sound:
  assumes "buildRules lib services raw start heap = Inr (rules, legacy, flags, heap')"
  shows "if legacy
    then \<forall>rule\<in>set rules. \<not> uses_response rule \<and> \<not> evaluates rule \<and>
      (\<forall>o'. action_options (dns_Action rule) = Some o' \<longrightarrow> \<not> dro_DisableOptimisticCache o')
    else (\<forall>rule\<in>set rules. \<forall>o'. action_options (dns_Action rule) = Some o' \<longrightarrow> dro_Strategy o' = DomainStrategyAsIS) \<and>
      (\<forall>i<length rules. uses_response (rules ! i) \<longrightarrow> (\<exists>j<i. evaluates (rules ! j)))"
  using assms
proof (cases rule: buildRules_cases)
  case 1
  have built: "\<exists>act. rule_action_options (raw ! i) = Some act \<and> NewDNSRuleAction act = Inr (dns_Action (rules ! i)) \<and>
      matches_response (rules ! i) = options_match_response (raw ! i) \<and>
      (legacy \<longrightarrow> \<not> options_match_response (raw ! i) \<and> \<not> action_disables act) \<and> (\<not> legacy \<longrightarrow> \<not> dnsRuleActionHasStrategy act)"
    if i: "i < length raw" for i
  proof -
    obtain rule where rule: "NewDNSRule lib True legacy (raw ! i) = Inr rule" "dns_Action (rules ! i) = dns_Action rule"
      "matches_response (rules ! i) = matches_response rule"
      using 1(4) [OF i] by blast
    then show ?thesis
      using NewDNSRule_action_options [OF rule(1)] NewDNSRule_matches_response(1) [OF rule(1)]
        mode_of_rule [OF 1(1) nth_mem [OF i] rule(1)] by auto
  qed
  show ?thesis
  proof (cases legacy)
    case True
    have "\<not> uses_response (rules ! i) \<and> \<not> evaluates (rules ! i) \<and>
        (\<forall>o'. action_options (dns_Action (rules ! i)) = Some o' \<longrightarrow> \<not> dro_DisableOptimisticCache o')" if "i < length raw" for i
      using built [OF that] True built_action unfolding uses_response_def evaluates_def action_disables_def by metis
    then show ?thesis
      using True 1(3) by (auto simp: in_set_conv_nth)
  next
    case False
    have "\<forall>o'. action_options (dns_Action (rules ! i)) = Some o' \<longrightarrow> dro_Strategy o' = DomainStrategyAsIS" if "i < length raw" for i
      using built [OF that] False built_action(1) by blast
    moreover have "\<exists>j<i. evaluates (rules ! j)" if i: "i < length raw" "uses_response (rules ! i)" for i
    proof -
      have "\<exists>j<i. dnsRuleActionType (raw ! j) = RuleActionTypeEvaluate"
        using validate_evaluated_nth [OF 1(2) [OF False, unfolded validateLegacyDNSModeDisabledRules_def] i(1)]
          validate_tree built [OF i(1)] built_action(4) i(2) unfolding uses_response_def by metis
      then obtain j where j: "j < i" "dnsRuleActionType (raw ! j) = RuleActionTypeEvaluate"
        by blast
      obtain act where "rule_action_options (raw ! j) = Some act" "NewDNSRuleAction act = Inr (dns_Action (rules ! j))"
        using built [of j] i(1) j(1) by auto
      then have "evaluates (rules ! j)"
        using j(2) built_action(3) unfolding evaluates_def dnsRuleActionType_def
        by (auto simp: RuleActionTypeRoute_def RuleActionTypeEvaluate_def split: if_splits)
      then show ?thesis
        using j(1) by blast
    qed
    ultimately show ?thesis
      using False 1(3) by (auto simp: in_set_conv_nth)
  qed
qed

text \<open>Evaluate with one server, then respond when the addresses are private.\<close>

definition sample_raw_rules :: "DNSRuleOptions list" where
  "sample_raw_rules = [
     DNSRuleOptions RuleTypeDefault (DefaultDNSRuleOptions_zero\<lparr>dd_Network := Some [''udp''],
       dd_DNSRuleAction := DNSRuleActionOptions_zero\<lparr>da_Action := RuleActionTypeEvaluate,
         da_RouteOptions := DNSRouteActionOptions_zero\<lparr>dra_Server := ''local''\<rparr>\<rparr>\<rparr>) [] [] False DNSRuleActionOptions_zero,
     DNSRuleOptions RuleTypeDefault (DefaultDNSRuleOptions_zero\<lparr>dd_MatchResponse := True, dd_IPIsPrivate := True,
       dd_DNSRuleAction := DNSRuleActionOptions_zero\<lparr>da_Action := RuleActionTypeRespond\<rparr>\<rparr>) [] [] False DNSRuleActionOptions_zero]"

definition sample_services :: dns_services where
  "sample_services = \<lparr>ds_RuleSet = Map.empty, ds_PreferredBy = (\<lambda>_. None), ds_Transports = None\<rparr>"

lemmas sample_build_simps = DefaultDNSRule_IsValid_def DefaultDNSRuleOptions_zero_def DNSRuleActionOptions_zero_def
  DNSRouteActionOptions_zero_def RuleTypeDefault_def RuleTypeLogical_def RuleActionTypeRoute_def RuleActionTypeEvaluate_def
  RuleActionTypeRespond_def RuleActionTypeRouteOptions_def RuleActionTypeReject_def RuleActionTypePredefined_def
  check_dns_action_def validateDNSRuleAction_def NewDNSRuleAction_def NewDefaultDNSRule_def dns_rule_steps_def build_simps

lemma sample_parse:
  "\<exists>rules. parse_dns_rules sample_lib False sample_raw_rules = Inr rules \<and> length rules = 2 \<and> uses_response (rules ! 1)"
  by (simp add: sample_raw_rules_def sample_build_simps uses_response_def new_rule_def append_item.simps dns_route_fields_def)

lemma sample_resolve:
  "resolveLegacyDNSMode (Some router) sample_raw_rules ov =
     Inr (False, \<lparr>flag_disabled = True, flag_needed = False, flag_neededFromStrategy = False\<rparr>)"
  by (simp add: sample_raw_rules_def resolveLegacyDNSMode_def dnsRuleModeRequirements_def dnsRuleModeRequirementsInDefaultRule_def
      defaultRuleDisablesLegacyDNSMode_def dnsRuleActionDisablesLegacyDNSMode_def dnsRuleActionHasStrategy_def strategy_defs
      defaultRuleNeedsLegacyDNSModeFromAddressFilter_def hasResponseMatchFields_def flags_zero_def flags_merge_def Let_def
      DefaultDNSRuleOptions_zero_def DNSRuleActionOptions_zero_def DNSRouteActionOptions_zero_def RuleTypeDefault_def
      RuleActionTypeEvaluate_def RuleActionTypeRespond_def RuleActionTypeRoute_def RuleActionTypeRouteOptions_def)

lemma sample_validate: "validateLegacyDNSModeDisabledRules sample_raw_rules = None" "validate_nested sample_raw_rules = Inr ()"
  by (simp_all add: sample_raw_rules_def validateLegacyDNSModeDisabledRules_def validateLegacyDNSModeDisabledDefaultRule_def
      hasResponseMatchFields_def dnsRuleActionType_def rule_action_options_def DefaultDNSRuleOptions_zero_def
      DNSRuleActionOptions_zero_def RuleTypeDefault_def RuleTypeLogical_def RuleActionTypeEvaluate_def RuleActionTypeRespond_def)

theorem buildRules_mode_sound_witness:
  "\<exists>rules flags heap'. buildRules sample_lib sample_services sample_raw_rules False (\<lambda>_. sample_rule_set) =
     Inr (rules, False, flags, heap') \<and> length rules = 2 \<and> uses_response (rules ! 1) \<and> (\<exists>j<1. evaluates (rules ! j))"
proof -
  obtain rules where rules: "parse_dns_rules sample_lib False sample_raw_rules = Inr rules" "length rules = 2" "uses_response (rules ! 1)"
    using sample_parse by blast
  have "\<exists>flags. buildRules sample_lib sample_services sample_raw_rules False (\<lambda>_. sample_rule_set) =
      Inr (rules, False, flags, \<lambda>_. sample_rule_set)"
    using rules(1) by (simp add: buildRules_def sample_resolve sample_validate sample_services_def option_error_def)
  then obtain flags where *: "buildRules sample_lib sample_services sample_raw_rules False (\<lambda>_. sample_rule_set) =
      Inr (rules, False, flags, \<lambda>_. sample_rule_set)" ..
  have "\<forall>i<length rules. uses_response (rules ! i) \<longrightarrow> (\<exists>j<i. evaluates (rules ! j))"
    using buildRules_mode_sound [OF *] by simp
  then have "\<exists>j<1. evaluates (rules ! j)"
    using rules(2,3) by (elim allE [of _ 1]) simp
  then show ?thesis
    using * rules(2,3) by (intro exI [of _ rules] exI [of _ flags] exI conjI) simp_all
qed

end
