(* ===== verification/Dns_Router.thy ===== *)
theory Dns_Router
  imports Dns_Mode
begin

text \<open>
  The DNS router (\<^verbatim>\<open>src/dns/router.go\<close>): it takes a query or a lookup through the DNS rules and hands it to the
  DNS client. The client is an argument, the record of operations \<open>client_ops\<close> (the interface
  \<^verbatim>\<open>adapter.DNSClient\<close>), and so are the matching environment and the servers, in the record \<open>router_ctx\<close>.

  The loops of the legacy mode, which go back to the rules when a response was rejected, have no bound in the
  code: they are partial functions, and not returning is the value \<open>None\<close>.
\<close>

section \<open>The client and the servers\<close>

record 'c client_ops =
  cl_Exchange :: "dns_transport \<Rightarrow> dns_msg \<Rightarrow> DNSQueryOptions \<Rightarrow> (dns_msg \<Rightarrow> bool) option \<Rightarrow> 'c \<Rightarrow> dns_msg dns_result \<times> 'c"
  cl_Lookup :: "dns_transport \<Rightarrow> string \<Rightarrow> DNSQueryOptions \<Rightarrow> (dns_msg \<Rightarrow> bool) option \<Rightarrow> 'c \<Rightarrow> addr list dns_result \<times> 'c"

record router_ctx =
  rx_lib :: golib
  rx_dl :: dnslib
  rx_env :: netenv
  rx_heap :: rule_set_heap
  rx_Transports :: transport_manager

definition dns_transport_of :: "managed \<Rightarrow> dns_transport" where
  "dns_transport_of t = \<lparr>tr_Tag = mo_Tag t, tr_Type = mo_Type t\<rparr>"

text \<open>A nil server: the client asks it for its tag.\<close>

definition nil_transport :: "'a dns_result" where
  "nil_transport = Inl (ErrOther (Panic ''nil pointer dereference''))"

definition exchange_with ::
    "'c client_ops \<Rightarrow> managed option \<Rightarrow> dns_msg \<Rightarrow> DNSQueryOptions \<Rightarrow> (dns_msg \<Rightarrow> bool) option \<Rightarrow> 'c \<Rightarrow> dns_msg dns_result \<times> 'c" where
  "exchange_with ops transport message options check c =
     (case transport of
        None \<Rightarrow> (nil_transport, c)
      | Some t \<Rightarrow> cl_Exchange ops (dns_transport_of t) message options check c)"

definition lookup_with ::
    "'c client_ops \<Rightarrow> managed option \<Rightarrow> string \<Rightarrow> DNSQueryOptions \<Rightarrow> (dns_msg \<Rightarrow> bool) option \<Rightarrow> 'c \<Rightarrow> addr list dns_result \<times> 'c" where
  "lookup_with ops transport domain options check c =
     (case transport of
        None \<Rightarrow> (nil_transport, c)
      | Some t \<Rightarrow> cl_Lookup ops (dns_transport_of t) domain options check c)"

definition ErrDrop :: dns_error where "ErrDrop = ErrOther (Err ''drop'')"
definition ErrReset :: dns_error where "ErrReset = ErrOther (Err ''reset'')"

section \<open>The state of the router\<close>

type_synonym reverse_mapping = "addr \<rightharpoonup> string \<times> int"

record dns_router =
  dr_rawRules :: "DNSRuleOptions list"
  dr_rules :: "dns_rule list"
  dr_defaultDomainStrategy :: u8
  dr_dnsReverseMapping :: "reverse_mapping option"
  dr_legacyDNSMode :: bool
  dr_started :: bool
  dr_closing :: bool

record DNSOptions =
  dopt_Strategy :: u8
  dopt_DisableCache :: bool
  dopt_DisableExpire :: bool
  dopt_Optimistic :: "(bool \<times> int) option"
  dopt_ClientSubnet :: "prefix option"
  dopt_ReverseMapping :: bool

text \<open>The timeout of the optimistic cache: not set means three days.\<close>

definition optimistic_timeout :: "DNSOptions \<Rightarrow> int result" where
  "optimistic_timeout options =
     (case dopt_Optimistic options of
        Some (True, timeout) \<Rightarrow>
          if dopt_DisableCache options then Inl (Err ''optimistic is conflict with disable_cache'')
          else if dopt_DisableExpire options then Inl (Err ''optimistic is conflict with disable_expire'')
          else Inr (if timeout = 0 then 3 * 24 * 3600 * second_ns else timeout)
      | _ \<Rightarrow> Inr 0)"

definition dns_NewRouter :: "DNSOptions \<Rightarrow> (dns_router \<times> dns_client) result" where
  "dns_NewRouter options =
     bind_result (optimistic_timeout options) (\<lambda>optimisticTimeout.
       Inr (\<lparr>dr_rawRules = [], dr_rules = [], dr_defaultDomainStrategy = dopt_Strategy options,
              dr_dnsReverseMapping = (if dopt_ReverseMapping options then Some Map.empty else None),
              dr_legacyDNSMode = False, dr_started = False, dr_closing = False\<rparr>,
            NewClient (dopt_DisableCache options) (dopt_DisableExpire options) optimisticTimeout
              (prefixable_Build (dopt_ClientSubnet options)) True))"

text \<open>Closing rules drops their errors; the only failure of a rule that is closed is a panic.\<close>

definition closeRules :: "dns_rule list \<Rightarrow> rule_set_heap \<Rightarrow> rule_set_heap result" where
  "closeRules rules heap = bind_result (dns_rules_Close rules heap) (\<lambda>(_, heap'). Inr heap')"

definition router_Initialize ::
    "golib \<Rightarrow> dns_services \<Rightarrow> DNSRuleOptions list \<Rightarrow> rule_set_heap \<Rightarrow> dns_router \<Rightarrow> (dns_router \<times> rule_set_heap) result" where
  "router_Initialize lib services rules heap r =
     bind_result (buildRules lib services rules False heap) (\<lambda>(newRules, _, _, heap1).
     bind_result (closeRules newRules heap1) (\<lambda>heap2. Inr (r\<lparr>dr_rawRules := rules\<rparr>, heap2)))"

definition router_Start ::
    "golib \<Rightarrow> dns_services \<Rightarrow> StartStage \<Rightarrow> rule_set_heap \<Rightarrow> dns_router \<Rightarrow> (dns_router \<times> rule_set_heap) result" where
  "router_Start lib services stage heap r =
     (if stage \<noteq> StartStateStart then Inr (r, heap)
      else
        bind_result (buildRules lib services (dr_rawRules r) True heap) (\<lambda>(newRules, legacyDNSMode, modeFlags, heap1).
          if dr_closing r then bind_result (closeRules newRules heap1) (\<lambda>heap2. Inr (r, heap2))
          else Inr (r\<lparr>dr_rules := newRules, dr_legacyDNSMode := legacyDNSMode, dr_started := True\<rparr>, heap1)))"

definition router_Close :: "rule_set_heap \<Rightarrow> dns_router \<Rightarrow> (dns_router \<times> rule_set_heap) result" where
  "router_Close heap r =
     (if dr_closing r then Inr (r, heap)
      else bind_result (closeRules (dr_rules r) heap) (\<lambda>heap'. Inr (r\<lparr>dr_closing := True, dr_rules := []\<rparr>, heap')))"

definition ValidateRuleSetMetadataUpdate ::
    "rule_set_metadata option \<Rightarrow> dns_router \<Rightarrow> string \<Rightarrow> RuleSetMetadata \<Rightarrow> err option" where
  "ValidateRuleSetMetadataUpdate router r tag metadata =
     (if dr_rawRules r = [] then None
      else if router = None then Some (Err ''router service not found'')
      else if dr_closing r then None
      else
        (case resolveLegacyDNSMode router (dr_rawRules r) [tag \<mapsto> metadata] of
           Inl e \<Rightarrow> Some e
         | Inr (candidateLegacyDNSMode, flags) \<Rightarrow>
             if \<not> dr_started r then
               (if \<not> candidateLegacyDNSMode then validateLegacyDNSModeDisabledRules (dr_rawRules r) else None)
             else if dr_legacyDNSMode r then
               (if \<not> candidateLegacyDNSMode \<and> flag_disabled flags then
                  (case validateLegacyDNSModeDisabledRules (dr_rawRules r) of
                     Some e \<Rightarrow> Some e
                   | None \<Rightarrow> Some (Err ''legacy DNS address filter is deprecated''))
                else None)
             else if candidateLegacyDNSMode then Some (Err ''legacy DNS address filter is deprecated'')
             else None))"

section \<open>Rules in the legacy mode\<close>

definition apply_legacy_options :: "RuleActionDNSRouteOptions \<Rightarrow> bool \<Rightarrow> DNSQueryOptions \<Rightarrow> DNSQueryOptions" where
  "apply_legacy_options act isFakeIP options = options\<lparr>
     qo_Strategy := (if dro_Strategy act \<noteq> DomainStrategyAsIS then dro_Strategy act else qo_Strategy options),
     qo_DisableCache := (if isFakeIP \<or> dro_DisableCache act then True else qo_DisableCache options),
     qo_RewriteTTL := (if dro_RewriteTTL act \<noteq> None then dro_RewriteTTL act else qo_RewriteTTL options),
     qo_ClientSubnet := (if prefix_IsValid (dro_ClientSubnet act) then dro_ClientSubnet act else qo_ClientSubnet options)\<rparr>"

text \<open>The caches of the metadata are reset before each rule. Looking at a rule sets \<^verbatim>\<open>DidMatch\<close> besides, which is only read
  while addresses are ignored, that is within the same pre-match.\<close>

definition reset_metadata :: "InboundContext \<Rightarrow> InboundContext" where
  "reset_metadata metadata = (ResetRuleCache metadata)\<lparr>DestinationAddressMatchFromResponse := False\<rparr>"

definition legacy_selects :: "router_ctx \<Rightarrow> bool \<Rightarrow> InboundContext \<Rightarrow> dns_rule \<Rightarrow> bool" where
  "legacy_selects x isAddressQuery metadata rule \<longleftrightarrow>
     \<not> (WithAddressLimit (rx_heap x) rule \<and> \<not> isAddressQuery) \<and>
     dns_LegacyPreMatch (rx_lib x) (rx_env x) (rx_heap x) rule (reset_metadata metadata)"

text \<open>The loop of \<^verbatim>\<open>matchDNS\<close> over the rules that are left, the first of which has the given index.\<close>

fun match_from ::
    "router_ctx \<Rightarrow> bool \<Rightarrow> bool \<Rightarrow> InboundContext \<Rightarrow> nat \<Rightarrow> dns_rule list \<Rightarrow> DNSQueryOptions \<Rightarrow>
     managed option \<times> (dns_rule \<times> nat) option \<times> DNSQueryOptions" where
  "match_from x allowFakeIP isAddressQuery metadata i [] options = (tm_defaultTransport (rx_Transports x), None, options)"
| "match_from x allowFakeIP isAddressQuery metadata i (rule # rest) options =
     (let continue = match_from x allowFakeIP isAddressQuery metadata (Suc i) rest
      in if \<not> legacy_selects x isAddressQuery metadata rule then continue options
         else
           (case dns_Action rule of
              Some (ActionDNSRoute server act) \<Rightarrow>
                (case manager_Transport (rx_Transports x) server of
                   None \<Rightarrow> continue options
                 | Some transport \<Rightarrow>
                     (let isFakeIP = (mo_Type transport = DNSTypeFakeIP)
                      in if isFakeIP \<and> \<not> allowFakeIP then continue options
                         else (Some transport, Some (rule, i), apply_legacy_options act isFakeIP options)))
            | Some (ActionDNSRouteOptions act) \<Rightarrow> continue (apply_legacy_options act False options)
            | Some (ActionReject _) \<Rightarrow> (None, Some (rule, i), options)
            | Some (ActionPredefined _) \<Rightarrow> (None, Some (rule, i), options)
            | _ \<Rightarrow> continue options))"

text \<open>The index of the last rule that was tried is \<open>None\<close> for \<^verbatim>\<open>-1\<close>.\<close>

definition next_index :: "nat option \<Rightarrow> nat" where
  "next_index ruleIndex = (case ruleIndex of None \<Rightarrow> 0 | Some i \<Rightarrow> Suc i)"

definition matchDNS ::
    "router_ctx \<Rightarrow> dns_rule list \<Rightarrow> bool \<Rightarrow> nat option \<Rightarrow> bool \<Rightarrow> InboundContext \<Rightarrow> DNSQueryOptions \<Rightarrow>
     managed option \<times> (dns_rule \<times> nat) option \<times> DNSQueryOptions" where
  "matchDNS x rules allowFakeIP ruleIndex isAddressQuery metadata options =
     match_from x allowFakeIP isAddressQuery metadata (next_index ruleIndex) (drop (next_index ruleIndex) rules) options"

definition addressLimitResponseCheck ::
    "router_ctx \<Rightarrow> dns_rule option \<Rightarrow> InboundContext \<Rightarrow> (dns_msg \<Rightarrow> bool) option" where
  "addressLimitResponseCheck x rule metadata =
     (case rule of
        None \<Rightarrow> None
      | Some r \<Rightarrow>
          if \<not> WithAddressLimit (rx_heap x) r then None
          else Some (dns_MatchAddressLimit (rx_lib x) (rx_env x) (rx_heap x) r (reset_metadata metadata)))"

text \<open>The loop that both entry points share: match a rule, carry out an action that needs no query, query with the
  response check of the rule, and try again after the rule when the result asks for it.\<close>

partial_function (option) legacy_loop ::
    "router_ctx \<Rightarrow> bool \<Rightarrow> bool \<Rightarrow> (dns_rule \<Rightarrow> nat \<Rightarrow> 'r option) \<Rightarrow>
     (managed option \<Rightarrow> DNSQueryOptions \<Rightarrow> (dns_msg \<Rightarrow> bool) option \<Rightarrow> 'c \<Rightarrow> 'r \<times> 'c) \<Rightarrow> ('r \<Rightarrow> bool) \<Rightarrow>
     dns_rule list \<Rightarrow> DNSQueryOptions \<Rightarrow> InboundContext \<Rightarrow> nat option \<Rightarrow> 'c \<Rightarrow> ('r \<times> managed option \<times> 'c) option" where
  "legacy_loop x allowFakeIP isAddressQuery onAction query retry rules options metadata ruleIndex c =
     (case matchDNS x rules allowFakeIP ruleIndex isAddressQuery metadata options of
        (transport, rule, dnsOptions) \<Rightarrow>
          (case Option.bind rule (\<lambda>(r, i). onAction r i) of
             Some result \<Rightarrow> Some (result, transport, c)
           | None \<Rightarrow>
               (case query transport dnsOptions (addressLimitResponseCheck x (map_option fst rule) metadata) c of
                  (result, c') \<Rightarrow>
                    if addressLimitResponseCheck x (map_option fst rule) metadata \<noteq> None \<and> retry result
                    then legacy_loop x allowFakeIP isAddressQuery onAction query retry rules options metadata (map_option snd rule) c'
                    else Some (result, transport, c'))))"

section \<open>Rules in the current mode\<close>

definition applyDNSRouteOptions :: "RuleActionDNSRouteOptions \<Rightarrow> DNSQueryOptions \<Rightarrow> DNSQueryOptions" where
  "applyDNSRouteOptions routeOptions options = options\<lparr>
     qo_DisableCache := (if dro_DisableCache routeOptions then True else qo_DisableCache options),
     qo_DisableOptimisticCache := (if dro_DisableOptimisticCache routeOptions then True else qo_DisableOptimisticCache options),
     qo_RewriteTTL := (if dro_RewriteTTL routeOptions \<noteq> None then dro_RewriteTTL routeOptions else qo_RewriteTTL options),
     qo_ClientSubnet := (if prefix_IsValid (dro_ClientSubnet routeOptions) then dro_ClientSubnet routeOptions else qo_ClientSubnet options)\<rparr>"

datatype dnsRouteStatus = dnsRouteStatusMissing | dnsRouteStatusSkipped | dnsRouteStatusResolved managed DNSQueryOptions

definition resolveDNSRoute ::
    "router_ctx \<Rightarrow> string \<Rightarrow> RuleActionDNSRouteOptions \<Rightarrow> bool \<Rightarrow> DNSQueryOptions \<Rightarrow> dnsRouteStatus" where
  "resolveDNSRoute x server routeOptions allowFakeIP options =
     (case manager_Transport (rx_Transports x) server of
        None \<Rightarrow> dnsRouteStatusMissing
      | Some transport \<Rightarrow>
          (let isFakeIP = (mo_Type transport = DNSTypeFakeIP); options' = applyDNSRouteOptions routeOptions options
           in if isFakeIP \<and> \<not> allowFakeIP then dnsRouteStatusSkipped
              else dnsRouteStatusResolved transport (if isFakeIP then options'\<lparr>qo_DisableCache := True\<rparr> else options')))"

text \<open>The strategy of the router stands in for a strategy that is not set.\<close>

definition with_strategy :: "u8 \<Rightarrow> DNSQueryOptions \<Rightarrow> DNSQueryOptions" where
  "with_strategy defaultStrategy options =
     (if qo_Strategy options = DomainStrategyAsIS then options\<lparr>qo_Strategy := defaultStrategy\<rparr> else options)"

definition refused_response :: "dns_msg \<Rightarrow> dns_msg" where
  "refused_response message = \<lparr>msg_Id = msg_Id message, msg_Response = True, msg_Authoritative = False,
     msg_RecursionDesired = False, msg_RecursionAvailable = False, msg_Rcode = RcodeRefused,
     msg_Question = take 1 (msg_Question message), msg_Answer = [], msg_Ns = [], msg_Extra = []\<rparr>"

record exchangeWithRulesResult =
  xr_result :: "dns_msg dns_result"
  xr_transport :: "managed option"
  xr_rejectAction :: "(RuleActionReject \<times> nat) option"

definition result_of :: "dns_msg dns_result \<Rightarrow> managed option \<Rightarrow> exchangeWithRulesResult" where
  "result_of result transport = \<lparr>xr_result = result, xr_transport = transport, xr_rejectAction = None\<rparr>"

definition predefined_result :: "RuleActionPredefined \<Rightarrow> dns_msg \<Rightarrow> dns_msg dns_result" where
  "predefined_result act message =
     (case RuleActionPredefined_Response act message of Inl e \<Rightarrow> Inl (ErrOther e) | Inr response \<Rightarrow> Inr response)"

text \<open>The loop of \<^verbatim>\<open>exchangeWithRules\<close> with the effective options and the evaluated response and its server.\<close>

fun exchange_rules ::
    "router_ctx \<Rightarrow> 'c client_ops \<Rightarrow> u8 \<Rightarrow> dns_msg \<Rightarrow> bool \<Rightarrow> InboundContext \<Rightarrow> nat \<Rightarrow> dns_rule list \<Rightarrow> DNSQueryOptions \<Rightarrow>
     (dns_msg \<times> managed) option \<Rightarrow> 'c \<Rightarrow> exchangeWithRulesResult \<times> 'c" where
  "exchange_rules x ops strategy message allowFakeIP metadata i [] options evaluated c =
     (let transport = tm_defaultTransport (rx_Transports x)
      in case exchange_with ops transport message (with_strategy strategy options) None c of
           (r, c') \<Rightarrow> (result_of r transport, c'))"
| "exchange_rules x ops strategy message allowFakeIP metadata i (rule # rest) options evaluated c =
     (let continue = exchange_rules x ops strategy message allowFakeIP metadata (Suc i) rest;
          matchMetadata = (reset_metadata metadata)\<lparr>DNSResponse := map_option fst evaluated\<rparr>
      in if \<not> dns_Match (rx_lib x) (rx_env x) (rx_heap x) rule matchMetadata then continue options evaluated c
         else
           (case dns_Action rule of
              Some (ActionDNSRouteOptions act) \<Rightarrow> continue (applyDNSRouteOptions act options) evaluated c
            | Some (ActionEvaluate server act) \<Rightarrow>
                (case manager_Transport (rx_Transports x) server of
                   None \<Rightarrow> continue options None c
                 | Some transport \<Rightarrow>
                     (case cl_Exchange ops (dns_transport_of transport) message
                             (with_strategy strategy (applyDNSRouteOptions act options)) None c of
                        (Inl e, c') \<Rightarrow> continue options None c'
                      | (Inr response, c') \<Rightarrow> continue options (Some (response, transport)) c'))
            | Some ActionRespond \<Rightarrow>
                (case evaluated of
                   None \<Rightarrow> (result_of (Inl (ErrOther (Err ''respond action requires an evaluated response from a preceding evaluate action''))) None, c)
                 | Some (response, transport) \<Rightarrow> (result_of (Inr response) (Some transport), c))
            | Some (ActionDNSRoute server act) \<Rightarrow>
                (case resolveDNSRoute x server act allowFakeIP options of
                   dnsRouteStatusResolved transport queryOptions \<Rightarrow>
                     (case cl_Exchange ops (dns_transport_of transport) message (with_strategy strategy queryOptions) None c of
                        (r, c') \<Rightarrow> (result_of r (Some transport), c'))
                 | _ \<Rightarrow> continue options evaluated c)
            | Some (ActionReject act) \<Rightarrow>
                (if reject_Method act = RuleActionRejectMethodDefault then
                   (\<lparr>xr_result = Inr (refused_response message), xr_transport = None, xr_rejectAction = Some (act, i)\<rparr>, c)
                 else if reject_Method act = RuleActionRejectMethodDrop then
                   (\<lparr>xr_result = Inl ErrDrop, xr_transport = None, xr_rejectAction = Some (act, i)\<rparr>, c)
                 else continue options evaluated c)
            | Some (ActionPredefined act) \<Rightarrow> (result_of (predefined_result act message) None, c)
            | _ \<Rightarrow> continue options evaluated c))"

definition exchangeWithRules ::
    "router_ctx \<Rightarrow> 'c client_ops \<Rightarrow> dns_router \<Rightarrow> dns_msg \<Rightarrow> DNSQueryOptions \<Rightarrow> bool \<Rightarrow> InboundContext \<Rightarrow> 'c \<Rightarrow>
     exchangeWithRulesResult \<times> 'c" where
  "exchangeWithRules x ops r message options allowFakeIP metadata c =
     exchange_rules x ops (dr_defaultDomainStrategy r) message allowFakeIP metadata 0 (dr_rules r) options None c"

section \<open>Exchange\<close>

definition isAddressQuery :: "dns_msg \<Rightarrow> bool" where
  "isAddressQuery message \<longleftrightarrow>
     (\<exists>question\<in>set (msg_Question message). q_Qtype question \<in> {TypeA, TypeAAAA, TypeHTTPS})"

definition exchange_action :: "dns_msg \<Rightarrow> dns_rule \<Rightarrow> nat \<Rightarrow> dns_msg dns_result option" where
  "exchange_action message rule i =
     (case dns_Action rule of
        Some (ActionReject act) \<Rightarrow>
          if reject_Method act = RuleActionRejectMethodDefault then Some (Inr (refused_response message))
          else if reject_Method act = RuleActionRejectMethodDrop then Some (Inl ErrDrop)
          else None
      | Some (ActionPredefined act) \<Rightarrow> Some (predefined_result act message)
      | _ \<Rightarrow> None)"

definition is_rejected :: "'a dns_result \<Rightarrow> bool" where
  "is_rejected r \<longleftrightarrow> r = Inl ErrResponseRejected \<or> r = Inl ErrResponseRejectedCached"

definition exchange_legacy ::
    "router_ctx \<Rightarrow> 'c client_ops \<Rightarrow> dns_router \<Rightarrow> dns_msg \<Rightarrow> DNSQueryOptions \<Rightarrow> InboundContext \<Rightarrow> 'c \<Rightarrow>
     (dns_msg dns_result \<times> managed option \<times> 'c) option" where
  "exchange_legacy x ops r message options metadata c =
     legacy_loop x True (isAddressQuery message) (exchange_action message)
       (\<lambda>transport dnsOptions check. exchange_with ops transport message (with_strategy (dr_defaultDomainStrategy r) dnsOptions) check)
       is_rejected (dr_rules r) options metadata None c"

definition exchange_metadata :: "dnslib \<Rightarrow> question \<Rightarrow> InboundContext \<Rightarrow> InboundContext" where
  "exchange_metadata dl question metadata =
     metadata\<lparr>Destination := socksaddr_zero, QueryType := q_Qtype question, DNSResponse := None,
       DestinationAddressMatchFromResponse := False,
       IPVersion := (if q_Qtype question = TypeA then 4 else if q_Qtype question = TypeAAAA then 6 else IPVersion metadata),
       Domain := FqdnToDomain dl (q_Name question)\<rparr>"

text \<open>The addresses of a response are remembered with the name they belong to; the cache drops the entries that \<open>evict\<close> chooses.\<close>

definition map_record ::
    "router_ctx \<Rightarrow> int \<Rightarrow> (reverse_mapping \<Rightarrow> reverse_mapping) \<Rightarrow> rr \<Rightarrow> reverse_mapping \<Rightarrow> reverse_mapping" where
  "map_record x timeNow evict record' mapping =
     (let put = (\<lambda>address. (evict mapping)(AddrFromIP (rx_lib x) address \<mapsto>
            (FqdnToDomain (rx_dl x) (rr_Name record'), timeNow + uint (rr_Ttl record') * second_ns)))
      in case rr_Data record' of RD_A a \<Rightarrow> put a | RD_AAAA a \<Rightarrow> put a | _ \<Rightarrow> mapping)"

definition remember_response ::
    "router_ctx \<Rightarrow> int \<Rightarrow> (reverse_mapping \<Rightarrow> reverse_mapping) \<Rightarrow> managed option \<Rightarrow> dns_msg \<Rightarrow> dns_router \<Rightarrow> dns_router" where
  "remember_response x timeNow evict transport response r =
     (case dr_dnsReverseMapping r of
        None \<Rightarrow> r
      | Some mapping \<Rightarrow>
          if (case transport of None \<Rightarrow> False | Some t \<Rightarrow> mo_Type t = DNSTypeFakeIP) then r
          else r\<lparr>dr_dnsReverseMapping := Some (fold (map_record x timeNow evict) (msg_Answer response) mapping)\<rparr>)"

definition router_Exchange ::
    "router_ctx \<Rightarrow> 'c client_ops \<Rightarrow> int \<Rightarrow> (reverse_mapping \<Rightarrow> reverse_mapping) \<Rightarrow> dns_msg \<Rightarrow> DNSQueryOptions \<Rightarrow> InboundContext \<Rightarrow>
     dns_router \<Rightarrow> 'c \<Rightarrow> (dns_msg dns_result \<times> dns_router \<times> 'c) option" where
  "router_Exchange x ops timeNow evict message options metadata r c =
     (case msg_Question message of
        [question] \<Rightarrow>
          if dr_closing r then Some (Inl (ErrOther (Err ''dns router closed'')), r, c)
          else
            let md = exchange_metadata (rx_dl x) question metadata;
                outcome =
                  (case qo_Transport options of
                     Some transport \<Rightarrow>
                       (case cl_Exchange ops transport message (with_strategy (dr_defaultDomainStrategy r) options) None c of
                          (result, c') \<Rightarrow> Some (result, tr_Type transport = DNSTypeFakeIP, None, c'))
                   | None \<Rightarrow>
                       if \<not> dr_legacyDNSMode r then
                         (case exchangeWithRules x ops r message options True md c of
                            (xr, c') \<Rightarrow> Some (xr_result xr, False, xr_transport xr, c'))
                       else
                         map_option (\<lambda>(result, transport, c'). (result, False, transport, c')) (exchange_legacy x ops r message options md c))
            in map_option (\<lambda>(result, isFakeIP, transport, c').
                 (result, (case result of
                    Inr response \<Rightarrow> if isFakeIP then r else remember_response x timeNow evict transport response r
                  | Inl e \<Rightarrow> r), c')) outcome
      | _ \<Rightarrow>
          Some (Inr \<lparr>msg_Id = msg_Id message, msg_Response = True, msg_Authoritative = False, msg_RecursionDesired = False,
            msg_RecursionAvailable = False, msg_Rcode = RcodeFormatError, msg_Question = msg_Question message,
            msg_Answer = [], msg_Ns = [], msg_Extra = []\<rparr>, r, c))"

definition LookupReverseMapping :: "int \<Rightarrow> dns_router \<Rightarrow> addr \<Rightarrow> string option" where
  "LookupReverseMapping timeNow r ip =
     (case dr_dnsReverseMapping r of
        None \<Rightarrow> None
      | Some mapping \<Rightarrow>
          (case mapping ip of
             None \<Rightarrow> None
           | Some (domain, expireAt) \<Rightarrow> if timeNow < expireAt then Some domain else None))"

section \<open>Lookup\<close>

definition resolveLookupStrategy :: "dns_router \<Rightarrow> DNSQueryOptions \<Rightarrow> u8" where
  "resolveLookupStrategy r options =
     (if qo_LookupStrategy options \<noteq> DomainStrategyAsIS then qo_LookupStrategy options
      else if qo_Strategy options \<noteq> DomainStrategyAsIS then qo_Strategy options
      else dr_defaultDomainStrategy r)"

definition withLookupQueryMetadata :: "u16 \<Rightarrow> InboundContext \<Rightarrow> InboundContext" where
  "withLookupQueryMetadata qType metadata =
     metadata\<lparr>QueryType := qType, IPVersion := (if qType = TypeA then 4 else if qType = TypeAAAA then 6 else 0)\<rparr>"

definition filterAddressesByQueryType :: "addr list \<Rightarrow> u16 \<Rightarrow> addr list" where
  "filterAddressesByQueryType addresses qType =
     (if qType = TypeA then filter addr_Is4 addresses
      else if qType = TypeAAAA then filter addr_Is6 addresses
      else addresses)"

text \<open>The error of a reject action counts the rejections in the action itself, which is part of the rule.\<close>

fun set_dns_action :: "rule_action \<Rightarrow> dns_rule \<Rightarrow> dns_rule" where
  "set_dns_action act (DefaultDNSRule d matchResponse) = DefaultDNSRule (d\<lparr>action := Some act\<rparr>) matchResponse"
| "set_dns_action act (LogicalDNSRule mode rules inverted a) = LogicalDNSRule mode rules inverted (Some act)"

definition reject_error :: "rejection option \<Rightarrow> dns_error option" where
  "reject_error e = map_option (\<lambda>rejected. case rejected of RejectReset \<Rightarrow> ErrReset | RejectDrop \<Rightarrow> ErrDrop) e"

definition count_rejection :: "int \<Rightarrow> RuleActionReject \<Rightarrow> nat \<Rightarrow> dns_router \<Rightarrow> dns_error option \<times> dns_router" where
  "count_rejection timeNow act i r =
     (case RuleActionReject_Error timeNow act of
        Inl e \<Rightarrow> (Some (ErrOther e), r)
      | Inr (e, act') \<Rightarrow>
          (reject_error e, r\<lparr>dr_rules := (dr_rules r)[i := set_dns_action (ActionReject act') (dr_rules r ! i)]\<rparr>))"

definition lookupWithRulesType ::
    "router_ctx \<Rightarrow> 'c client_ops \<Rightarrow> int \<Rightarrow> string \<Rightarrow> u16 \<Rightarrow> DNSQueryOptions \<Rightarrow> InboundContext \<Rightarrow> dns_router \<Rightarrow> 'c \<Rightarrow>
     addr list dns_result \<times> dns_router \<times> 'c" where
  "lookupWithRulesType x ops timeNow domain qType options metadata r c =
     (case exchangeWithRules x ops r (lookup_message (Fqdn (rx_dl x) domain) qType) options False
             (withLookupQueryMetadata qType metadata) c of
        (xr, c') \<Rightarrow>
          (case xr_rejectAction xr of
             Some (act, i) \<Rightarrow>
               (case count_rejection timeNow act i r of
                  (Some e, r') \<Rightarrow> (Inl e, r', c')
                | (None, r') \<Rightarrow> (Inr [], r', c'))
           | None \<Rightarrow>
               (case xr_result xr of
                  Inl e \<Rightarrow> (Inl e, r, c')
                | Inr response \<Rightarrow>
                    if msg_Rcode response \<noteq> RcodeSuccess then (Inl (RcodeError (msg_Rcode response)), r, c')
                    else (Inr (filterAddressesByQueryType (MessageToAddresses (rx_lib x) response) qType), r, c'))))"

text \<open>The two lookups of a name run at the same time; here one after the other. Their errors are joined by the parameter \<open>join\<close>.\<close>

definition lookupWithRules ::
    "router_ctx \<Rightarrow> 'c client_ops \<Rightarrow> (dns_error option \<Rightarrow> dns_error option \<Rightarrow> dns_error option) \<Rightarrow> int \<Rightarrow> string \<Rightarrow> DNSQueryOptions \<Rightarrow>
     InboundContext \<Rightarrow> dns_router \<Rightarrow> 'c \<Rightarrow> addr list dns_result \<times> dns_router \<times> 'c" where
  "lookupWithRules x ops join timeNow domain options metadata r c =
     (let strategy = resolveLookupStrategy r options;
          lookupOptions = (if strategy \<noteq> DomainStrategyAsIS then options\<lparr>qo_Strategy := strategy\<rparr> else options);
          lookup = (\<lambda>qType. lookupWithRulesType x ops timeNow domain qType lookupOptions metadata)
      in if strategy = DomainStrategyIPv4Only then lookup TypeA r c
         else if strategy = DomainStrategyIPv6Only then lookup TypeAAAA r c
         else
           (case lookup TypeA r c of
              (r4, r1, c1) \<Rightarrow> (case lookup TypeAAAA r1 c1 of (r6, r2, c2) \<Rightarrow> (group_results join strategy r4 r6, r2, c2))))"

datatype lookup_outcome = LookupResult "addr list dns_result" | LookupRejected RuleActionReject nat

definition predefined_addresses :: "golib \<Rightarrow> rr list \<Rightarrow> addr list" where
  "predefined_addresses lib answers =
     concat (map (\<lambda>answer. case rr_Data answer of RD_A a \<Rightarrow> [AddrFromIP lib a] | RD_AAAA a \<Rightarrow> [AddrFromIP lib a] | _ \<Rightarrow> []) answers)"

definition lookup_action :: "golib \<Rightarrow> dns_rule \<Rightarrow> nat \<Rightarrow> lookup_outcome option" where
  "lookup_action lib rule i =
     (case dns_Action rule of
        Some (ActionReject act) \<Rightarrow> Some (LookupRejected act i)
      | Some (ActionPredefined act) \<Rightarrow>
          Some (LookupResult
            (if predefined_Rcode act \<noteq> RcodeSuccess then Inl (RcodeError (predefined_Rcode act))
             else Inr (predefined_addresses lib (predefined_Answer act))))
      | _ \<Rightarrow> None)"

definition lookup_failed :: "lookup_outcome \<Rightarrow> bool" where
  "lookup_failed outcome \<longleftrightarrow> (case outcome of LookupResult (Inl e) \<Rightarrow> True | _ \<Rightarrow> False)"

definition lookup_legacy ::
    "router_ctx \<Rightarrow> 'c client_ops \<Rightarrow> dns_router \<Rightarrow> string \<Rightarrow> DNSQueryOptions \<Rightarrow> InboundContext \<Rightarrow> 'c \<Rightarrow>
     (lookup_outcome \<times> managed option \<times> 'c) option" where
  "lookup_legacy x ops r domain options metadata c =
     legacy_loop x False True (lookup_action (rx_lib x))
       (\<lambda>transport dnsOptions check c. case lookup_with ops transport domain (with_strategy (dr_defaultDomainStrategy r) dnsOptions) check c of
          (result, c') \<Rightarrow> (LookupResult result, c'))
       lookup_failed (dr_rules r) options metadata None c"

text \<open>The end of every lookup but a rejected one: an empty result is an error, and an error names the domain.\<close>

definition print_result :: "addr list dns_result \<Rightarrow> addr list dns_result" where
  "print_result result =
     (case result of
        Inl e \<Rightarrow> Inl (ErrCause ''lookup'' e)
      | Inr [] \<Rightarrow> Inl (ErrCause ''lookup'' (ErrOther (Err ''empty result'')))
      | Inr addresses \<Rightarrow> Inr addresses)"

definition router_Lookup ::
    "router_ctx \<Rightarrow> 'c client_ops \<Rightarrow> (dns_error option \<Rightarrow> dns_error option \<Rightarrow> dns_error option) \<Rightarrow> int \<Rightarrow> string \<Rightarrow> DNSQueryOptions \<Rightarrow>
     InboundContext \<Rightarrow> dns_router \<Rightarrow> 'c \<Rightarrow> (addr list dns_result \<times> dns_router \<times> 'c) option" where
  "router_Lookup x ops join timeNow domain options metadata r c =
     (if dr_closing r then Some (Inl (ErrOther (Err ''dns router closed'')), r, c)
      else
        let md = metadata\<lparr>Destination := socksaddr_zero, Domain := FqdnToDomain (rx_dl x) domain, DNSResponse := None,
              DestinationAddressMatchFromResponse := False\<rparr>
        in case qo_Transport options of
             Some transport \<Rightarrow>
               (case cl_Lookup ops transport domain (with_strategy (dr_defaultDomainStrategy r) options) None c of
                  (result, c') \<Rightarrow> Some (print_result result, r, c'))
           | None \<Rightarrow>
               if \<not> dr_legacyDNSMode r then
                 (case lookupWithRules x ops join timeNow domain options md r c of
                    (result, r', c') \<Rightarrow> Some (print_result result, r', c'))
               else
                 map_option (\<lambda>(outcome, _, c').
                   case outcome of
                     LookupResult result \<Rightarrow> (print_result result, r, c')
                   | LookupRejected act i \<Rightarrow>
                       (case count_rejection timeNow act i r of
                          (Some e, r') \<Rightarrow> (Inl (ErrCause ''rejected'' e), r', c')
                        | (None, r') \<Rightarrow> (Inl (ErrCause ''rejected'' (ErrOther (Err []))), r', c')))
                   (lookup_legacy x ops r domain options md c))"

section \<open>The legacy loop is one pass over the rules\<close>

text \<open>The specification: every rule is looked at once, in order. A rule with an address limit whose response is rejected
  is skipped, and so are the options that earlier rules have set.\<close>

fun legacy_walk ::
    "router_ctx \<Rightarrow> bool \<Rightarrow> bool \<Rightarrow> (dns_rule \<Rightarrow> nat \<Rightarrow> 'r option) \<Rightarrow>
     (managed option \<Rightarrow> DNSQueryOptions \<Rightarrow> (dns_msg \<Rightarrow> bool) option \<Rightarrow> 'c \<Rightarrow> 'r \<times> 'c) \<Rightarrow> ('r \<Rightarrow> bool) \<Rightarrow>
     DNSQueryOptions \<Rightarrow> InboundContext \<Rightarrow> nat \<Rightarrow> dns_rule list \<Rightarrow> DNSQueryOptions \<Rightarrow> 'c \<Rightarrow> 'r \<times> managed option \<times> 'c" where
  "legacy_walk x allowFakeIP isAddr onAction query retry options metadata i [] current c =
     (let transport = tm_defaultTransport (rx_Transports x)
      in case query transport current None c of (result, c') \<Rightarrow> (result, transport, c'))"
| "legacy_walk x allowFakeIP isAddr onAction query retry options metadata i (rule # rest) current c =
     (let continue = legacy_walk x allowFakeIP isAddr onAction query retry options metadata (Suc i) rest;
          finish = (\<lambda>transport opts.
            case onAction rule i of
              Some result \<Rightarrow> (result, transport, c)
            | None \<Rightarrow>
                (let check = addressLimitResponseCheck x (Some rule) metadata
                 in case query transport opts check c of
                      (result, c') \<Rightarrow> if check \<noteq> None \<and> retry result then continue options c' else (result, transport, c')))
      in if \<not> legacy_selects x isAddr metadata rule then continue current c
         else
           (case dns_Action rule of
              Some (ActionDNSRoute server act) \<Rightarrow>
                (case manager_Transport (rx_Transports x) server of
                   None \<Rightarrow> continue current c
                 | Some transport \<Rightarrow>
                     if mo_Type transport = DNSTypeFakeIP \<and> \<not> allowFakeIP then continue current c
                     else finish (Some transport) (apply_legacy_options act (mo_Type transport = DNSTypeFakeIP) current))
            | Some (ActionDNSRouteOptions act) \<Rightarrow> continue (apply_legacy_options act False current) c
            | Some (ActionReject _) \<Rightarrow> finish None current
            | Some (ActionPredefined _) \<Rightarrow> finish None current
            | _ \<Rightarrow> continue current c))"

text \<open>What a round of the loop does with the rule it has matched.\<close>

definition loop_step where
  "loop_step x allowFakeIP isAddr onAction query retry rules options metadata m c =
     (case m of
        (transport, rule, dnsOptions) \<Rightarrow>
          (case Option.bind rule (\<lambda>(r, i). onAction r i) of
             Some result \<Rightarrow> Some (result, transport, c)
           | None \<Rightarrow>
               (case query transport dnsOptions (addressLimitResponseCheck x (map_option fst rule) metadata) c of
                  (result, c') \<Rightarrow>
                    if addressLimitResponseCheck x (map_option fst rule) metadata \<noteq> None \<and> retry result
                    then legacy_loop x allowFakeIP isAddr onAction query retry rules options metadata (map_option snd rule) c'
                    else Some (result, transport, c'))))"

lemma legacy_loop_step:
  "legacy_loop x allowFakeIP isAddr onAction query retry rules options metadata ruleIndex c =
     loop_step x allowFakeIP isAddr onAction query retry rules options metadata
       (matchDNS x rules allowFakeIP ruleIndex isAddr metadata options) c"
  unfolding loop_step_def by (rule legacy_loop.simps)

lemma addressLimitResponseCheck_None [simp]: "addressLimitResponseCheck x None metadata = None"
  by (simp add: addressLimitResponseCheck_def)

lemma loop_step_walk:
  assumes "drop i rules = suffix"
  shows "loop_step x allowFakeIP isAddr onAction query retry rules options metadata
      (match_from x allowFakeIP isAddr metadata i suffix current) c =
    Some (legacy_walk x allowFakeIP isAddr onAction query retry options metadata i suffix current c)"
  using assms
proof (induction suffix arbitrary: i current c)
  case Nil
  then show ?case
    by (simp add: loop_step_def Let_def split: prod.splits)
next
  case (Cons rule rest)
  have rest: "drop (Suc i) rules = rest"
    using Cons.prems by (metis drop_Suc list.sel(3) tl_drop)
  note IH = Cons.IH [OF rest]
  have retry: "legacy_loop x allowFakeIP isAddr onAction query retry rules options metadata (Some i) c' =
      Some (legacy_walk x allowFakeIP isAddr onAction query retry options metadata (Suc i) rest options c')" for c'
    unfolding legacy_loop_step matchDNS_def next_index_def option.case rest by (rule IH)
  have finish: "loop_step x allowFakeIP isAddr onAction query retry rules options metadata (transport, Some (rule, i), opts) c =
      Some (case onAction rule i of
          Some result \<Rightarrow> (result, transport, c)
        | None \<Rightarrow>
            (let check = addressLimitResponseCheck x (Some rule) metadata
             in case query transport opts check c of
                  (result, c') \<Rightarrow>
                    if check \<noteq> None \<and> retry result
                    then legacy_walk x allowFakeIP isAddr onAction query retry options metadata (Suc i) rest options c'
                    else (result, transport, c')))" for transport opts
    by (simp add: loop_step_def retry Let_def split: option.splits prod.splits)
  have IH': "loop_step x False isAddr onAction query retry rules options metadata (match_from x False isAddr metadata (Suc i) rest current) c =
      Some (legacy_walk x False isAddr onAction query retry options metadata (Suc i) rest current c)" if "\<not> allowFakeIP" for current c
    using IH [of current c] that by simp
  show ?case
    by (cases "legacy_selects x isAddr metadata rule")
      (auto simp: IH IH' finish Let_def split: option.splits rule_action.splits)
qed

text \<open>Hence the loop returns, and no rule is tried twice.\<close>

lemma legacy_loop_walk:
  "legacy_loop x allowFakeIP isAddr onAction query retry rules options metadata ruleIndex c =
     Some (legacy_walk x allowFakeIP isAddr onAction query retry options metadata (next_index ruleIndex)
       (drop (next_index ruleIndex) rules) options c)"
  unfolding legacy_loop_step matchDNS_def by (rule loop_step_walk) simp

lemma legacy_walk_index:
  assumes "\<And>rule i j. onAction rule i = onAction rule j"
  shows "legacy_walk x allowFakeIP isAddr onAction query retry options metadata i rules current c =
    legacy_walk x allowFakeIP isAddr onAction query retry options metadata j rules current c"
proof (induction rules arbitrary: i j current c)
  case (Cons rule rules)
  have rest: "legacy_walk x allowFakeIP isAddr onAction query retry options metadata (Suc i) rules =
      legacy_walk x allowFakeIP isAddr onAction query retry options metadata (Suc j) rules"
    using Cons.IH by (intro ext)
  show ?case
    unfolding legacy_walk.simps rest assms [of rule i j] by (rule refl)
qed simp

section \<open>The contract of the client\<close>

text \<open>A query the strategy forbids: the other address family.\<close>

definition strategy_forbids :: "u8 \<Rightarrow> u16 \<Rightarrow> bool" where
  "strategy_forbids strategy qType \<longleftrightarrow>
     qType = TypeA \<and> strategy = DomainStrategyIPv6Only \<or> qType = TypeAAAA \<and> strategy = DomainStrategyIPv4Only"

text \<open>A response without answers, or one that a rule predefines.\<close>

definition empty_or_predefined :: "dns_msg \<Rightarrow> dns_rule list \<Rightarrow> exchangeWithRulesResult \<Rightarrow> bool" where
  "empty_or_predefined message rules xr \<longleftrightarrow> (\<forall>response. xr_result xr = Inr response \<longrightarrow> msg_Answer response = [] \<or>
     (\<exists>rule\<in>set rules. \<exists>act. dns_Action rule = Some (ActionPredefined act) \<and> predefined_result act message = Inr response))"

text \<open>What the router relies on: a response is only rejected by a check, and a query that the strategy forbids is answered
  with an empty response without a change of the client.\<close>

locale client_contract =
  fixes ops :: "'c client_ops" and st :: "'c \<Rightarrow> dns_client"
  assumes rejected_by_check: "is_rejected (fst (cl_Exchange ops transport message options check c)) \<Longrightarrow> check \<noteq> None"
    and forbidden_query: "msg_Question message = question # rest \<Longrightarrow> strategy_forbids (qo_Strategy options) (q_Qtype question) \<Longrightarrow>
      fst (cl_Exchange ops transport message options check c) = Inr (FixedResponseStatus message RcodeSuccess) \<and>
      st (snd (cl_Exchange ops transport message options check c)) = st c"
begin

lemma no_check_no_rejection: "\<not> is_rejected (fst (exchange_with ops transport message options None c))"
  using rejected_by_check [of _ message options None c]
  by (auto simp: exchange_with_def nil_transport_def is_rejected_def split: option.splits)

lemma exchange_with_forbidden:
  assumes "msg_Question message = [question]" "strategy_forbids (qo_Strategy options) (q_Qtype question)"
    and "exchange_with ops transport message options check c = (r, c')"
  shows "st c' = st c" "r = Inr response \<Longrightarrow> msg_Answer response = []"
proof -
  have "st c' = st c \<and> (r = Inr response \<longrightarrow> msg_Answer response = [])"
  proof (cases transport)
    case (Some t)
    then show ?thesis
      using forbidden_query [OF assms(1,2), of "dns_transport_of t" check c] assms(3)
      by (auto simp: exchange_with_def FixedResponseStatus_def)
  qed (use assms(3) in \<open>auto simp: exchange_with_def nil_transport_def\<close>)
  then show "st c' = st c" "r = Inr response \<Longrightarrow> msg_Answer response = []"
    by auto
qed

text \<open>In the current mode the strategy of the router holds for every query of the rules.\<close>

lemma exchange_rules_forbidden:
  assumes "msg_Question message = [question]" "strategy_forbids strategy (q_Qtype question)"
  shows "exchange_rules x ops strategy message allowFakeIP metadata i rules options evaluated c = (xr, c') \<Longrightarrow>
    qo_Strategy options = DomainStrategyAsIS \<Longrightarrow> (\<And>response t. evaluated = Some (response, t) \<Longrightarrow> msg_Answer response = []) \<Longrightarrow>
    st c' = st c \<and> empty_or_predefined message rules xr"
proof (induction rules arbitrary: i options evaluated c)
  case Nil
  have "strategy_forbids (qo_Strategy (with_strategy strategy options)) (q_Qtype question)"
    using assms(2) Nil.prems(2) by (simp add: with_strategy_def)
  then show ?case
    using Nil.prems(1) exchange_with_forbidden [OF assms(1)]
    by (auto simp: Let_def result_of_def empty_or_predefined_def split: prod.splits)
next
  case (Cons rule rules)
  have exchange: "st c1 = st c \<and> r = Inr (FixedResponseStatus message RcodeSuccess)"
    if "cl_Exchange ops t message (with_strategy strategy o') None c = (r, c1)" "qo_Strategy o' = DomainStrategyAsIS" for t o' r c1
    using forbidden_query [OF assms(1), of "with_strategy strategy o'" t None c] assms(2) that by (simp add: with_strategy_def)
  have continue: ?case
    if "exchange_rules x ops strategy message allowFakeIP metadata (Suc i) rules o' ev c1 = (xr, c')" "qo_Strategy o' = DomainStrategyAsIS"
      "\<And>response t. ev = Some (response, t) \<Longrightarrow> msg_Answer response = []" "st c1 = st c" for o' ev c1
  proof -
    have "st c' = st c1 \<and> empty_or_predefined message rules xr"
      by (rule Cons.IH [OF that(1,2)]) (rule that(3))
    then show ?thesis
      using that(4) by (auto simp: empty_or_predefined_def)
  qed
  let ?md = "(reset_metadata metadata)\<lparr>DNSResponse := map_option fst evaluated\<rparr>"
  show ?case
  proof (cases "dns_Match (rx_lib x) (rx_env x) (rx_heap x) rule ?md")
    case False
    then show ?thesis
      using Cons.prems by (intro continue [of options evaluated c]) (simp_all add: Let_def)
  next
    case True
    have skip: ?thesis if "exchange_rules x ops strategy message allowFakeIP metadata (Suc i) rules options evaluated c = (xr, c')"
      using that Cons.prems(2,3) by (intro continue [of options evaluated c]) simp_all
    note simps = True Let_def result_of_def empty_or_predefined_def FixedResponseStatus_def refused_response_def
    show ?thesis
    proof (cases "dns_Action rule")
      case None
      then show ?thesis
        using Cons.prems(1) True by (intro skip) (simp add: Let_def)
    next
      case (Some act)
      show ?thesis
      proof (cases act)
        case (ActionDNSRoute server act')
        show ?thesis
        proof (cases "resolveDNSRoute x server act' allowFakeIP options")
          case (dnsRouteStatusResolved t o')
          have "qo_Strategy o' = DomainStrategyAsIS"
            using dnsRouteStatusResolved Cons.prems(2)
            by (auto simp: resolveDNSRoute_def applyDNSRouteOptions_def Let_def split: option.splits if_splits)
          then show ?thesis
            using Cons.prems(1) Some ActionDNSRoute dnsRouteStatusResolved exchange [of "dns_transport_of t" o']
            by (auto simp: simps split: prod.splits)
        qed (rule skip; use Cons.prems(1) Some ActionDNSRoute in \<open>simp add: True Let_def\<close>)+
      next
        case (ActionEvaluate server act')
        have o': "qo_Strategy (applyDNSRouteOptions act' options) = DomainStrategyAsIS"
          using Cons.prems(2) by (simp add: applyDNSRouteOptions_def)
        show ?thesis
        proof (cases "manager_Transport (rx_Transports x) server")
          case None
          then show ?thesis
            using Cons.prems(1,2) Some ActionEvaluate by (intro continue [of options None c]) (simp_all add: True Let_def)
        next
          case t: (Some t)
          obtain r c1 where r: "cl_Exchange ops (dns_transport_of t) message (with_strategy strategy (applyDNSRouteOptions act' options)) None c = (r, c1)"
            by (metis surj_pair)
          then show ?thesis
            using Cons.prems(1,2) Some ActionEvaluate t exchange [OF r o']
            by (intro continue [of options "Some (FixedResponseStatus message RcodeSuccess, t)" c1])
              (auto simp: True Let_def FixedResponseStatus_def)
        qed
      next
        case ActionRespond
        then show ?thesis
          using Cons.prems Some by (auto simp: simps split: option.splits)
      next
        case (ActionDNSRouteOptions act')
        then show ?thesis
          using Cons.prems Some
          by (intro continue [of "applyDNSRouteOptions act' options" evaluated c]) (simp_all add: True Let_def applyDNSRouteOptions_def)
      next
        case (ActionReject act')
        then show ?thesis
          using Cons.prems(1) Some skip by (auto simp: simps split: if_splits)
      next
        case (ActionPredefined act')
        then show ?thesis
          using Cons.prems(1) Some by (auto simp: simps)
      qed (rule skip; use Cons.prems(1) Some in \<open>simp add: True Let_def\<close>)+
    qed
  qed
qed

end

text \<open>The client of \<^verbatim>\<open>dns/client.go\<close> with the environments of the exchanges to come.\<close>

definition real_client ::
    "golib \<Rightarrow> dnslib \<Rightarrow> (dns_error option \<Rightarrow> dns_error option \<Rightarrow> dns_error option) \<Rightarrow> (dns_client \<times> (nat \<Rightarrow> exchange_env)) client_ops" where
  "real_client lib dl join = \<lparr>
     cl_Exchange = (\<lambda>transport message options check (c, envs).
       case client_Exchange dl (envs 0) transport message options check c of (r, c') \<Rightarrow> (r, c', \<lambda>n. envs (Suc n))),
     cl_Lookup = (\<lambda>transport domain options check (c, envs).
       case client_Lookup lib dl (envs 0) join transport domain options check c of (r, c') \<Rightarrow> (r, c', \<lambda>n. envs (Suc n)))\<rparr>"

lemma exchange_uncached_unchecked: "\<not> is_rejected (fst (exchange_uncached dl xe transport message question options None disableCache c))"
  by (auto simp: exchange_uncached_def check_rejects_def is_rejected_def exchangeToTransport_def Let_def
      split: sum.splits option.splits prod.splits upstream.splits)

lemma client_Exchange_unchecked: "\<not> is_rejected (fst (client_Exchange dl xe transport message options None c))"
  using exchange_uncached_unchecked
  by (auto simp: client_Exchange_def Let_def is_rejected_def split: list.splits sum.splits option.splits prod.splits)

interpretation rc: client_contract "real_client lib dl join" fst for lib dl join
proof
  fix transport and message :: dns_msg and options check and c :: "dns_client \<times> (nat \<Rightarrow> exchange_env)"
  assume "is_rejected (fst (cl_Exchange (real_client lib dl join) transport message options check c))"
  then show "check \<noteq> None"
    using client_Exchange_unchecked [of dl "snd c 0" transport message options "fst c"]
    by (cases c; cases check) (auto simp: real_client_def split: prod.splits)
next
  fix message :: dns_msg and question rest and options :: DNSQueryOptions and transport check and c :: "dns_client \<times> (nat \<Rightarrow> exchange_env)"
  assume "msg_Question message = question # rest" "strategy_forbids (qo_Strategy options) (q_Qtype question)"
  then show "fst (cl_Exchange (real_client lib dl join) transport message options check c) = Inr (FixedResponseStatus message RcodeSuccess) \<and>
      fst (snd (cl_Exchange (real_client lib dl join) transport message options check c)) = fst c"
    by (cases c) (auto simp: real_client_def client_Exchange_def strategy_forbids_def)
qed

section \<open>Updates of rule sets\<close>

text \<open>A mode fits the rules and the metadata of the rule sets.\<close>

definition mode_fits :: "rule_set_metadata \<Rightarrow> DNSRuleOptions list \<Rightarrow> bool \<Rightarrow> bool" where
  "mode_fits sets rawRules legacyDNSMode \<longleftrightarrow>
     (\<exists>flags. dnsRuleModeRequirements (Some sets) rawRules Map.empty = Inr flags \<and>
        (if legacyDNSMode then \<not> flag_disabled flags
         else (flag_disabled flags \<or> \<not> flag_needed flags) \<and> \<not> (flag_disabled flags \<and> flag_neededFromStrategy flags)))"

text \<open>An override of the metadata of one rule set is the same as the rule set having it.\<close>

lemma override_lookup:
  "lookupDNSRuleSetMetadata sets tag' [tag \<mapsto> metadata] = lookupDNSRuleSetMetadata (sets(tag \<mapsto> metadata)) tag' Map.empty"
  by (simp add: lookupDNSRuleSetMetadata_def)

lemma override_rule_set_flags:
  "rule_set_flags sets b [tag \<mapsto> metadata] tags flags = rule_set_flags (sets(tag \<mapsto> metadata)) b Map.empty tags flags"
  by (induction tags arbitrary: flags) (simp_all add: override_lookup)

lemma override_rule:
  "dnsRuleModeRequirementsInRule (Some sets) rule [tag \<mapsto> metadata] = dnsRuleModeRequirementsInRule (Some (sets(tag \<mapsto> metadata))) rule Map.empty"
  "sub_rule_flags (Some sets) rules [tag \<mapsto> metadata] flags = sub_rule_flags (Some (sets(tag \<mapsto> metadata))) rules Map.empty flags"
  by (induction "Some sets" rule "[tag \<mapsto> metadata]" and "Some sets" rules "[tag \<mapsto> metadata]" flags
      rule: dnsRuleModeRequirementsInRule_sub_rule_flags.induct)
    (simp_all add: dnsRuleModeRequirementsInDefaultRule_def override_rule_set_flags Let_def)

lemma override_all:
  "all_rule_flags (Some sets) rules [tag \<mapsto> metadata] flags = all_rule_flags (Some (sets(tag \<mapsto> metadata))) rules Map.empty flags"
  by (induction rules arbitrary: flags) (simp_all add: override_rule)

lemma validated_update_fits:
  assumes "ValidateRuleSetMetadataUpdate (Some sets) r tag metadata = None" "dr_started r" "\<not> dr_closing r"
  shows "mode_fits (sets(tag \<mapsto> metadata)) (dr_rawRules r) (dr_legacyDNSMode r)"
proof (cases "dr_rawRules r = []")
  case True
  then show ?thesis
    by (simp add: mode_fits_def dnsRuleModeRequirements_def flags_zero_def)
next
  case False
  then obtain candidate flags where c: "resolveLegacyDNSMode (Some sets) (dr_rawRules r) [tag \<mapsto> metadata] = Inr (candidate, flags)"
    "if dr_legacyDNSMode r then candidate \<or> \<not> flag_disabled flags else \<not> candidate"
    using assms by (auto simp: ValidateRuleSetMetadataUpdate_def split: sum.splits option.splits if_splits)
  then show ?thesis
    by (auto simp: mode_fits_def resolveLegacyDNSMode_def dnsRuleModeRequirements_def override_all bind_result_Inr_iff split: if_splits)
qed

section \<open>Properties\<close>

text \<open>
  C20. In the legacy mode a query and a lookup are one pass over the rules: the loops, which start the matching
  again after every rejected response, return, and their result is that of walking the rules once in order, where each rule is queried
  at most once and a rule whose response is rejected is passed over.
\<close>

theorem legacy_loops_walk_once:
  "exchange_legacy x ops r message options metadata c =
     Some (legacy_walk x True (isAddressQuery message) (exchange_action message)
       (\<lambda>transport dnsOptions check. exchange_with ops transport message (with_strategy (dr_defaultDomainStrategy r) dnsOptions) check)
       is_rejected options metadata 0 (dr_rules r) options c) \<and>
   lookup_legacy x ops r domain options metadata c =
     Some (legacy_walk x False True (lookup_action (rx_lib x))
       (\<lambda>transport dnsOptions check c. case lookup_with ops transport domain (with_strategy (dr_defaultDomainStrategy r) dnsOptions) check c of
          (result, c') \<Rightarrow> (LookupResult result, c'))
       lookup_failed options metadata 0 (dr_rules r) options c)"
  unfolding exchange_legacy_def lookup_legacy_def legacy_loop_walk next_index_def by simp

text \<open>
  C21. In the legacy mode the options that a route-options rule sets are lost when the response of a later rule is
  rejected: what follows is the exchange with the rules after the rejected one alone, with the options of the caller.
\<close>

theorem legacy_rejection_drops_options:
  assumes "dr_rules r = setter # limited # rest"
    and "legacy_selects x (isAddressQuery message) metadata setter" "dns_Action setter = Some (ActionDNSRouteOptions act)"
    and "legacy_selects x (isAddressQuery message) metadata limited" "dns_Action limited = Some (ActionDNSRoute server act')"
    and "manager_Transport (rx_Transports x) server = Some transport" "WithAddressLimit (rx_heap x) limited"
    and "cl_Exchange ops (dns_transport_of transport) message
        (with_strategy (dr_defaultDomainStrategy r)
          (apply_legacy_options act' (mo_Type transport = DNSTypeFakeIP) (apply_legacy_options act False options)))
        (Some (dns_MatchAddressLimit (rx_lib x) (rx_env x) (rx_heap x) limited (reset_metadata metadata))) c = (result, c')"
    and "is_rejected result"
  shows "exchange_legacy x ops r message options metadata c = exchange_legacy x ops (r\<lparr>dr_rules := rest\<rparr>) message options metadata c'"
proof -
  let ?walk = "legacy_walk x True (isAddressQuery message) (exchange_action message)
    (\<lambda>transport dnsOptions check. exchange_with ops transport message (with_strategy (dr_defaultDomainStrategy r) dnsOptions) check)
    is_rejected options metadata"
  have "?walk 0 (setter # limited # rest) options c = ?walk 2 rest options c'"
    using assms(2-9)
    by (simp add: addressLimitResponseCheck_def exchange_with_def exchange_action_def numeral_2_eq_2)
  also have "\<dots> = ?walk 0 rest options c'"
    by (rule legacy_walk_index) (simp add: exchange_action_def)
  finally show ?thesis
    unfolding exchange_legacy_def legacy_loop_walk next_index_def by (simp add: assms(1))
qed

definition sample_setter :: dns_rule where
  "sample_setter = DefaultDNSRule (new_rule False (Some (ActionDNSRouteOptions \<lparr>dro_Strategy = 0, dro_DisableCache = True,
     dro_DisableOptimisticCache = False, dro_RewriteTTL = Some 60, dro_ClientSubnet = prefix_zero\<rparr>))) False"

definition sample_limited :: dns_rule where
  "sample_limited = DefaultDNSRule (append_item G_destinationIPCIDRItems (NewIPIsPrivateItem False)
     (new_rule False (Some (ActionDNSRoute ''a'' \<lparr>dro_Strategy = 0, dro_DisableCache = False,
       dro_DisableOptimisticCache = False, dro_RewriteTTL = None, dro_ClientSubnet = prefix_zero\<rparr>)))) False"

definition sample_router :: dns_router where
  "sample_router = \<lparr>dr_rawRules = [], dr_rules = [sample_setter, sample_limited, sample_setter], dr_defaultDomainStrategy = 0,
     dr_dnsReverseMapping = None, dr_legacyDNSMode = True, dr_started = True, dr_closing = False\<rparr>"

definition sample_router_ctx :: router_ctx where
  "sample_router_ctx = \<lparr>rx_lib = sample_lib, rx_dl = sample_dnslib, rx_env = netenv_zero, rx_heap = (\<lambda>_. sample_rule_set),
     rx_Transports = sample_transports\<rparr>"

definition sample_options :: DNSQueryOptions where
  "sample_options = \<lparr>qo_Transport = None, qo_Strategy = 0, qo_LookupStrategy = 0, qo_DisableCache = False,
     qo_DisableOptimisticCache = False, qo_RewriteTTL = None, qo_ClientSubnet = prefix_zero\<rparr>"

definition rejecting_client :: "nat client_ops" where
  "rejecting_client = \<lparr>cl_Exchange = (\<lambda>_ _ _ _ n. (Inl ErrResponseRejected, Suc n)), cl_Lookup = (\<lambda>_ _ _ _ n. (Inl ErrResponseRejected, Suc n))\<rparr>"

lemma sample_selects:
  "legacy_selects sample_router_ctx (isAddressQuery sample_query) InboundContext_zero sample_setter"
  "legacy_selects sample_router_ctx (isAddressQuery sample_query) InboundContext_zero sample_limited"
proof -
  have "isAddressQuery sample_query"
    by (simp add: isAddressQuery_def sample_query_def lookup_message_def)
  moreover have "dns_LegacyPreMatch sample_lib netenv_zero (\<lambda>_. sample_rule_set) sample_setter metadata" for metadata
    by (simp add: sample_setter_def dns_LegacyPreMatch_eq default_matchStatesWithBase_def new_rule_def isEmpty_def
        emptyRuleMatchState_def singleRuleMatchState_def)
  moreover have "dns_LegacyPreMatch sample_lib netenv_zero (\<lambda>_. sample_rule_set) sample_limited metadata" for metadata
    unfolding sample_limited_def dns_LegacyPreMatch_eq dns_matchStatesWithBase.simps
    by (subst default_states_plain)
      (simp_all add: new_rule_def prematch_accepts_iff plain_conditions_def)
  ultimately show "legacy_selects sample_router_ctx (isAddressQuery sample_query) InboundContext_zero sample_setter"
    "legacy_selects sample_router_ctx (isAddressQuery sample_query) InboundContext_zero sample_limited"
    by (simp_all add: legacy_selects_def sample_router_ctx_def)
qed

theorem legacy_rejection_drops_options_witness:
  "exchange_legacy sample_router_ctx rejecting_client sample_router sample_query sample_options InboundContext_zero 0 =
   exchange_legacy sample_router_ctx rejecting_client (sample_router\<lparr>dr_rules := [sample_setter]\<rparr>) sample_query sample_options InboundContext_zero 1"
proof -
  have transport: "manager_Transport (rx_Transports sample_router_ctx) ''a'' = Some (sample_server 0 ''a'' ''udp'')"
    by (simp add: manager_Transport_def sample_router_ctx_def sample_transports_def)
  show ?thesis
    by (rule legacy_rejection_drops_options [OF _ sample_selects(1) _ sample_selects(2) _ transport, where result = "Inl ErrResponseRejected"])
      (simp_all add: sample_router_def sample_setter_def sample_limited_def new_rule_def rejecting_client_def is_rejected_def)
qed

text \<open>
  C22. An update of a remote rule set that is accepted while the DNS router runs keeps the mode of the router fitting: with
  the new metadata the rules of the router still do not disable the legacy mode when it is the mode they run
  in, and still do not need it when it is not.
\<close>

theorem rule_set_update_keeps_mode:
  assumes "ctx_Validator ctx = Some (ValidateRuleSetMetadataUpdate (Some sets) r)" "dr_started r" "\<not> dr_closing r"
    and "loadBytes lib ctx reader content s = (None, s', callbacks)"
  shows "mode_fits (sets(rso_Tag (rm_options s) \<mapsto> rm_metadata s')) (dr_rawRules r) (dr_legacyDNSMode r)"
proof -
  have "ValidateRuleSetMetadataUpdate (Some sets) r (rso_Tag (rm_options s)) (rm_metadata s') = None"
    using assms(1,4)
    by (auto simp: loadBytes_def prepare_rules_def validateRuleSetMetadataUpdate_def bind_result_Inr_iff Let_def
        split: sum.splits option.splits)
  then show ?thesis
    by (rule validated_update_fits [OF _ assms(2,3)])
qed

definition sample_validating_ctx :: rule_set_ctx where
  "sample_validating_ctx = \<lparr>ctx_NetworkManager = True, ctx_Validator = Some (ValidateRuleSetMetadataUpdate (Some Map.empty)
     (sample_router\<lparr>dr_rawRules := sample_raw_rules, dr_legacyDNSMode := False\<rparr>))\<rparr>"

theorem rule_set_update_keeps_mode_witness:
  "\<exists>s' callbacks. loadBytes sample_lib sample_validating_ctx sample_reader [1] sample_remote = (None, s', callbacks) \<and>
     mode_fits [''remote'' \<mapsto> rm_metadata s'] sample_raw_rules False"
proof -
  have valid: "ValidateRuleSetMetadataUpdate (Some Map.empty) (sample_router\<lparr>dr_rawRules := sample_raw_rules, dr_legacyDNSMode := False\<rparr>) tag metadata = None"
    for tag metadata
    by (simp add: ValidateRuleSetMetadataUpdate_def sample_router_def sample_resolve)
  obtain s' callbacks where *: "loadBytes sample_lib sample_validating_ctx sample_reader [1] sample_remote = (None, s', callbacks)"
    by (simp add: loadBytes_def sample_reader_def sample_remote_def NewRemoteRuleSet_def Let_def PlainRuleSetCompat_Upgrade_def
        prepare_rules_def sample_validating_ctx_def RuleTypeDefault_def validateRuleSetMetadataUpdate_def valid
        DefaultHeadlessRule_IsValid_def headless_options_zero_def NewDefaultHeadlessRule_def headless_steps_def)
  have "mode_fits (Map.empty(rso_Tag (rm_options sample_remote) \<mapsto> rm_metadata s'))
      (dr_rawRules (sample_router\<lparr>dr_rawRules := sample_raw_rules, dr_legacyDNSMode := False\<rparr>))
      (dr_legacyDNSMode (sample_router\<lparr>dr_rawRules := sample_raw_rules, dr_legacyDNSMode := False\<rparr>))"
    by (rule rule_set_update_keeps_mode [OF _ _ _ *]) (simp_all add: sample_validating_ctx_def sample_router_def)
  then show ?thesis
    using * by (simp add: sample_remote_def NewRemoteRuleSet_def)
qed

text \<open>
  C23. Outside of the legacy mode the strategy of the router holds for every query: when it forbids the address family
  of a query that sets no strategy of its own, no rule can make the router ask a server for it. The client is left unchanged and the
  response has no answers, unless a rule predefines it.
\<close>

theorem router_strategy_holds:
  assumes "msg_Question message = [question]" "strategy_forbids (dr_defaultDomainStrategy r) (q_Qtype question)"
    and "qo_Strategy options = DomainStrategyAsIS" "qo_Transport options = None" "\<not> dr_legacyDNSMode r"
    and "router_Exchange x (real_client lib dl join) timeNow evict message options metadata r c = Some (Inr response, r', c')"
  shows "fst c' = fst c \<and> (msg_Answer response = [] \<or>
    (\<exists>rule\<in>set (dr_rules r). \<exists>act. dns_Action rule = Some (ActionPredefined act) \<and> predefined_result act message = Inr response))"
proof -
  obtain xr c1 where xr: "exchangeWithRules x (real_client lib dl join) r message options True (exchange_metadata (rx_dl x) question metadata) c = (xr, c1)"
    by (metis surj_pair)
  have "xr_result xr = Inr response" "c' = c1"
    using assms(1,4-6) xr by (auto simp: Let_def router_Exchange_def split: if_splits)
  moreover have "fst c1 = fst c \<and> empty_or_predefined message (dr_rules r) xr"
    by (rule rc.exchange_rules_forbidden [OF assms(1,2) xr [unfolded exchangeWithRules_def] assms(3)]) simp
  ultimately show ?thesis
    unfolding empty_or_predefined_def by simp
qed

definition sample_current_router :: dns_router where
  "sample_current_router = sample_router\<lparr>dr_rules := [sample_setter], dr_legacyDNSMode := False,
     dr_defaultDomainStrategy := DomainStrategyIPv4Only\<rparr>"

theorem router_strategy_holds_witness:
  "\<exists>response r' c'. router_Exchange sample_router_ctx (real_client sample_lib sample_dnslib (\<lambda>a _. a)) 0 id
       (lookup_message ''example.org.'' TypeAAAA) sample_options InboundContext_zero sample_current_router
       (NewClient False False 0 prefix_zero False, undefined) = Some (Inr response, r', c') \<and> msg_Answer response = []"
proof -
  let ?ops = "real_client sample_lib sample_dnslib (\<lambda>a _. a)"
  let ?c = "(NewClient False False 0 prefix_zero False, undefined :: nat \<Rightarrow> exchange_env)"
  let ?q = "\<lparr>q_Name = ''example.org.'', q_Qtype = TypeAAAA, q_Qclass = ClassINET\<rparr>"
  have q: "msg_Question (lookup_message ''example.org.'' TypeAAAA) = [?q]"
    by (simp add: lookup_message_def)
  have forbids: "strategy_forbids (dr_defaultDomainStrategy sample_current_router) (q_Qtype ?q)"
    by (simp add: strategy_forbids_def sample_current_router_def)
  let ?fixed = "FixedResponseStatus (lookup_message ''example.org.'' TypeAAAA) RcodeSuccess"
  have query: "fst (cl_Exchange ?ops t (lookup_message ''example.org.'' TypeAAAA) o' None ?c) = Inr ?fixed" if "qo_Strategy o' = 3" for t o'
    using rc.forbidden_query [OF q, of o' sample_lib sample_dnslib "\<lambda>a _. a" t None ?c] that
    by (simp add: strategy_forbids_def strategy_defs)
  have exchange: "xr_result (fst (exchangeWithRules sample_router_ctx ?ops sample_current_router (lookup_message ''example.org.'' TypeAAAA)
      sample_options True md ?c)) = Inr ?fixed" for md
    by (simp add: exchangeWithRules_def sample_current_router_def sample_setter_def new_rule_def exchange_with_def sample_router_ctx_def
        sample_transports_def with_strategy_def applyDNSRouteOptions_def sample_options_def result_of_def strategy_defs Let_def
        prod.case_eq_if query)
  obtain response r' c' where *: "router_Exchange sample_router_ctx ?ops 0 id (lookup_message ''example.org.'' TypeAAAA) sample_options
      InboundContext_zero sample_current_router ?c = Some (Inr response, r', c')"
    using exchange [of "exchange_metadata (rx_dl sample_router_ctx) ?q InboundContext_zero"]
    by (auto simp: router_Exchange_def q Let_def sample_current_router_def sample_router_def sample_options_def prod.case_eq_if)
  show ?thesis
    using router_strategy_holds [OF q forbids _ _ _ *] *
    by (simp add: sample_options_def sample_current_router_def strategy_defs sample_setter_def new_rule_def)
qed

end
