(* ===== verification/Bytes.thy ===== *)
theory Bytes
  imports Prelude
begin

text \<open>
  Byte slices and byte readers, as the parsers of the first bytes of a connection use them: indexing and slicing that
  panic out of range, the readers of \<^verbatim>\<open>io\<close>, \<^verbatim>\<open>bytes\<close> and
  \<^verbatim>\<open>encoding/binary\<close> over a remaining input, and decimal numbers
  (\<^verbatim>\<open>strconv\<close>).
\<close>

section \<open>Indexing and slicing\<close>

definition index_panic :: err where "index_panic = Panic ''index out of range''"
definition slice_panic :: err where "slice_panic = Panic ''slice bounds out of range''"

definition go_index :: "'a list \<Rightarrow> nat \<Rightarrow> 'a result" where
  "go_index xs i = (if i < length xs then Inr (xs ! i) else Inl index_panic)"

definition go_slice :: "'a list \<Rightarrow> nat \<Rightarrow> nat \<Rightarrow> 'a list result" where
  "go_slice xs i j = (if i \<le> j \<and> j \<le> length xs then Inr (take (j - i) (drop i xs)) else Inl slice_panic)"

definition go_slice_from :: "'a list \<Rightarrow> nat \<Rightarrow> 'a list result" where
  "go_slice_from xs i = (if i \<le> length xs then Inr (drop i xs) else Inl slice_panic)"

lemma go_index_ok [simp]: "i < length xs \<Longrightarrow> go_index xs i = Inr (xs ! i)"
  by (simp add: go_index_def)

lemma go_index_0 [simp]: "xs \<noteq> [] \<Longrightarrow> go_index xs 0 = Inr (xs ! 0)"
  by simp

lemma go_slice_ok [simp]: "i \<le> j \<Longrightarrow> j \<le> length xs \<Longrightarrow> go_slice xs i j = Inr (take (j - i) (drop i xs))"
  by (simp add: go_slice_def)

lemma go_slice_from_ok [simp]: "i \<le> length xs \<Longrightarrow> go_slice_from xs i = Inr (drop i xs)"
  by (simp add: go_slice_from_def)

definition is_panic :: "'a result \<Rightarrow> bool" where
  "is_panic r \<longleftrightarrow> (\<exists>m. r = Inl (Panic m))"

lemma is_panic_simps [simp]:
  "is_panic (Inl (Panic m))" "\<not> is_panic (Inl (Err m))" "\<not> is_panic (Inl (Cause m e))" "\<not> is_panic (Inl (Errors es))"
  "\<not> is_panic (Inr x)"
  by (simp_all add: is_panic_def)

lemma is_panic_isl: "is_panic r \<Longrightarrow> isl r"
  by (auto simp: is_panic_def)

lemma is_panic_raised [simp]: "is_panic (Inl index_panic)" "is_panic (Inl slice_panic)"
  by (simp_all add: index_panic_def slice_panic_def)

lemma is_panic_bind: "is_panic (bind_result r f) \<longleftrightarrow> is_panic r \<or> (\<exists>x. r = Inr x \<and> is_panic (f x))"
  by (cases r) (simp_all add: is_panic_def)

section \<open>Numbers in network byte order\<close>

lemma unat_byte_less: "unat (b :: byte) < 256"
  using unsigned_less [of b, where ?'a = nat] by simp

fun be_nat :: "byte list \<Rightarrow> nat" where
  "be_nat [] = 0"
| "be_nat (b # bs) = unat b * 256 ^ length bs + be_nat bs"

lemma be_nat_less: "be_nat bs < 256 ^ length bs"
proof (induction bs)
  case (Cons b bs)
  have "unat b * 256 ^ length bs + be_nat bs < unat b * 256 ^ length bs + 256 ^ length bs"
    using Cons by simp
  also have "\<dots> = Suc (unat b) * 256 ^ length bs" by simp
  also have "\<dots> \<le> 256 * 256 ^ length bs"
    using unat_byte_less [of b] by (intro mult_right_mono) simp_all
  finally show ?case by simp
qed simp

text \<open>\<^verbatim>\<open>uint16(xs[i])<<8 | uint16(xs[i+1])\<close>, and \<^verbatim>\<open>binary.BigEndian.Uint16(xs)\<close> with \<open>i = 0\<close>.\<close>

definition be16 :: "byte \<Rightarrow> byte \<Rightarrow> u16" where
  "be16 a b = push_bit 8 (ucast a) OR ucast b"

definition uint16_at :: "byte list \<Rightarrow> nat \<Rightarrow> u16 result" where
  "uint16_at xs i = bind_result (go_index xs i) (\<lambda>a. bind_result (go_index xs (Suc i)) (\<lambda>b. Inr (be16 a b)))"

lemma uint16_at_ok [simp]: "Suc i < length xs \<Longrightarrow> uint16_at xs i = Inr (be16 (xs ! i) (xs ! Suc i))"
  by (simp add: uint16_at_def)

lemma uint16_at_panic: "is_panic (uint16_at xs i) \<longleftrightarrow> length xs \<le> Suc i"
  by (auto simp: uint16_at_def go_index_def is_panic_bind)

lemma uint16_at_cases: "uint16_at xs i = (if Suc i < length xs then Inr (be16 (xs ! i) (xs ! Suc i)) else Inl index_panic)"
  by (auto simp: uint16_at_def go_index_def)

lemma unat_be16: "unat (be16 a b) = unat a * 256 + unat b"
proof -
  have zero: "push_bit 8 (ucast a) AND (ucast b :: u16) = 0"
    by (rule bit_word_eqI) (auto simp: bit_simps dest: bit_imp_le_length)
  have high: "unat (push_bit 8 (ucast a) :: u16) = unat a * 256"
    using unat_byte_less [of a]
    unfolding unsigned_push_bit_eq unsigned_ucast_eq by (simp add: take_bit_nat_def push_bit_eq_mult [where ?'a = nat])
  have low: "unat (ucast b :: u16) = unat b"
    using unat_byte_less [of b] by (simp add: unsigned_ucast_eq take_bit_nat_eq_self)
  have "unat (push_bit 8 (ucast a) + (ucast b :: u16)) = unat a * 256 + unat b"
    using high low unat_byte_less [of a] unat_byte_less [of b] by (subst unat_add_lem [THEN iffD1]) simp_all
  then show ?thesis
    by (simp add: be16_def disjunctive_add_eq_or [OF zero])
qed

section \<open>Readers\<close>

text \<open>A reader is the input that is left.\<close>

type_synonym reader = "byte list"

definition EOF :: err where "EOF = Err ''EOF''"
definition ErrUnexpectedEOF :: err where "ErrUnexpectedEOF = Err ''unexpected EOF''"
definition ErrInvalid :: err where "ErrInvalid = Err ''invalid argument''"

definition ReadByte :: "reader \<Rightarrow> (byte \<times> reader) result" where
  "ReadByte r = (case r of [] \<Rightarrow> Inl EOF | b # rest \<Rightarrow> Inr (b, rest))"

text \<open>\<^verbatim>\<open>io.ReadFull\<close>, which \<^verbatim>\<open>binary.Read\<close> of a fixed-size value is, and
  \<^verbatim>\<open>io.CopyN(io.Discard, r, n)\<close>.\<close>

definition ReadFull :: "nat \<Rightarrow> reader \<Rightarrow> (byte list \<times> reader) result" where
  "ReadFull n r =
     (if n \<le> length r then Inr (take n r, drop n r) else Inl (if r = [] then EOF else ErrUnexpectedEOF))"

definition Discard :: "nat \<Rightarrow> reader \<Rightarrow> reader result" where
  "Discard n r = (if n \<le> length r then Inr (drop n r) else Inl EOF)"

lemma ReadByte_simps [simp]: "ReadByte [] = Inl EOF" "ReadByte (b # r) = Inr (b, r)"
  by (simp_all add: ReadByte_def)

lemma reader_errors [simp]: "\<not> is_panic (Inl EOF)" "\<not> is_panic (Inl ErrUnexpectedEOF)" "\<not> is_panic (Inl ErrInvalid)"
  by (simp_all add: EOF_def ErrUnexpectedEOF_def ErrInvalid_def)

lemma reader_no_panic [simp]: "\<not> is_panic (ReadByte r)" "\<not> is_panic (ReadFull n r)" "\<not> is_panic (Discard n r)"
  by (simp_all add: ReadByte_def ReadFull_def Discard_def split: list.split)

lemma reader_length:
  "ReadByte r = Inr (b, r') \<Longrightarrow> length r = Suc (length r')"
  "ReadFull n r = Inr (bs, r') \<Longrightarrow> length r = n + length r'"
  "Discard n r = Inr r' \<Longrightarrow> length r = n + length r'"
  by (auto simp: ReadByte_def ReadFull_def Discard_def split: list.splits if_splits)

section \<open>Decimal numbers\<close>

fun decimal :: "nat \<Rightarrow> string" where
  "decimal n = (if n < 10 then [char_of (48 + n)] else decimal (n div 10) @ [char_of (48 + n mod 10)])"

declare decimal.simps [simp del]

end
