(* ===== verification/Ja3.thy ===== *)
theory Ja3
  imports Bytes
begin

text \<open>
  The parser of TLS client hello messages (\<^verbatim>\<open>src/common/ja3/parser.go\<close>, \<^verbatim>\<open>ja3.go\<close>
  and \<^verbatim>\<open>error.go\<close>), which the QUIC sniffer runs on the data a client sent.

  Every index and every slice of the code is one here, and panics out of range. The loop over the extensions moves
  forward by a sixteen-bit sum, so that it is a partial function: not returning is the value \<open>None\<close>. A
  message that was not accepted leaves a partly filled structure, which no caller looks at: the model returns the error
  only.
\<close>

section \<open>Messages and errors\<close>

record ClientHello =
  ch_Version :: u16
  ch_CipherSuites :: "u16 list"
  ch_Extensions :: "u16 list"
  ch_EllipticCurves :: "u16 list"
  ch_EllipticCurvePF :: "u8 list"
  ch_Versions :: "u16 list"
  ch_SignatureAlgorithms :: "u16 list"
  ch_ServerName :: "byte list"

definition ClientHello_zero :: ClientHello where
  "ClientHello_zero = \<lparr>ch_Version = 0, ch_CipherSuites = [], ch_Extensions = [], ch_EllipticCurves = [], ch_EllipticCurvePF = [],
     ch_Versions = [], ch_SignatureAlgorithms = [], ch_ServerName = []\<rparr>"

definition LengthErr :: "nat \<Rightarrow> err" where "LengthErr n = Err (''length check '' @ decimal n @ '' failed'')"
definition ContentTypeErr :: err where "ContentTypeErr = Err ''content type not matching''"
definition VersionErr :: "nat \<Rightarrow> err" where "VersionErr n = Err (''version check '' @ decimal n @ '' failed'')"
definition HandshakeTypeErr :: err where "HandshakeTypeErr = Err ''handshake type not matching''"
definition SNITypeErr :: err where "SNITypeErr = Err ''SNI type not supported''"

definition sniExtensionType :: u16 where "sniExtensionType = 0"
definition ecExtensionType :: u16 where "ecExtensionType = 10"
definition ecpfExtensionType :: u16 where "ecpfExtensionType = 11"
definition signatureAlgorithmsExtensionType :: u16 where "signatureAlgorithmsExtensionType = 13"
definition versionExtensionType :: u16 where "versionExtensionType = 43"

definition supported_version :: "u16 \<Rightarrow> bool" where
  "supported_version v \<longleftrightarrow> v AND 0xFFFC = 0x0300 \<or> v = 0x0304"

text \<open>\<^verbatim>\<open>if check { return &ParseError{...} }\<close>\<close>

definition guard :: "bool \<Rightarrow> err \<Rightarrow> 'a result \<Rightarrow> 'a result" where
  "guard failed e r = (if failed then Inl e else r)"

section \<open>Extensions\<close>

text \<open>The loops over lists of numbers: by index, as for the supported groups, and by slices, as for the versions and the
  signature algorithms.\<close>

fun index_loop :: "byte list \<Rightarrow> nat \<Rightarrow> nat \<Rightarrow> u16 list result" where
  "index_loop xs i 0 = Inr []"
| "index_loop xs i (Suc n) =
     bind_result (uint16_at xs (2 * i)) (\<lambda>v. bind_result (index_loop xs (Suc i) n) (\<lambda>vs. Inr (v # vs)))"

function slice_loop :: "byte list \<Rightarrow> nat \<Rightarrow> nat \<Rightarrow> u16 list result" where
  "slice_loop xs i n =
     (if i < n then
        bind_result (go_slice_from xs i) (\<lambda>s.
        bind_result (uint16_at s 0) (\<lambda>v.
        bind_result (slice_loop xs (i + 2) n) (\<lambda>vs. Inr (v # vs))))
      else Inr [])"
  by pat_completeness auto
termination by (relation "measure (\<lambda>(xs, i, n). n - i)") auto

declare slice_loop.simps [simp del]

definition parse_sni :: "byte list \<Rightarrow> ClientHello \<Rightarrow> ClientHello result" where
  "parse_sni sex j =
     guard (length sex < 5) (LengthErr 13) (
     bind_result (go_index sex 2) (\<lambda>sniType.
     bind_result (uint16_at sex 3) (\<lambda>sniLen.
     bind_result (go_slice_from sex 5) (\<lambda>sex.
     guard (length sex \<noteq> unat sniLen) (LengthErr 14) (
     if sniType = 0 then Inr (j\<lparr>ch_ServerName := sex\<rparr>) else Inl SNITypeErr)))))"

definition parse_ec :: "byte list \<Rightarrow> ClientHello \<Rightarrow> ClientHello result" where
  "parse_ec sex j =
     guard (length sex < 2) (LengthErr 15) (
     bind_result (uint16_at sex 0) (\<lambda>ecsLen.
     bind_result (go_slice_from sex 2) (\<lambda>sex.
     guard (length sex \<noteq> unat ecsLen) (LengthErr 16) (
     bind_result (index_loop sex 0 (unat ecsLen div 2)) (\<lambda>ellipticCurves.
     Inr (j\<lparr>ch_EllipticCurves := ellipticCurves\<rparr>))))))"

definition parse_ecpf :: "byte list \<Rightarrow> ClientHello \<Rightarrow> ClientHello result" where
  "parse_ecpf sex j =
     guard (length sex < 1) (LengthErr 17) (
     bind_result (go_index sex 0) (\<lambda>ecpfsLen.
     bind_result (go_slice_from sex 1) (\<lambda>sex.
     guard (length sex \<noteq> unat ecpfsLen) (LengthErr 18) (
     Inr (j\<lparr>ch_EllipticCurvePF := sex\<rparr>)))))"

definition parse_versions :: "byte list \<Rightarrow> ClientHello \<Rightarrow> ClientHello result" where
  "parse_versions sex j =
     guard (length sex < 1) (LengthErr 19) (
     bind_result (go_index sex 0) (\<lambda>versionsLen.
     bind_result (slice_loop (drop 1 sex) 0 (unat versionsLen)) (\<lambda>versions.
     Inr (j\<lparr>ch_Versions := ch_Versions j @ versions\<rparr>))))"

definition parse_signature_algorithms :: "byte list \<Rightarrow> ClientHello \<Rightarrow> ClientHello result" where
  "parse_signature_algorithms sex j =
     guard (length sex < 2) (LengthErr 20) (
     bind_result (uint16_at sex 0) (\<lambda>ssaLen.
     bind_result (slice_loop (drop 2 sex) 0 (unat ssaLen)) (\<lambda>signatureAlgorithms.
     Inr (j\<lparr>ch_SignatureAlgorithms := ch_SignatureAlgorithms j @ signatureAlgorithms\<rparr>))))"

definition parse_extension :: "u16 \<Rightarrow> byte list \<Rightarrow> ClientHello \<Rightarrow> ClientHello result" where
  "parse_extension exType sex j =
     (if exType = sniExtensionType then parse_sni sex j
      else if exType = ecExtensionType then parse_ec sex j
      else if exType = ecpfExtensionType then parse_ecpf sex j
      else if exType = versionExtensionType then parse_versions sex j
      else if exType = signatureAlgorithmsExtensionType then parse_signature_algorithms sex j
      else Inr j)"

text \<open>The sum of the last line of the loop is one of sixteen-bit numbers.\<close>

partial_function (option) extension_loop :: "byte list \<Rightarrow> ClientHello \<Rightarrow> ClientHello result option" where
  "extension_loop exs j =
     (if exs = [] then Some (Inr j)
      else if length exs < 4 then Some (Inl (LengthErr 11))
      else
        (case bind_result (uint16_at exs 0) (\<lambda>exType. bind_result (uint16_at exs 2) (\<lambda>exLen. Inr (exType, exLen))) of
           Inl e \<Rightarrow> Some (Inl e)
         | Inr (exType, exLen) \<Rightarrow>
             (case
                guard (length exs < 4 + unat exLen) (LengthErr 12) (
                bind_result (go_slice exs 4 (4 + unat exLen)) (\<lambda>sex.
                bind_result (parse_extension exType sex (j\<lparr>ch_Extensions := ch_Extensions j @ [exType]\<rparr>)) (\<lambda>j'.
                bind_result (go_slice_from exs (unat (4 + exLen))) (\<lambda>rest. Inr (j', rest))))) of
                Inl e \<Rightarrow> Some (Inl e)
              | Inr (j', rest) \<Rightarrow> extension_loop rest j')))"

definition parseExtensions :: "byte list \<Rightarrow> ClientHello \<Rightarrow> ClientHello result option" where
  "parseExtensions exs j =
     (if length exs = 0 then Some (Inr j)
      else if length exs < 2 then Some (Inl (LengthErr 9))
      else
        (case bind_result (uint16_at exs 0) (\<lambda>exsLen. bind_result (go_slice_from exs 2) (\<lambda>exs'. Inr (exsLen, exs'))) of
           Inl e \<Rightarrow> Some (Inl e)
         | Inr (exsLen, exs') \<Rightarrow>
             if length exs' < unat exsLen then Some (Inl (LengthErr 10)) else extension_loop exs' j))"

section \<open>The handshake\<close>

definition parse_cipher_suites :: "byte list \<Rightarrow> ClientHello \<Rightarrow> (ClientHello \<times> byte list) result" where
  "parse_cipher_suites cs j =
     guard (length cs < 2) (LengthErr 6) (
     bind_result (uint16_at cs 0) (\<lambda>csLen.
     guard (length cs < 2 + unat csLen + 1) (LengthErr 7) (
     bind_result (index_loop cs 1 (unat csLen div 2)) (\<lambda>cipherSuites.
     bind_result (go_index cs (2 + unat csLen)) (\<lambda>compressMethodLen.
     guard (length cs < 2 + unat csLen + 1 + unat compressMethodLen) (LengthErr 8) (
     bind_result (go_slice_from cs (2 + unat csLen + 1 + unat compressMethodLen)) (\<lambda>exs.
     Inr (j\<lparr>ch_CipherSuites := cipherSuites\<rparr>, exs))))))))"

definition parse_hello_header :: "byte list \<Rightarrow> ClientHello \<Rightarrow> (ClientHello \<times> byte list) result" where
  "parse_hello_header hs j =
     guard (length hs < 6 + 32 + 1) (LengthErr 3) (
     bind_result (go_index hs 0) (\<lambda>handshType.
     guard (handshType \<noteq> 1) HandshakeTypeErr (
     bind_result (go_slice hs 1 4) (\<lambda>handshakeLen.
     bind_result (go_slice_from hs 4) (\<lambda>body.
     guard (length body \<noteq> be_nat handshakeLen) (LengthErr 4) (
     bind_result (uint16_at hs 4) (\<lambda>tlsVersion.
     guard (\<not> supported_version tlsVersion) (VersionErr 2) (
     bind_result (go_index hs 38) (\<lambda>sessionIDLen.
     guard (length hs < 6 + 32 + 1 + unat sessionIDLen) (LengthErr 5) (
     bind_result (go_slice_from hs (6 + 32 + 1 + unat sessionIDLen)) (\<lambda>cs.
     Inr (j\<lparr>ch_Version := tlsVersion\<rparr>, cs))))))))))))"

definition parseHandshake :: "byte list \<Rightarrow> ClientHello \<Rightarrow> ClientHello result option" where
  "parseHandshake hs j =
     (case bind_result (parse_hello_header hs j) (\<lambda>(j', cs). parse_cipher_suites cs j') of
        Inl e \<Rightarrow> Some (Inl e)
      | Inr (j', exs) \<Rightarrow> parseExtensions exs j')"

definition parse_record :: "byte list \<Rightarrow> byte list result" where
  "parse_record segment =
     guard (length segment < 5) (LengthErr 1) (
     bind_result (go_index segment 0) (\<lambda>contType.
     guard (contType \<noteq> 22) ContentTypeErr (
     bind_result (uint16_at segment 1) (\<lambda>tlsRecordVersion.
     guard (\<not> supported_version tlsRecordVersion) (VersionErr 1) (
     bind_result (uint16_at segment 3) (\<lambda>segmentLen.
     bind_result (go_slice_from segment 5) (\<lambda>payload.
     guard (length payload < unat segmentLen) (LengthErr 2) (
     go_slice segment 5 (5 + unat segmentLen)))))))))"

definition parseSegment :: "byte list \<Rightarrow> ClientHello \<Rightarrow> ClientHello result option" where
  "parseSegment segment j =
     (case parse_record segment of Inl e \<Rightarrow> Some (Inl e) | Inr hs \<Rightarrow> parseHandshake hs j)"

definition Compute :: "byte list \<Rightarrow> ClientHello result option" where
  "Compute payload = parseSegment payload ClientHello_zero"

section \<open>What the parser accepts, and where it panics\<close>

text \<open>The extensions of a block, by their lengths.\<close>

function tlvs :: "byte list \<Rightarrow> (u16 \<times> byte list) list" where
  "tlvs xs =
     (if length xs < 4 \<or> length xs < 4 + unat (be16 (xs ! 2) (xs ! 3)) then []
      else (be16 (xs ! 0) (xs ! 1), take (unat (be16 (xs ! 2) (xs ! 3))) (drop 4 xs)) #
        tlvs (drop (4 + unat (be16 (xs ! 2) (xs ! 3))) xs))"
  by pat_completeness auto
termination by (relation "measure length") auto

declare tlvs.simps [simp del]

text \<open>The number of bytes that a loop in steps of two reads.\<close>

definition rounded :: "nat \<Rightarrow> nat" where
  "rounded n = 2 * ((n + 1) div 2)"

fun accepted :: "u16 \<times> byte list \<Rightarrow> bool" where
  "accepted (exType, b) \<longleftrightarrow>
     (if exType = sniExtensionType then 5 \<le> length b \<and> b ! 2 = 0 \<and> length b = 5 + unat (be16 (b ! 3) (b ! 4))
      else if exType = ecExtensionType then 2 \<le> length b \<and> length b = 2 + unat (be16 (b ! 0) (b ! 1))
      else if exType = ecpfExtensionType then 1 \<le> length b \<and> length b = 1 + unat (b ! 0)
      else if exType = versionExtensionType then 1 \<le> length b \<and> 1 + rounded (unat (b ! 0)) \<le> length b
      else if exType = signatureAlgorithmsExtensionType then 2 \<le> length b \<and> 2 + rounded (unat (be16 (b ! 0) (b ! 1))) \<le> length b
      else True)"

text \<open>A list of versions or of signature algorithms that is longer than the extension it is in.\<close>

fun overlong :: "u16 \<times> byte list \<Rightarrow> bool" where
  "overlong (exType, b) \<longleftrightarrow>
     (exType = versionExtensionType \<and> 1 \<le> length b \<and> length b < 1 + rounded (unat (b ! 0))) \<or>
     (exType = signatureAlgorithmsExtensionType \<and> 2 \<le> length b \<and> length b < 2 + rounded (unat (be16 (b ! 0) (b ! 1))))"

lemma guard_simps [simp]: "guard True e r = Inl e" "guard False e r = r"
  by (simp_all add: guard_def)

lemma index_loop_ok: "2 * (i + n) \<le> length xs \<Longrightarrow> \<exists>vs. index_loop xs i n = Inr vs"
proof (induction n arbitrary: i)
  case (Suc n)
  then have "\<exists>vs. index_loop xs (Suc i) n = Inr vs" by simp
  then show ?case using Suc.prems by auto
qed simp

lemma slice_loop_outcome:
  "(if i < n \<and> length xs < i + rounded (n - i) then is_panic (slice_loop xs i n) else \<exists>vs. slice_loop xs i n = Inr vs)"
proof (induction xs i n rule: slice_loop.induct)
  case (1 xs i n)
  show ?case
  proof (cases "i < n")
    case True
    have step: "rounded (n - i) = 2 + rounded (n - (i + 2))"
      using True by (simp add: rounded_def) presburger
    show ?thesis
    proof (cases "i + 2 \<le> length xs")
      case fits: True
      then have eq: "slice_loop xs i n =
          bind_result (slice_loop xs (i + 2) n) (\<lambda>vs. Inr (be16 (drop i xs ! 0) (drop i xs ! Suc 0) # vs))"
        using True by (subst slice_loop.simps) simp
      have IH: "if i + 2 < n \<and> length xs < i + 2 + rounded (n - (i + 2)) then is_panic (slice_loop xs (i + 2) n)
          else \<exists>vs. slice_loop xs (i + 2) n = Inr vs"
        using 1 [OF True] fits by simp
      have "n \<le> i + 2 \<Longrightarrow> rounded (n - (i + 2)) = 0" by (simp add: rounded_def)
      then show ?thesis
        using IH True fits unfolding eq step
        by (auto simp: is_panic_bind split: if_splits)
    next
      case False
      then have "is_panic (slice_loop xs i n)"
        using True by (subst slice_loop.simps) (cases "i \<le> length xs"; simp add: is_panic_bind go_slice_from_def uint16_at_panic; linarith)
      then show ?thesis
        using True False unfolding step by simp
    qed
  qed (simp add: slice_loop.simps)
qed

lemma slice_loop_0:
  "is_panic (slice_loop xs 0 n) \<longleftrightarrow> length xs < rounded n"
  "isl (slice_loop xs 0 n) \<longleftrightarrow> length xs < rounded n"
  using slice_loop_outcome [of 0 n xs] by (auto simp: rounded_def dest: is_panic_isl split: if_splits)

lemmas extension_types =
  sniExtensionType_def ecExtensionType_def ecpfExtensionType_def versionExtensionType_def signatureAlgorithmsExtensionType_def

lemma error_no_panic [simp]:
  "\<not> is_panic (Inl (LengthErr n))" "\<not> is_panic (Inl (VersionErr n))" "\<not> is_panic (Inl SNITypeErr)"
  "\<not> is_panic (Inl ContentTypeErr)" "\<not> is_panic (Inl HandshakeTypeErr)"
  by (simp_all add: LengthErr_def VersionErr_def SNITypeErr_def ContentTypeErr_def HandshakeTypeErr_def)

lemma isl_bind: "isl (bind_result r f) \<longleftrightarrow> isl r \<or> (\<exists>x. r = Inr x \<and> isl (f x))"
  by (cases r) simp_all

lemma parse_sni_outcome:
  "\<not> is_panic (parse_sni b j)"
  "isl (parse_sni b j) \<longleftrightarrow> \<not> (5 \<le> length b \<and> b ! 2 = 0 \<and> length b = 5 + unat (be16 (b ! 3) (b ! 4)))"
  by (cases "length b < 5"; auto simp: parse_sni_def guard_def eval_nat_numeral)+

lemma parse_ec_outcome:
  "\<not> is_panic (parse_ec b j)"
  "isl (parse_ec b j) \<longleftrightarrow> \<not> (2 \<le> length b \<and> length b = 2 + unat (be16 (b ! 0) (b ! 1)))"
proof -
  have "\<exists>vs. index_loop (drop 2 b) 0 ((length b - 2) div 2) = Inr vs"
    by (rule index_loop_ok) simp
  then show "\<not> is_panic (parse_ec b j)"
    "isl (parse_ec b j) \<longleftrightarrow> \<not> (2 \<le> length b \<and> length b = 2 + unat (be16 (b ! 0) (b ! 1)))"
    by (cases "length b < 2"; auto simp: parse_ec_def guard_def)+
qed

lemma parse_ecpf_outcome:
  "\<not> is_panic (parse_ecpf b j)"
  "isl (parse_ecpf b j) \<longleftrightarrow> \<not> (1 \<le> length b \<and> length b = 1 + unat (b ! 0))"
  by (cases b; simp add: parse_ecpf_def guard_def)+

text \<open>The outcome of a list that is read to the end of its length and put into the result.\<close>

lemma slice_loop_then:
  "is_panic (bind_result (slice_loop xs 0 n) (\<lambda>vs. Inr (f vs))) \<longleftrightarrow> length xs < rounded n"
  "isl (bind_result (slice_loop xs 0 n) (\<lambda>vs. Inr (f vs))) \<longleftrightarrow> length xs < rounded n"
  using slice_loop_0 [of xs n] by (cases "slice_loop xs 0 n"; simp add: is_panic_def)+

lemma parse_versions_outcome:
  "is_panic (parse_versions b j) \<longleftrightarrow> 1 \<le> length b \<and> length b < 1 + rounded (unat (b ! 0))"
  "isl (parse_versions b j) \<longleftrightarrow> \<not> (1 \<le> length b \<and> 1 + rounded (unat (b ! 0)) \<le> length b)"
  by (cases b; simp add: parse_versions_def slice_loop_then not_le)+

lemma parse_signature_algorithms_outcome:
  "is_panic (parse_signature_algorithms b j) \<longleftrightarrow> 2 \<le> length b \<and> length b < 2 + rounded (unat (be16 (b ! 0) (b ! 1)))"
  "isl (parse_signature_algorithms b j) \<longleftrightarrow> \<not> (2 \<le> length b \<and> 2 + rounded (unat (be16 (b ! 0) (b ! 1))) \<le> length b)"
  by (cases "length b < 2"; auto simp: parse_signature_algorithms_def guard_def slice_loop_then)+

lemma parse_extension_outcome:
  "is_panic (parse_extension exType b j) \<longleftrightarrow> overlong (exType, b)"
  "isl (parse_extension exType b j) \<longleftrightarrow> \<not> accepted (exType, b)"
  by (simp_all add: parse_extension_def parse_sni_outcome parse_ec_outcome parse_ecpf_outcome parse_versions_outcome
      parse_signature_algorithms_outcome extension_types del: One_nat_def)

lemma parse_extension_keeps: "parse_extension exType b j = Inr j' \<Longrightarrow> ch_Extensions j' = ch_Extensions j"
  by (auto simp: parse_extension_def parse_sni_def parse_ec_def parse_ecpf_def parse_versions_def
      parse_signature_algorithms_def guard_def bind_result_Inr_iff split: if_splits)

text \<open>The extension the parser stops at.\<close>

definition first_bad :: "byte list \<Rightarrow> (u16 \<times> byte list) option" where
  "first_bad exs = find (\<lambda>e. \<not> accepted e) (tlvs exs)"

definition panics_at :: "(u16 \<times> byte list) option \<Rightarrow> bool" where
  "panics_at bad \<longleftrightarrow> (\<exists>e. bad = Some e \<and> overlong e)"

lemma panics_at_simps [simp]: "\<not> panics_at None" "panics_at (Some e) \<longleftrightarrow> overlong e"
  by (simp_all add: panics_at_def)

lemma overlong_not_accepted: "overlong e \<Longrightarrow> \<not> accepted e"
  by (cases e) (auto simp: extension_types)

text \<open>The sixteen-bit sum of the loop does not wrap around for the blocks that fit into a record.\<close>

lemma next_extension: "4 + unat exLen < 65536 \<Longrightarrow> unat (4 + exLen :: u16) = 4 + unat exLen"
  by (subst unat_add_lem [THEN iffD1]) simp_all

lemma extension_loop_outcome:
  "length exs < 65536 \<Longrightarrow>
   \<exists>r. extension_loop exs j = Some r \<and> (is_panic r \<longleftrightarrow> panics_at (first_bad exs)) \<and>
     (\<forall>j'. r = Inr j' \<longrightarrow> ch_Extensions j' = ch_Extensions j @ map fst (tlvs exs))"
proof (induction exs arbitrary: j rule: length_induct)
  case (1 exs)
  let ?ty = "be16 (exs ! 0) (exs ! 1)" and ?n = "unat (be16 (exs ! 2) (exs ! 3))"
  show ?case
  proof (cases "length exs < 4 \<or> length exs < 4 + ?n")
    case True
    then have "tlvs exs = []" by (subst tlvs.simps) simp
    then show ?thesis
      using True by (subst extension_loop.simps) (auto simp: first_bad_def guard_def)
  next
    case False
    define b rest j1 where "b = take ?n (drop 4 exs)" and "rest = drop (4 + ?n) exs"
      and "j1 = j\<lparr>ch_Extensions := ch_Extensions j @ [?ty]\<rparr>"
    have tlvs: "tlvs exs = (?ty, b) # tlvs rest"
      using False unfolding b_def rest_def by (subst tlvs.simps) simp
    have loop: "extension_loop exs j =
        (case parse_extension ?ty b j1 of Inl e \<Rightarrow> Some (Inl e) | Inr j' \<Rightarrow> extension_loop rest j')"
      using False "1.prems" next_extension [of "be16 (exs ! 2) (exs ! 3)"] unfolding b_def rest_def j1_def
      by (subst extension_loop.simps) (auto simp: guard_def split: sum.split)
    show ?thesis
    proof (cases "parse_extension ?ty b j1")
      case (Inl e)
      then have "\<not> accepted (?ty, b)" using parse_extension_outcome(2) [of ?ty b j1] by simp
      moreover have "is_panic (Inl e :: ClientHello result) \<longleftrightarrow> overlong (?ty, b)"
        using parse_extension_outcome(1) [of ?ty b j1] Inl by simp
      ultimately show ?thesis
        using Inl by (simp add: loop first_bad_def tlvs del: accepted.simps overlong.simps)
    next
      case (Inr j')
      then have "accepted (?ty, b)" using parse_extension_outcome(2) [of ?ty b j1] by simp
      moreover have "ch_Extensions j' = ch_Extensions j @ [?ty]"
        using parse_extension_keeps [OF Inr] by (simp add: j1_def)
      moreover have "length rest < length exs" "length rest < 65536"
        using False "1.prems" unfolding rest_def by (simp_all, linarith)
      ultimately show ?thesis
        using "1.IH" [rule_format, of rest j'] Inr
        by (auto simp: loop first_bad_def tlvs simp del: accepted.simps overlong.simps)
    qed
  qed
qed

lemma parse_record_bound:
  "\<not> is_panic (parse_record segment)"
  "parse_record segment = Inr hs \<Longrightarrow> length hs < 65536"
proof -
  have "unat (be16 (segment ! 3) (segment ! 4)) < 65536"
    using unsigned_less [of "be16 (segment ! 3) (segment ! 4)", where ?'a = nat] by simp
  moreover have "parse_record segment \<in> Inl ` {LengthErr 1, LengthErr 2, VersionErr 1, ContentTypeErr} \<or>
    parse_record segment = Inr (take (unat (be16 (segment ! 3) (segment ! 4))) (drop 5 segment))"
  proof (cases "length segment < 5")
    case False
    then have "segment \<noteq> []" by auto
    then show ?thesis using False by (simp add: parse_record_def guard_def)
  qed (simp add: parse_record_def)
  ultimately show "\<not> is_panic (parse_record segment)" "parse_record segment = Inr hs \<Longrightarrow> length hs < 65536"
    by auto
qed

lemma parse_hello_header_bound:
  "\<not> is_panic (parse_hello_header hs j)"
  "parse_hello_header hs j = Inr (j', cs) \<Longrightarrow> length cs \<le> length hs"
proof -
  have "parse_hello_header hs j \<in> Inl ` {LengthErr 3, LengthErr 4, LengthErr 5, VersionErr 2, HandshakeTypeErr} \<or>
    (\<exists>j'. parse_hello_header hs j = Inr (j', drop (39 + unat (hs ! 38)) hs))"
  proof (cases "length hs < 39")
    case False
    then have "hs \<noteq> []" by auto
    then show ?thesis using False by (simp add: parse_hello_header_def guard_def)
  qed (simp add: parse_hello_header_def)
  then show "\<not> is_panic (parse_hello_header hs j)" "parse_hello_header hs j = Inr (j', cs) \<Longrightarrow> length cs \<le> length hs"
    by auto
qed

lemma even_part: "3 + n \<le> l \<Longrightarrow> 2 * (1 + n div 2) \<le> (l :: nat)"
  by presburger

lemma parse_cipher_suites_bound:
  "\<not> is_panic (parse_cipher_suites cs j)"
  "parse_cipher_suites cs j = Inr (j', exs) \<Longrightarrow> length exs \<le> length cs"
proof -
  have "parse_cipher_suites cs j \<in> Inl ` {LengthErr 6, LengthErr 7, LengthErr 8} \<or>
    (\<exists>j' n. parse_cipher_suites cs j = Inr (j', drop n cs))"
  proof (cases "length cs < 2")
    case False
    show ?thesis
    proof (cases "length cs < 3 + unat (be16 (cs ! 0) (cs ! 1))")
      case fits: False
      then have "\<exists>vs. index_loop cs 1 (unat (be16 (cs ! 0) (cs ! 1)) div 2) = Inr vs"
        by (intro index_loop_ok even_part) simp
      then show ?thesis
        using False fits unfolding parse_cipher_suites_def guard_def
        by (cases "length cs < 2 + unat (be16 (cs ! 0) (cs ! 1)) + 1 + unat (cs ! (2 + unat (be16 (cs ! 0) (cs ! 1))))") auto
    qed (use False in \<open>simp add: parse_cipher_suites_def guard_def\<close>)
  qed (simp add: parse_cipher_suites_def)
  then show "\<not> is_panic (parse_cipher_suites cs j)" "parse_cipher_suites cs j = Inr (j', exs) \<Longrightarrow> length exs \<le> length cs"
    by auto
qed

text \<open>The block of extensions of a message.\<close>

definition hello_extensions :: "byte list \<Rightarrow> byte list" where
  "hello_extensions payload =
     (case bind_result (parse_record payload) (\<lambda>hs. bind_result (parse_hello_header hs ClientHello_zero) (\<lambda>(j, cs). parse_cipher_suites cs j)) of
        Inl e \<Rightarrow> []
      | Inr (j, exs) \<Rightarrow> if length exs < 2 \<or> length exs < 2 + unat (be16 (exs ! 0) (exs ! 1)) then [] else drop 2 exs)"

lemma first_bad_Nil [simp]: "first_bad [] = None"
  by (simp add: first_bad_def tlvs.simps)

lemma parseExtensions_outcome:
  assumes "length exs < 65536"
  shows "\<exists>r. parseExtensions exs j = Some r \<and>
    (is_panic r \<longleftrightarrow> panics_at (first_bad (if length exs < 2 \<or> length exs < 2 + unat (be16 (exs ! 0) (exs ! 1)) then [] else drop 2 exs)))"
proof (cases "length exs < 2 \<or> length exs < 2 + unat (be16 (exs ! 0) (exs ! 1))")
  case True
  then show ?thesis
    by (auto simp: parseExtensions_def)
next
  case False
  then have "parseExtensions exs j = extension_loop (drop 2 exs) j"
    by (auto simp: parseExtensions_def)
  then show ?thesis
    using extension_loop_outcome [of "drop 2 exs" j] assms False by (auto simp: less_imp_diff_less)
qed

lemma Compute_outcome:
  "\<exists>r. Compute payload = Some r \<and> (is_panic r \<longleftrightarrow> panics_at (first_bad (hello_extensions payload)))"
proof (cases "parse_record payload")
  case (Inl e)
  then show ?thesis
    using parse_record_bound(1) [of payload] by (simp add: Compute_def parseSegment_def hello_extensions_def is_panic_def)
next
  case (Inr hs)
  note hs = this parse_record_bound(2) [OF this]
  show ?thesis
  proof (cases "bind_result (parse_hello_header hs ClientHello_zero) (\<lambda>(j, cs). parse_cipher_suites cs j)")
    case (Inl e)
    then have "\<not> is_panic (Inl e :: (ClientHello \<times> byte list) result)"
      using parse_hello_header_bound(1) [of hs ClientHello_zero] parse_cipher_suites_bound(1)
      by (metis is_panic_bind case_prod_beta)
    then show ?thesis
      using hs Inl by (simp add: Compute_def parseSegment_def parseHandshake_def hello_extensions_def is_panic_def)
  next
    case (Inr r)
    then obtain j cs j' exs where "parse_hello_header hs ClientHello_zero = Inr (j, cs)" "parse_cipher_suites cs j = Inr (j', exs)"
      "r = (j', exs)"
      by (cases r) (auto simp: bind_result_Inr_iff)
    moreover from this have "length exs < 65536"
      using parse_hello_header_bound(2) parse_cipher_suites_bound(2) hs(2) by (meson le_less_trans)
    ultimately show ?thesis
      using hs(1) parseExtensions_outcome [of exs j']
      by (simp add: Compute_def parseSegment_def parseHandshake_def hello_extensions_def)
  qed
qed

text \<open>C24: The parser of client hello messages returns on every input, although the position of its loop is a sixteen-bit
  sum. It panics exactly when the first extension it does not accept is a list of versions or of signature algorithms whose
  own length goes beyond the end of the extension: these two lengths are the only ones that are not checked.\<close>

theorem ja3_Compute_panics:
  "\<exists>r. Compute payload = Some r \<and> (is_panic r \<longleftrightarrow> panics_at (first_bad (hello_extensions payload)))"
  by (rule Compute_outcome)

text \<open>A client hello message whose list of versions claims two bytes and has none.\<close>

definition sample_hello :: "byte list" where
  "sample_hello = [0x16, 3, 3, 0, 0x34, 1, 0, 0, 0x30, 3, 3] @ replicate 32 0 @
     [0, 0, 2, 0x13, 1, 1, 0, 0, 5, 0, 0x2b, 0, 1, 2]"

lemma sample_hello_extensions: "hello_extensions sample_hello = [0, 0x2b, 0, 1, 2]"
  by code_simp

lemma sample_hello_bad: "first_bad [0, 0x2b, 0, 1, 2] = Some (versionExtensionType, [2])"
  by code_simp

lemma ja3_Compute_panics_witness: "\<exists>r. Compute sample_hello = Some r \<and> is_panic r"
proof -
  have "overlong (versionExtensionType, [2])" by code_simp
  then show ?thesis
    using ja3_Compute_panics [of sample_hello] by (simp only: sample_hello_extensions sample_hello_bad panics_at_simps) simp
qed

end
