(* ===== verification/Sniff.thy ===== *)
theory Sniff
  imports Ja3 Rule_Action Dns_Client
begin

text \<open>
  Protocol sniffers (\<^verbatim>\<open>src/common/sniff\<close>): what they read of the first bytes of a connection or of a
  packet, and what they write into the metadata; and the two drivers \<^verbatim>\<open>PeekStream\<close> and
  \<^verbatim>\<open>PeekPacket\<close>.

  A sniffer returns its error, if any, and the metadata it was given a pointer to. The TLS server, the HTTP reader and
  the ciphers of QUIC are parameters, in the record \<open>snifflib\<close>; DNS messages are unpacked by \<open>dnslib\<close>.
  A stream sniffer reads the buffers of the connection one after the other (\<^verbatim>\<open>io.MultiReader\<close>).
\<close>

section \<open>Errors and results\<close>

definition ErrNeedMoreData :: err where "ErrNeedMoreData = Err ''need more data''"

definition need_more :: "err \<Rightarrow> err" where
  "need_more e = Cause ''need more data'' e"

text \<open>\<^verbatim>\<open>errors.Is\<close>, for errors that carry no values.\<close>

fun errors_Is :: "err \<Rightarrow> err \<Rightarrow> bool" where
  "errors_Is (Err m) target \<longleftrightarrow> Err m = target"
| "errors_Is (Cause m e) target \<longleftrightarrow> Err m = target \<or> errors_Is e target"
| "errors_Is (Errors es) target \<longleftrightarrow> (\<exists>e\<in>set es. errors_Is e target)"
| "errors_Is (Panic m) target \<longleftrightarrow> False"

definition E_Errors :: "err list \<Rightarrow> err option" where
  "E_Errors es = (case es of [] \<Rightarrow> None | [e] \<Rightarrow> Some e | _ \<Rightarrow> Some (Errors es))"

type_synonym sniffed = "err option \<times> InboundContext"

text \<open>A sniffer that reads to the end or returns early, and then sets some fields.\<close>

definition sniff_result :: "InboundContext \<Rightarrow> InboundContext result \<Rightarrow> sniffed" where
  "sniff_result metadata r = (case r of Inl e \<Rightarrow> (Some e, metadata) | Inr metadata' \<Rightarrow> (None, metadata'))"

definition or_more :: "'a result \<Rightarrow> 'a result" where
  "or_more r = (case r of Inl e \<Rightarrow> Inl (need_more e) | Inr x \<Rightarrow> Inr x)"

definition bytes_string :: "byte list \<Rightarrow> string" where
  "bytes_string bs = map (\<lambda>b. char_of (unat b)) bs"

definition string_bytes :: "string \<Rightarrow> byte list" where
  "string_bytes s = map (\<lambda>c. of_nat (of_char c)) s"

definition be_num :: "nat \<Rightarrow> reader \<Rightarrow> (nat \<times> reader) result" where
  "be_num n r = bind_result (ReadFull n r) (\<lambda>(bs, rest). Inr (be_nat bs, rest))"

section \<open>Stream sniffers\<close>

text \<open>\<^verbatim>\<open>bufio.Reader.ReadLine\<close> with the default buffer of 4096 bytes: a line without its end, or as much
  of it as fits into the buffer.\<close>

definition ReadLine :: "reader \<Rightarrow> byte list result" where
  "ReadLine r =
     (let buffer = take 4096 r
      in if 10 \<in> set buffer then
           (let line = takeWhile (\<lambda>b. b \<noteq> 10) buffer
            in Inr (if line \<noteq> [] \<and> last line = 13 then butlast line else line))
         else if length buffer = 4096 then Inr (if last buffer = 13 then butlast buffer else buffer)
         else if buffer = [] then Inl EOF
         else Inr buffer)"

definition sshPrefix :: "byte list" where
  "sshPrefix = string_bytes ''SSH-2.0-''"

definition sniff_SSH :: "InboundContext \<Rightarrow> byte list list \<Rightarrow> sniffed" where
  "sniff_SSH metadata chunks =
     (let r = concat chunks;
          prefix = take (length sshPrefix) r
      in if prefix \<noteq> take (length prefix) sshPrefix then (Some ErrInvalid, metadata)
         else if length prefix < length sshPrefix then (Some (need_more EOF), metadata)
         else sniff_result metadata (
           bind_result (ReadLine r) (\<lambda>firstLine.
           bind_result (go_slice_from firstLine 8) (\<lambda>client.
           Inr (metadata\<lparr>Protocol := ''ssh'', Client := bytes_string client\<rparr>)))))"

text \<open>One call of \<^verbatim>\<open>Read\<close> on the readers one after the other: it returns what the current reader has.\<close>

fun multi_read :: "nat \<Rightarrow> byte list list \<Rightarrow> byte list result" where
  "multi_read n [] = Inl EOF"
| "multi_read n (chunk # rest) = (if chunk = [] then multi_read n rest else Inr (take n chunk))"

fun skip_first :: "byte list list \<Rightarrow> (byte \<times> byte list list) result" where
  "skip_first [] = Inl EOF"
| "skip_first (chunk # rest) = (case chunk of [] \<Rightarrow> skip_first rest | b # bs \<Rightarrow> Inr (b, bs # rest))"

definition bittorrent_header :: "byte list" where
  "bittorrent_header = string_bytes ''BitTorrent protocol''"

definition sniff_BitTorrent :: "InboundContext \<Rightarrow> byte list list \<Rightarrow> sniffed" where
  "sniff_BitTorrent metadata chunks =
     sniff_result metadata (
     bind_result (or_more (skip_first chunks)) (\<lambda>(first, rest).
       if first \<noteq> 19 then Inl ErrInvalid
       else
         bind_result (or_more (multi_read 19 rest)) (\<lambda>protocol.
           if protocol \<noteq> take (length protocol) bittorrent_header then Inl ErrInvalid
           else if length protocol < 19 then Inl ErrNeedMoreData
           else Inr (metadata\<lparr>Protocol := ''bittorrent''\<rparr>))))"

text \<open>A number of the RDP header that has one value only.\<close>

definition expect :: "nat \<Rightarrow> nat \<Rightarrow> reader \<Rightarrow> reader result" where
  "expect n v r = bind_result (or_more (be_num n r)) (\<lambda>(x, rest). if x \<noteq> v then Inl ErrInvalid else Inr rest)"

definition sniff_RDP :: "InboundContext \<Rightarrow> byte list list \<Rightarrow> sniffed" where
  "sniff_RDP metadata chunks =
     sniff_result metadata (
     bind_result (expect 1 0x03 (concat chunks)) (\<lambda>r.
     bind_result (expect 1 0x00 r) (\<lambda>r.
     bind_result (expect 2 19 r) (\<lambda>r.
     bind_result (expect 1 14 r) (\<lambda>r.
     bind_result (expect 1 0xE0 r) (\<lambda>r.
     bind_result (or_more (Discard 5 r)) (\<lambda>r.
     bind_result (expect 1 0x01 r) (\<lambda>r.
     bind_result (or_more (be_num 1 r)) (\<lambda>(rdpFlags, r).
     bind_result (expect 1 8 r) (\<lambda>r.
     Inr (metadata\<lparr>Protocol := ''rdp''\<rparr>)))))))))))"

record snifflib =
  tls_ServerName :: "byte list \<Rightarrow> string result"
  http_RequestHost :: "byte list \<Rightarrow> string result"
  host_AddrString :: "string \<Rightarrow> string"
  quic_mask :: "u32 \<Rightarrow> byte list \<Rightarrow> byte list \<Rightarrow> byte list"
  quic_open :: "u32 \<Rightarrow> byte list \<Rightarrow> u32 \<Rightarrow> byte list \<Rightarrow> byte list \<Rightarrow> byte list result"

definition more_at_eof :: "err \<Rightarrow> err" where
  "more_at_eof e = (if errors_Is e ErrUnexpectedEOF then need_more e else e)"

definition sniff_TLSClientHello :: "snifflib \<Rightarrow> InboundContext \<Rightarrow> byte list list \<Rightarrow> sniffed" where
  "sniff_TLSClientHello sl metadata chunks =
     (case tls_ServerName sl (concat chunks) of
        Inr serverName \<Rightarrow> (None, metadata\<lparr>Protocol := ''tls'', Domain := serverName\<rparr>)
      | Inl e \<Rightarrow> (Some (more_at_eof e), metadata))"

definition sniff_HTTPHost :: "snifflib \<Rightarrow> InboundContext \<Rightarrow> byte list list \<Rightarrow> sniffed" where
  "sniff_HTTPHost sl metadata chunks =
     (case http_RequestHost sl (concat chunks) of
        Inr host \<Rightarrow> (None, metadata\<lparr>Protocol := ''http'', Domain := host_AddrString sl host\<rparr>)
      | Inl e \<Rightarrow> (Some (more_at_eof e), metadata))"

definition sniff_DomainNameQuery :: "dnslib \<Rightarrow> InboundContext \<Rightarrow> byte list \<Rightarrow> sniffed" where
  "sniff_DomainNameQuery dl metadata packet =
     (case Unpack dl packet of
        Inl e \<Rightarrow> (Some e, metadata)
      | Inr msg \<Rightarrow>
          if msg_Response msg \<or> msg_Question msg = [] \<or> msg_Answer msg \<noteq> [] \<or> msg_Ns msg \<noteq> [] then (None, metadata)
          else (None, metadata\<lparr>Protocol := ''dns''\<rparr>))"

definition sniff_StreamDomainNameQuery :: "dnslib \<Rightarrow> InboundContext \<Rightarrow> byte list list \<Rightarrow> sniffed" where
  "sniff_StreamDomainNameQuery dl metadata chunks =
     (case or_more (be_num 2 (concat chunks)) of
        Inl e \<Rightarrow> (Some e, metadata)
      | Inr (len, r) \<Rightarrow>
          if len < 12 then (Some ErrInvalid, metadata)
          else
            let packet = take len r;
                n = length packet
            in if n > 2 \<and> packet ! 2 AND 0x80 \<noteq> 0 then (Some ErrInvalid, metadata)
               else if n > 5 \<and> packet ! 4 = 0 \<and> packet ! 5 = 0 then (Some ErrInvalid, metadata)
               else if \<exists>i\<in>{6..<10}. n > i \<and> packet ! i \<noteq> 0 then (Some ErrInvalid, metadata)
               else if n < len then (Some (need_more (if n = 0 then EOF else ErrUnexpectedEOF)), metadata)
               else sniff_DomainNameQuery dl metadata packet)"

section \<open>Packet sniffers\<close>

function utp_extensions :: "byte \<Rightarrow> reader \<Rightarrow> unit result" where
  "utp_extensions extension r =
     (if extension = 0 then Inr ()
      else
        (case r of
           next # len # rest \<Rightarrow> if next > 4 then Inl ErrInvalid else utp_extensions next (drop (unat len) rest)
         | [next] \<Rightarrow> if next > 4 then Inl ErrInvalid else Inl EOF
         | [] \<Rightarrow> Inl EOF))"
  by pat_completeness auto
termination by (relation "measure (\<lambda>(_, r). length r)") auto

declare utp_extensions.simps [simp del]

definition sniff_UTP :: "InboundContext \<Rightarrow> byte list \<Rightarrow> sniffed" where
  "sniff_UTP metadata packet =
     (if length packet < 20 then (Some ErrInvalid, metadata)
      else if packet ! 0 AND 0x0F \<noteq> 1 \<or> drop_bit 4 (packet ! 0) > 4 then (Some ErrInvalid, metadata)
      else sniff_result metadata (
        bind_result (utp_extensions (packet ! 1) (drop 20 packet)) (\<lambda>_. Inr (metadata\<lparr>Protocol := ''bittorrent''\<rparr>))))"

definition sniff_UDPTracker :: "InboundContext \<Rightarrow> byte list \<Rightarrow> sniffed" where
  "sniff_UDPTracker metadata packet =
     (if length packet < 16 then (Some ErrInvalid, metadata)
      else if be_nat (take 8 packet) \<noteq> 0x41727101980 then (Some ErrInvalid, metadata)
      else if be_nat (take 4 (drop 8 packet)) \<noteq> 0 then (Some ErrInvalid, metadata)
      else (None, metadata\<lparr>Protocol := ''bittorrent''\<rparr>))"

definition sniff_DTLSRecord :: "InboundContext \<Rightarrow> byte list \<Rightarrow> sniffed" where
  "sniff_DTLSRecord metadata packet =
     (if length packet < 13 then (Some ErrInvalid, metadata)
      else if packet ! 0 \<notin> {20, 21, 22, 23, 25} then (Some ErrInvalid, metadata)
      else if packet ! 1 \<noteq> 0xfe then (Some ErrInvalid, metadata)
      else if packet ! 2 \<noteq> 0xff \<and> packet ! 2 \<noteq> 0xfd then (Some ErrInvalid, metadata)
      else (None, metadata\<lparr>Protocol := ''dtls''\<rparr>))"

text \<open>The quotient of a 32-bit number by \<open>65536.0\<close> is above 16 exactly when the number is above \<open>16 * 65536\<close>.\<close>

definition sniff_NTP :: "InboundContext \<Rightarrow> byte list \<Rightarrow> sniffed" where
  "sniff_NTP metadata packet =
     (if length packet < 48 then (Some ErrInvalid, metadata)
      else
        let firstByte = packet ! 0;
            li = drop_bit 6 firstByte AND 0x03;
            vn = drop_bit 3 firstByte AND 0x07;
            mode = firstByte AND 0x07;
            rootDelay = be_nat (take 4 (drop 4 packet));
            rootDispersion = be_nat (take 4 (drop 8 packet))
        in if li > 3 then (Some ErrInvalid, metadata)
           else if vn \<noteq> 3 \<and> vn \<noteq> 4 then (Some ErrInvalid, metadata)
           else if mode \<noteq> 3 then (Some ErrInvalid, metadata)
           else if rootDelay > 16 * 65536 then (Some ErrInvalid, metadata)
           else if rootDispersion > 16 * 65536 then (Some ErrInvalid, metadata)
           else (None, metadata\<lparr>Protocol := ''ntp''\<rparr>))"

definition sniff_STUNMessage :: "InboundContext \<Rightarrow> byte list \<Rightarrow> sniffed" where
  "sniff_STUNMessage metadata packet =
     (if length packet < 20 then (Some ErrInvalid, metadata)
      else if be_nat (take 4 (drop 4 packet)) \<noteq> 0x2112A442 then (Some ErrInvalid, metadata)
      else if length packet < 20 + be_nat (take 2 (drop 2 packet)) then (Some ErrInvalid, metadata)
      else (None, metadata\<lparr>Protocol := ''stun''\<rparr>))"

end
