(* ===== verification/Quic.thy ===== *)
theory Quic
  imports Sniff
begin

text \<open>
  The QUIC sniffer (\<^verbatim>\<open>src/common/sniff/quic.go\<close>, \<^verbatim>\<open>quic_blacklist.go\<close> and
  \<^verbatim>\<open>internal/qtls/qtls.go\<close>): it removes the protection of an initial packet, collects the pieces of the
  handshake and parses them as a TLS record.

  The keys of initial packets follow from the packet alone, so that every client can send what it wants here. The key
  derivation and the ciphers are the parameters \<open>quic_mask\<close> and \<open>quic_open\<close>. The loop that puts the
  pieces together has no bound in the code and is a partial function.
\<close>

section \<open>Variable-length numbers\<close>

fun read_bytes :: "nat \<Rightarrow> reader \<Rightarrow> (byte list \<times> reader) result" where
  "read_bytes 0 r = Inr ([], r)"
| "read_bytes (Suc n) r =
     bind_result (ReadByte r) (\<lambda>(b, r). bind_result (read_bytes n r) (\<lambda>(bs, r). Inr (b # bs, r)))"

text \<open>The first two bits say how many bytes there are: one, two, four or eight.\<close>

definition ReadUvarint :: "reader \<Rightarrow> (u64 \<times> reader) result" where
  "ReadUvarint r =
     bind_result (ReadByte r) (\<lambda>(firstByte, r).
     bind_result (read_bytes (2 ^ unat (drop_bit 6 (firstByte AND 0xc0)) - 1) r) (\<lambda>(bs, r).
     Inr (of_nat (be_nat ((firstByte AND (0xff - 0xc0)) # bs)), r)))"

section \<open>The header and its protection\<close>

definition VersionDraft29 :: u32 where "VersionDraft29 = 0xff00001d"
definition Version1 :: u32 where "Version1 = 0x1"
definition Version2 :: u32 where "Version2 = 0x6b3343cf"

record quic_packet =
  qp_Version :: u32
  qp_DestConnID :: "byte list"
  qp_HdrLen :: nat
  qp_PacketLen :: nat
  qp_Sample :: "byte list"

definition quic_header :: "byte list \<Rightarrow> quic_packet result" where
  "quic_header packet =
     bind_result (ReadByte packet) (\<lambda>(typeByte, r).
     if typeByte AND 0x40 = 0 then Inl (Err ''bad type byte'')
     else bind_result (ReadFull 4 r) (\<lambda>(version, r).
     let versionNumber = of_nat (be_nat version); packetType = drop_bit 4 (typeByte AND 0x30)
     in if versionNumber \<noteq> VersionDraft29 \<and> versionNumber \<noteq> Version1 \<and> versionNumber \<noteq> Version2 then Inl (Err ''bad version'')
     else if packetType = 0 \<and> versionNumber = Version2 \<or> packetType = 2 \<and> versionNumber \<noteq> Version2 \<or> packetType > 2
     then Inl (Err ''bad packet type'')
     else bind_result (ReadByte r) (\<lambda>(destConnIDLen, r).
     if destConnIDLen = 0 \<or> destConnIDLen > 20 then Inl (Err ''bad destination connection id length'')
     else bind_result (ReadFull (unat destConnIDLen) r) (\<lambda>(destConnID, r).
     bind_result (ReadByte r) (\<lambda>(srcConnIDLen, r).
     bind_result (Discard (unat srcConnIDLen) r) (\<lambda>r.
     bind_result (ReadUvarint r) (\<lambda>(tokenLen, r).
     bind_result (Discard (unat tokenLen) r) (\<lambda>r.
     bind_result (ReadUvarint r) (\<lambda>(packetLen, r).
     let hdrLen = length packet - length r
     in if hdrLen + unat packetLen > length packet then Inl ErrInvalid
     else bind_result (Discard 4 r) (\<lambda>r.
     bind_result (ReadFull 16 r) (\<lambda>(pnBytes, r).
     Inr \<lparr>qp_Version = versionNumber, qp_DestConnID = destConnID, qp_HdrLen = hdrLen, qp_PacketLen = unat packetLen,
       qp_Sample = pnBytes\<rparr>)))))))))))"

text \<open>The first byte and the four bytes after the header are masked; the bytes behind the packet number are put back.
  The decrypted data is written over the packet: what follows it in the same array is the second component.\<close>

definition quic_unprotect :: "snifflib \<Rightarrow> byte list \<Rightarrow> (byte list \<times> byte list) result" where
  "quic_unprotect sl packet =
     bind_result (quic_header packet) (\<lambda>q.
     let hdrLen = qp_HdrLen q; mask = quic_mask sl (qp_Version q) (qp_DestConnID q) (qp_Sample q)
     in bind_result (go_index packet 0) (\<lambda>first.
     bind_result (go_slice mask 0 5) (\<lambda>mask.
     bind_result (go_slice packet hdrLen (hdrLen + 4)) (\<lambda>protected.
     let first' = first XOR (mask ! 0 AND 0xf);
         numberLength = unat (first' AND 0x3) + 1;
         extHdrLen = hdrLen + numberLength;
         number = take numberLength (map2 (XOR) protected (drop 1 mask));
         newPacket = (take hdrLen packet)[0 := first'] @ number @ drop extHdrLen packet
     in if extHdrLen > qp_PacketLen q + hdrLen then Inl ErrInvalid
     else bind_result (go_slice newPacket extHdrLen (qp_PacketLen q + hdrLen)) (\<lambda>data.
     bind_result (quic_open sl (qp_Version q) (qp_DestConnID q) (of_nat (be_nat number)) data (take extHdrLen newPacket)) (\<lambda>decrypted.
     Inr (decrypted, drop (extHdrLen + length decrypted) newPacket)))))))"

section \<open>Frames\<close>

fun skip_uvarints :: "nat \<Rightarrow> reader \<Rightarrow> reader result" where
  "skip_uvarints 0 r = Inr r"
| "skip_uvarints (Suc n) r = bind_result (ReadUvarint r) (\<lambda>(_, r). skip_uvarints n r)"

definition ack_frame :: "byte \<Rightarrow> reader \<Rightarrow> reader result" where
  "ack_frame frameType r =
     bind_result (skip_uvarints 2 r) (\<lambda>r.
     bind_result (ReadUvarint r) (\<lambda>(ackRangeCount, r).
     bind_result (skip_uvarints 1 r) (\<lambda>r.
     bind_result (skip_uvarints (2 * unat ackRangeCount) r) (\<lambda>r.
     if frameType = 0x03 then skip_uvarints 3 r else Inr r))))"

text \<open>The piece of a crypto frame is a slice of the decrypted data up to the capacity of its array.\<close>

definition crypto_frame :: "byte list \<Rightarrow> byte list \<Rightarrow> reader \<Rightarrow> (qCryptoFragment \<times> reader) result" where
  "crypto_frame decrypted behind r =
     bind_result (ReadUvarint r) (\<lambda>(offset, r).
     bind_result (ReadUvarint r) (\<lambda>(len, r).
     let index = length decrypted - length r
     in bind_result (go_slice (decrypted @ behind) index (index + unat len)) (\<lambda>payload.
     Inr (\<lparr>frag_offset = offset, frag_length = len, frag_payload = payload\<rparr>, drop (unat len) r))))"

definition close_frame :: "reader \<Rightarrow> reader result" where
  "close_frame r =
     bind_result (skip_uvarints 2 r) (\<lambda>r. bind_result (ReadUvarint r) (\<lambda>(len, r). Inr (drop (unat len) r)))"

definition quic_frame ::
    "byte list \<Rightarrow> byte list \<Rightarrow> byte \<Rightarrow> reader \<Rightarrow> (qCryptoFragment list \<times> reader) result" where
  "quic_frame decrypted behind frameType r =
     (if frameType = 0x00 \<or> frameType = 0x01 then Inr ([], r)
      else if frameType = 0x02 \<or> frameType = 0x03 then bind_result (ack_frame frameType r) (\<lambda>r. Inr ([], r))
      else if frameType = 0x06 then bind_result (crypto_frame decrypted behind r) (\<lambda>(fragment, r). Inr ([fragment], r))
      else if frameType = 0x1c then bind_result (close_frame r) (\<lambda>r. Inr ([], r))
      else Inl ErrInvalid)"

lemma bind_result_cong [fundef_cong]:
  "r = r' \<Longrightarrow> (\<And>x. r' = Inr x \<Longrightarrow> f x = f' x) \<Longrightarrow> bind_result r f = bind_result r' f'"
  by (cases r') simp_all

lemma read_bytes_length: "read_bytes n r = Inr (bs, r') \<Longrightarrow> r = bs @ r' \<and> length bs = n"
proof (induction n arbitrary: r bs)
  case (Suc n)
  then show ?case by (cases r) (auto simp: bind_result_Inr_iff)
qed simp

lemma ReadUvarint_length: "ReadUvarint r = Inr (v, r') \<Longrightarrow> length r' < length r"
  by (cases r) (auto simp: ReadUvarint_def bind_result_Inr_iff dest: read_bytes_length)

lemma skip_uvarints_length: "skip_uvarints n r = Inr r' \<Longrightarrow> length r' \<le> length r"
proof (induction n arbitrary: r)
  case (Suc n)
  then obtain v r1 where "ReadUvarint r = Inr (v, r1)" "skip_uvarints n r1 = Inr r'"
    by (auto simp: bind_result_Inr_iff)
  then show ?case using Suc.IH ReadUvarint_length by fastforce
qed simp

lemma quic_frame_length:
  assumes "quic_frame decrypted behind frameType r = Inr (fs, r')"
  shows "length r' \<le> length r"
proof -
  have "length r' \<le> length r" if "ack_frame frameType r = Inr r'"
    using that by (auto simp: ack_frame_def bind_result_Inr_iff simp del: skip_uvarints.simps split: if_splits
        dest!: skip_uvarints_length ReadUvarint_length)
  moreover have "length r' \<le> length r" if "close_frame r = Inr r'"
    using that unfolding close_frame_def bind_result_Inr_iff by (auto dest!: skip_uvarints_length ReadUvarint_length)
  moreover have "length r' \<le> length r" if "crypto_frame decrypted behind r = Inr (f, r')" for f
    using that by (auto simp: crypto_frame_def bind_result_Inr_iff Let_def dest!: ReadUvarint_length)
  ultimately show ?thesis
    using assms by (auto simp: quic_frame_def bind_result_Inr_iff split: if_splits)
qed

function quic_frames ::
    "byte list \<Rightarrow> byte list \<Rightarrow> reader \<Rightarrow> (byte list \<times> qCryptoFragment list) result" where
  "quic_frames decrypted behind r =
     (case r of
        [] \<Rightarrow> Inr ([], [])
      | frameType # r \<Rightarrow>
          bind_result (quic_frame decrypted behind frameType r) (\<lambda>p.
          bind_result (quic_frames decrypted behind (snd p)) (\<lambda>(types, fragments).
          Inr (frameType # types, fst p @ fragments))))"
  by pat_completeness auto
termination
  by (relation "measure (\<lambda>(_, _, r). length r)") (auto dest: quic_frame_length)

declare quic_frames.simps [simp del]

section \<open>Putting the pieces together\<close>

text \<open>The buffer the pieces are written to has room for all of them.\<close>

partial_function (option) quic_assemble :: "qCryptoFragment list \<Rightarrow> u64 \<Rightarrow> byte list \<Rightarrow> byte list option" where
  "quic_assemble fragments index buffer =
     (case find (\<lambda>fragment. frag_offset fragment = index) fragments of
        Some fragment \<Rightarrow>
          quic_assemble fragments (frag_offset fragment + frag_length fragment) (buffer @ frag_payload fragment)
      | None \<Rightarrow> Some buffer)"

definition u16_bytes :: "u16 \<Rightarrow> byte list" where
  "u16_bytes x = [ucast (drop_bit 8 x), ucast x]"

definition quic_hello :: "qCryptoFragment list \<Rightarrow> byte list option" where
  "quic_hello fragments =
     map_option (\<lambda>pieces. [0x16, 0x03, 0x03] @ u16_bytes (ucast (sum_list (map frag_length fragments))) @ pieces)
       (quic_assemble fragments 0 [])"

section \<open>The client\<close>

definition isZero :: "byte list \<Rightarrow> bool" where
  "isZero slices \<longleftrightarrow> (\<forall>slice\<in>set slices. slice = 0)"

definition isQUICGo :: "ClientHello \<Rightarrow> bool" where
  "isQUICGo fingerprint \<longleftrightarrow> 0x11EC \<in> set (ch_EllipticCurves fingerprint) \<or> 0xFF01 \<in> set (ch_Extensions fingerprint)"

definition GreaseBitmask :: u16 where "GreaseBitmask = 0x0F0F"

definition isSafari :: "ClientHello \<Rightarrow> bool" where
  "isSafari fingerprint \<longleftrightarrow>
     length (ch_Versions fingerprint) = 2 \<and> ch_Versions fingerprint ! 0 AND GreaseBitmask = 0x0A0A \<and>
     length (ch_EllipticCurves fingerprint) = 5 \<and> ch_EllipticCurves fingerprint ! 0 AND GreaseBitmask = 0x0A0A \<or>
     ch_CipherSuites fingerprint = [0x1302] \<and> ch_EllipticCurves fingerprint = [0x001d] \<and>
     ch_SignatureAlgorithms fingerprint = [0x0403]"

definition quic_client :: "ClientHello \<Rightarrow> byte list \<Rightarrow> string result" where
  "quic_client fingerprint frameTypeList =
     (if length frameTypeList = 1 then Inr ''firefox''
      else
        bind_result (go_index frameTypeList 0) (\<lambda>firstType.
        bind_result (go_index frameTypeList (length frameTypeList - 1)) (\<lambda>lastType.
        if firstType = 0x06 \<and> isZero (drop 1 frameTypeList) \<and> isSafari fingerprint then Inr ''safari''
        else if lastType = 0x06 \<and> isZero (butlast frameTypeList) then Inr ''quic-go''
        else if count_list frameTypeList 0x06 > 1 \<or> count_list frameTypeList 0x01 > 0 then
          Inr (if isQUICGo fingerprint then ''quic-go'' else ''chromium'')
        else Inr ''unknown'')))"

section \<open>The sniffer\<close>

text \<open>What happens once the frames are known. A panic in the parser is one of the sniffer.\<close>

definition quic_finish :: "InboundContext \<Rightarrow> byte list \<Rightarrow> qCryptoFragment list \<Rightarrow> sniffed option" where
  "quic_finish metadata frameTypeList fragments =
     Option.bind (quic_hello fragments) (\<lambda>buffer.
     Option.bind (Compute buffer) (\<lambda>computed.
     let metadata' = metadata\<lparr>Protocol := ''quic''\<rparr>
     in case computed of
          Inl (Panic m) \<Rightarrow> Some (Some (Panic m), metadata')
        | Inl e \<Rightarrow> Some (Some (need_more e), metadata'\<lparr>SniffContext := Some fragments\<rparr>)
        | Inr fingerprint \<Rightarrow>
            let metadata'' = metadata'\<lparr>Domain := bytes_string (ch_ServerName fingerprint)\<rparr>
            in Some (if Client metadata'' \<noteq> [] then (None, metadata'')
               else
                 (case quic_client fingerprint frameTypeList of
                    Inl e \<Rightarrow> (Some e, metadata'')
                  | Inr client \<Rightarrow> (None, metadata''\<lparr>Client := client\<rparr>)))))"

definition sniff_QUICClientHello :: "snifflib \<Rightarrow> InboundContext \<Rightarrow> byte list \<Rightarrow> sniffed option" where
  "sniff_QUICClientHello sl metadata packet =
     (case bind_result (quic_unprotect sl packet) (\<lambda>(decrypted, behind). quic_frames decrypted behind decrypted) of
        Inl e \<Rightarrow> Some (Some e, metadata)
      | Inr (frameTypeList, fragments) \<Rightarrow>
          quic_finish (metadata\<lparr>SniffContext := None\<rparr>) frameTypeList
            (fragments @ (case SniffContext metadata of None \<Rightarrow> [] | Some earlier \<Rightarrow> earlier)))"

section \<open>The header stays inside the packet\<close>

lemma no_panic_bind: "\<not> is_panic r \<Longrightarrow> (\<And>x. r = Inr x \<Longrightarrow> \<not> is_panic (f x)) \<Longrightarrow> \<not> is_panic (bind_result r f)"
  by (simp add: is_panic_bind)

lemma no_panic_if: "(c \<Longrightarrow> \<not> is_panic x) \<Longrightarrow> (\<not> c \<Longrightarrow> \<not> is_panic y) \<Longrightarrow> \<not> is_panic (if c then x else y)"
  by simp

lemma no_panic_split: "(\<And>a b. p = (a, b) \<Longrightarrow> \<not> is_panic (f a b)) \<Longrightarrow> \<not> is_panic (case p of (a, b) \<Rightarrow> f a b)"
  by (cases p) simp

lemmas no_panic = no_panic_bind no_panic_if no_panic_split

lemma bind_InrE: "bind_result r f = Inr y \<Longrightarrow> (\<And>x. r = Inr x \<Longrightarrow> f x = Inr y \<Longrightarrow> P) \<Longrightarrow> P"
  by (auto simp: bind_result_Inr_iff)

lemma if_InrE: "(if c then Inl e else r) = Inr y \<Longrightarrow> (\<not> c \<Longrightarrow> r = Inr y \<Longrightarrow> P) \<Longrightarrow> P"
  by (simp split: if_splits)

lemma split_InrE: "(case p of (a, b) \<Rightarrow> f a b) = Inr y \<Longrightarrow> (\<And>a b. p = (a, b) \<Longrightarrow> f a b = Inr y \<Longrightarrow> P) \<Longrightarrow> P"
  by (cases p) simp

lemmas result_elims = bind_InrE if_InrE split_InrE

lemma read_bytes_no_panic [simp]: "\<not> is_panic (read_bytes n r)"
  by (induction n arbitrary: r) (simp_all add: is_panic_bind split_beta)

lemma ReadUvarint_no_panic [simp]: "\<not> is_panic (ReadUvarint r)"
  by (simp add: ReadUvarint_def is_panic_bind split_beta)

lemma skip_uvarints_no_panic [simp]: "\<not> is_panic (skip_uvarints n r)"
  by (induction n arbitrary: r) (simp_all add: is_panic_bind split_beta)

lemma quic_header_no_panic: "\<not> is_panic (quic_header packet)"
  unfolding quic_header_def Let_def by (intro no_panic; simp)

lemma quic_header_bounds:
  "quic_header packet = Inr q \<Longrightarrow>
     0 < qp_HdrLen q \<and> qp_HdrLen q + 20 \<le> length packet \<and> qp_HdrLen q + qp_PacketLen q \<le> length packet"
  unfolding quic_header_def Let_def 
  by (elim result_elims, hypsubst, (drule reader_length ReadUvarint_length)+, drule Inr_inject, hypsubst, simp)

lemma number_length: "unat (b AND 3 :: byte) \<le> 3"
proof -
  have "uint (b AND 3) = uint b AND 3" by (simp add: unsigned_and_eq)
  then have "b AND 3 \<le> 3" unfolding word_le_def by simp
  then show ?thesis by (simp add: word_le_nat_alt)
qed

lemma access_panic:
  "is_panic (go_index xs i) \<longleftrightarrow> length xs \<le> i"
  "is_panic (go_slice xs i j) \<longleftrightarrow> \<not> (i \<le> j \<and> j \<le> length xs)"
  by (simp_all add: go_index_def go_slice_def)

lemma access_Inr: "go_slice xs i j = Inr ys \<Longrightarrow> i \<le> j \<and> j \<le> length xs \<and> ys = take (j - i) (drop i xs)"
  by (simp add: go_slice_def split: if_splits)

text \<open>C27: Removing the protection of a packet never reads or writes outside of it, whatever the packet is: the lengths it
  claims are checked before they are used.\<close>

theorem quic_unprotect_safe:
  assumes mask: "\<And>v d x. length (quic_mask sl v d x) = 16"
    and "open": "\<And>v d n x h. \<not> is_panic (quic_open sl v d n x h)"
  shows "\<not> is_panic (quic_unprotect sl packet)"
  unfolding quic_unprotect_def Let_def
proof (intro no_panic quic_header_no_panic "open", goal_cases)
  case (1 q)
  then show ?case using quic_header_bounds [OF 1] by (auto simp: access_panic)
next
  case (2 q first)
  then show ?case by (simp add: access_panic mask)
next
  case (3 q first m)
  then show ?case using quic_header_bounds [OF 3(1)] by (simp add: access_panic)
next
  case (4 q first m protected)
  then show ?case by simp
next
  case (5 q first m protected)
  then show ?case
    using quic_header_bounds [OF 5(1)] number_length [of "first XOR (m ! 0 AND 15)"]
    by (auto simp: access_panic dest!: access_Inr)
qed simp

section \<open>A crypto frame that is longer than the packet\<close>

lemma crypto_frame_overrun:
  assumes "ReadUvarint r = Inr (offset, r1)" "ReadUvarint r1 = Inr (len, r2)" "length r \<le> length decrypted"
    and "length r2 + length behind < unat len"
  shows "crypto_frame decrypted behind r = Inl slice_panic"
  using assms ReadUvarint_length [OF assms(1)] ReadUvarint_length [OF assms(2)]
  by (simp add: crypto_frame_def go_slice_def Let_def)

lemma quic_frames_padding:
  "set pre \<subseteq> {0, 1} \<Longrightarrow> quic_frames decrypted behind r = Inl e \<Longrightarrow> quic_frames decrypted behind (pre @ r) = Inl e"
proof (induction pre)
  case (Cons b pre)
  then show ?case
    by (subst quic_frames.simps) (auto simp: quic_frame_def)
qed simp

text \<open>C26: The length of a crypto frame is not checked against the packet: a packet with such a frame, after any padding, that
  claims more bytes than are left in the array makes the sniffer panic.\<close>

theorem quic_crypto_overrun:
  assumes "quic_unprotect sl packet = Inr (pre @ 0x06 # r, behind)" "set pre \<subseteq> {0, 1}"
    and "ReadUvarint r = Inr (offset, r1)" "ReadUvarint r1 = Inr (len, r2)"
    and "length r2 + length behind < unat len"
  shows "\<exists>m. sniff_QUICClientHello sl metadata packet = Some (Some (Panic m), metadata)"
proof -
  have "quic_frames (pre @ 0x06 # r) behind (0x06 # r) = Inl slice_panic"
    using assms by (subst quic_frames.simps) (simp add: quic_frame_def crypto_frame_overrun)
  then have "quic_frames (pre @ 0x06 # r) behind (pre @ 0x06 # r) = Inl slice_panic"
    by (rule quic_frames_padding [OF assms(2)])
  then show ?thesis
    using assms(1) by (simp add: sniff_QUICClientHello_def slice_panic_def)
qed

section \<open>The pieces that are put together\<close>

abbreviation piece_at :: "qCryptoFragment list \<Rightarrow> u64 \<Rightarrow> qCryptoFragment option" where
  "piece_at fragments i \<equiv> find (\<lambda>fragment. frag_offset fragment = i) fragments"

inductive reached :: "qCryptoFragment list \<Rightarrow> u64 \<Rightarrow> bool" for fragments where
  reached_start: "reached fragments 0"
| reached_next: "reached fragments i \<Longrightarrow> piece_at fragments i = Some f \<Longrightarrow> reached fragments (i + frag_length f)"

lemma piece_at_Some: "piece_at fragments i = Some f \<Longrightarrow> f \<in> set fragments \<and> frag_offset f = i"
  by (auto simp: find_Some_iff)

lemma quic_assemble_step:
  "piece_at fragments i = Some f \<Longrightarrow>
     quic_assemble fragments i buffer = quic_assemble fragments (i + frag_length f) (buffer @ frag_payload f)"
  by (subst quic_assemble.simps) (auto dest: piece_at_Some)

lemma quic_assemble_reached: "reached fragments i \<Longrightarrow> \<exists>b'. quic_assemble fragments 0 b = quic_assemble fragments i b'"
proof (induction rule: reached.induct)
  case (reached_next i f)
  then show ?case using quic_assemble_step by metis
qed blast

lemma quic_assemble_stuck:
  assumes "quic_assemble fragments i buffer = Some y"
  shows "piece_at fragments i = Some f \<Longrightarrow> frag_length f \<noteq> 0"
proof (induction rule: quic_assemble.raw_induct [OF _ assms])
  case (1 assemble fragments i buffer y)
  then show ?case using piece_at_Some [OF 1(3)] by (auto dest: 1(1))
qed

lemma quic_assemble_returns:
  assumes small: "\<And>f. f \<in> set fragments \<Longrightarrow> unat (frag_offset f) < 2 ^ 62 \<and> unat (frag_length f) < 2 ^ 62"
    and moves: "\<And>i f. reached fragments i \<Longrightarrow> piece_at fragments i = Some f \<Longrightarrow> frag_length f \<noteq> 0"
  shows "reached fragments i \<Longrightarrow> \<exists>y. quic_assemble fragments i buffer = Some y"
proof (induction "length (filter (\<lambda>f. unat i \<le> unat (frag_offset f)) fragments)" arbitrary: i buffer rule: less_induct)
  case less
  show ?case
  proof (cases "piece_at fragments i")
    case None
    then show ?thesis by (subst quic_assemble.simps) simp
  next
    case (Some f)
    let ?j = "i + frag_length f"
    have f: "f \<in> set fragments" "frag_offset f = i" "frag_length f \<noteq> 0"
      using piece_at_Some [OF Some] moves [OF less.prems Some] by auto
    then have "unat i < 2 ^ 62" "unat (frag_length f) < 2 ^ 62" "0 < unat (frag_length f)"
      using small [OF f(1)] by (auto simp: unat_gt_0)
    moreover from this have "unat ?j = unat i + unat (frag_length f)"
      by (subst unat_add_lem [THEN iffD1]) simp_all
    ultimately have j: "unat i < unat ?j" by simp
    have "filter (\<lambda>f. unat ?j \<le> unat (frag_offset f)) fragments =
      filter (\<lambda>f. unat ?j \<le> unat (frag_offset f)) (filter (\<lambda>f. unat i \<le> unat (frag_offset f)) fragments)"
      using j by (auto intro: filter_cong)
    then have "length (filter (\<lambda>f. unat ?j \<le> unat (frag_offset f)) fragments) <
      length (filter (\<lambda>f. unat i \<le> unat (frag_offset f)) fragments)"
      using j f by (metis (mono_tags, lifting) length_filter_less mem_Collect_eq not_le order_refl set_filter)
    then have "\<exists>y. quic_assemble fragments ?j (buffer @ frag_payload f) = Some y"
      using less.hyps reached_next [OF less.prems Some] by blast
    then show ?thesis
      using quic_assemble_step [OF Some] by simp
  qed
qed

lemma quic_hello_None:
  assumes "\<And>f. f \<in> set fragments \<Longrightarrow> unat (frag_offset f) < 2 ^ 62 \<and> unat (frag_length f) < 2 ^ 62"
  shows "quic_hello fragments = None \<longleftrightarrow> (\<exists>i f. reached fragments i \<and> piece_at fragments i = Some f \<and> frag_length f = 0)"
proof
  assume "quic_hello fragments = None"
  then have "quic_assemble fragments 0 [] = None" by (simp add: quic_hello_def)
  then show "\<exists>i f. reached fragments i \<and> piece_at fragments i = Some f \<and> frag_length f = 0"
    using quic_assemble_returns [OF assms, of fragments 0 "[]"] reached_start by fastforce
next
  assume "\<exists>i f. reached fragments i \<and> piece_at fragments i = Some f \<and> frag_length f = 0"
  then obtain i f where i: "reached fragments i" "piece_at fragments i = Some f" "frag_length f = 0" by blast
  then obtain b where "quic_assemble fragments 0 [] = quic_assemble fragments i b"
    using quic_assemble_reached by blast
  then show "quic_hello fragments = None"
    using quic_assemble_stuck [of fragments i b _ f] i by (cases "quic_assemble fragments i b") (auto simp: quic_hello_def)
qed

text \<open>A number that was read has at most 62 bits.\<close>

lemma unat_of_small: "n < 2 ^ 62 \<Longrightarrow> unat (of_nat n :: u64) < 2 ^ 62"
  by (simp add: unat_of_nat)

lemma ReadUvarint_bound:
  assumes "ReadUvarint r = Inr (v, r')"
  shows "unat v < 2 ^ 62"
proof -
  obtain b bs where v: "v = of_nat (be_nat ((b AND (0xff - 0xc0)) # bs))" and bs: "length bs = 2 ^ unat (drop_bit 6 (b AND 0xc0)) - 1"
    using assms by (auto simp: ReadUvarint_def bind_result_Inr_iff dest: read_bytes_length)
  have "uint (b AND 0x3f) = uint b AND 0x3f" by (simp add: unsigned_and_eq)
  then have "b AND 0x3f \<le> 0x3f" unfolding word_le_def by simp
  then have low: "unat (b AND 0x3f) \<le> 63" by (simp add: word_le_nat_alt)
  have "unat (drop_bit 6 (b AND 0xc0)) \<le> 3"
    using number_length [of "drop_bit 6 b"] by simp
  then have seven: "length bs \<le> 7"
    using bs power_increasing [of "unat (drop_bit 6 (b AND 0xc0))" 3 "2 :: nat"] by simp
  have "be_nat ((b AND 0x3f) # bs) < 64 * 256 ^ length bs"
    using be_nat_less [of bs] mult_le_mono1 [OF low, of "256 ^ length bs"] unfolding be_nat.simps by linarith
  also have "\<dots> \<le> 64 * 256 ^ 7"
    using power_increasing [OF seven, of "256 :: nat"] by simp
  finally have "be_nat ((b AND 0x3f) # bs) < 2 ^ 62" by simp
  then have "be_nat ((b AND (0xff - 0xc0)) # bs) < 2 ^ 62" by simp
  then show ?thesis
    unfolding v by (rule unat_of_small)
qed

lemma quic_frames_small:
  assumes "quic_frames decrypted behind r = Inr (types, fragments)" "f \<in> set fragments"
  shows "unat (frag_offset f) < 2 ^ 62 \<and> unat (frag_length f) < 2 ^ 62"
  using assms
proof (induction decrypted behind r arbitrary: types fragments rule: quic_frames.induct)
  case (1 decrypted behind r)
  show ?case
  proof (cases r)
    case Nil
    then show ?thesis using "1.prems" by (simp add: quic_frames.simps)
  next
    case (Cons frameType r1)
    then obtain fs r2 types' fragments' where frame: "quic_frame decrypted behind frameType r1 = Inr (fs, r2)"
      and rest: "quic_frames decrypted behind r2 = Inr (types', fragments')" "fragments = fs @ fragments'"
      using "1.prems"(1) by (subst (asm) quic_frames.simps) (auto simp: bind_result_Inr_iff)
    have "unat (frag_offset f) < 2 ^ 62 \<and> unat (frag_length f) < 2 ^ 62" if "f \<in> set fs"
      using frame that by (auto simp: quic_frame_def crypto_frame_def Let_def bind_result_Inr_iff split: if_splits
          dest!: ReadUvarint_bound)
    then show ?thesis
      using "1.IH" [OF Cons frame] rest "1.prems"(2) by auto
  qed
qed

lemma quic_finish_None: "quic_finish metadata types fragments = None \<longleftrightarrow> quic_hello fragments = None"
proof (cases "quic_hello fragments")
  case (Some buffer)
  then obtain r where "Compute buffer = Some r" using Compute_outcome by blast
  then have "quic_finish metadata types fragments \<noteq> None"
    unfolding quic_finish_def Let_def Some by (cases r; cases "projl r"; simp)
  then show ?thesis using Some by simp
qed (simp add: quic_finish_def)

text \<open>C25: The sniffer runs forever on a packet exactly when, going from piece to piece of the handshake, it comes to a piece
  of length zero: a crypto frame without data is enough.\<close>

theorem quic_sniff_hangs:
  assumes "quic_unprotect sl packet = Inr (decrypted, behind)" "quic_frames decrypted behind decrypted = Inr (types, fragments)"
    and "SniffContext metadata = None"
  shows "sniff_QUICClientHello sl metadata packet = None \<longleftrightarrow>
    (\<exists>i f. reached fragments i \<and> piece_at fragments i = Some f \<and> frag_length f = 0)"
proof -
  have "sniff_QUICClientHello sl metadata packet = None \<longleftrightarrow> quic_hello fragments = None"
    using assms by (simp add: sniff_QUICClientHello_def quic_finish_None)
  then show ?thesis
    using quic_hello_None [OF quic_frames_small [OF assms(2)]] by simp
qed

section \<open>Packets for evaluation\<close>

text \<open>A library whose masks are zero and whose cipher only cuts off the sixteen bytes of the tag, and two initial packets: one
  with an empty crypto frame, one with a crypto frame that claims 64 bytes.\<close>

definition sample_snifflib :: snifflib where
  "sample_snifflib = \<lparr>tls_ServerName = (\<lambda>_. Inl ErrUnexpectedEOF), http_RequestHost = (\<lambda>_. Inl ErrUnexpectedEOF), host_AddrString = id,
     quic_mask = (\<lambda>_ _ _. replicate 16 0), quic_open = (\<lambda>_ _ _ x _. Inr (take (length x - 16) x))\<rparr>"

definition sample_initial :: "byte list \<Rightarrow> byte list" where
  "sample_initial frames = [0xC0, 0, 0, 0, 1, 1, 7, 0, 0, of_nat (length frames + 17), 0] @ frames @ replicate 16 0"

lemmas sample_packet_simps = sample_initial_def sample_snifflib_def quic_unprotect_def quic_header_def ReadFull_def Discard_def
  ReadUvarint_def VersionDraft29_def Version1_def Version2_def Let_def

lemma sample_empty_frame:
  "quic_unprotect sample_snifflib (sample_initial [6, 0, 0]) = Inr ([6, 0, 0], replicate 16 0)"
  "quic_frames [6, 0, 0] (replicate 16 0) [6, 0, 0] = Inr ([6], [\<lparr>frag_offset = 0, frag_length = 0, frag_payload = []\<rparr>])"
  by (simp add: sample_packet_simps) code_simp

lemma sample_long_frame:
  "quic_unprotect sample_snifflib (sample_initial [0, 6, 0, 63]) = Inr ([0] @ 6 # [0, 63], replicate 16 0)"
  "ReadUvarint [0, 63] = Inr (0, [63])" "ReadUvarint [63] = Inr (63, [])"
  by (simp_all add: sample_packet_simps)

lemma quic_unprotect_safe_witness: "\<not> is_panic (quic_unprotect sample_snifflib (sample_initial []))"
  by (rule quic_unprotect_safe) (simp_all add: sample_snifflib_def)

lemma quic_crypto_overrun_witness:
  "\<exists>m. sniff_QUICClientHello sample_snifflib InboundContext_zero (sample_initial [0, 6, 0, 63]) =
     Some (Some (Panic m), InboundContext_zero)"
  by (rule quic_crypto_overrun [OF sample_long_frame(1) _ sample_long_frame(2,3)]) simp_all

lemma quic_sniff_hangs_witness:
  "sniff_QUICClientHello sample_snifflib InboundContext_zero (sample_initial [6, 0, 0]) = None"
proof -
  have "SniffContext InboundContext_zero = None" by (simp add: InboundContext_zero_def)
  note * = quic_sniff_hangs [OF sample_empty_frame this]
  show ?thesis
    unfolding * by (rule exI [of _ 0]) (simp add: reached_start)
qed

end
