(* ===== verification/Peek.thy ===== *)
theory Peek
  imports Quic
begin

text \<open>
  The drivers of the sniffers (\<^verbatim>\<open>src/common/sniff/sniff.go\<close>). A connection is the list of what its reads
  return; when none is left the read times out.
\<close>

definition Skip :: "InboundContext \<Rightarrow> bool" where
  "Skip metadata \<longleftrightarrow> sa_Port (Destination metadata) \<in> {25, 465, 587, 143, 993, 110, 995}"

fun stream_sniffer :: "snifflib \<Rightarrow> dnslib \<Rightarrow> StreamSniffer \<Rightarrow> InboundContext \<Rightarrow> byte list list \<Rightarrow> sniffed" where
  "stream_sniffer sl dl TLSClientHello = sniff_TLSClientHello sl"
| "stream_sniffer sl dl HTTPHost = sniff_HTTPHost sl"
| "stream_sniffer sl dl StreamDomainNameQuery = sniff_StreamDomainNameQuery dl"
| "stream_sniffer sl dl BitTorrent = sniff_BitTorrent"
| "stream_sniffer sl dl SSH = sniff_SSH"
| "stream_sniffer sl dl RDP = sniff_RDP"

fun packet_sniffer :: "snifflib \<Rightarrow> dnslib \<Rightarrow> PacketSniffer \<Rightarrow> InboundContext \<Rightarrow> byte list \<Rightarrow> sniffed option" where
  "packet_sniffer sl dl QUICClientHello metadata packet = sniff_QUICClientHello sl metadata packet"
| "packet_sniffer sl dl DomainNameQuery metadata packet = Some (sniff_DomainNameQuery dl metadata packet)"
| "packet_sniffer sl dl STUNMessage metadata packet = Some (sniff_STUNMessage metadata packet)"
| "packet_sniffer sl dl UTP metadata packet = Some (sniff_UTP metadata packet)"
| "packet_sniffer sl dl UDPTracker metadata packet = Some (sniff_UDPTracker metadata packet)"
| "packet_sniffer sl dl DTLSRecord metadata packet = Some (sniff_DTLSRecord metadata packet)"
| "packet_sniffer sl dl NTP metadata packet = Some (sniff_NTP metadata packet)"

section \<open>Streams\<close>

datatype read_event = DeadlineError err | ReadError err | ReadData "byte list"

text \<open>One round: the sniffers in order, until one succeeds (\<open>None\<close>) or all have failed.\<close>

fun stream_round ::
    "snifflib \<Rightarrow> dnslib \<Rightarrow> byte list list \<Rightarrow> StreamSniffer list \<Rightarrow> err list \<Rightarrow> InboundContext \<Rightarrow> err list option \<times> InboundContext" where
  "stream_round sl dl chunks [] errors metadata = (Some errors, metadata)"
| "stream_round sl dl chunks (sniffer # rest) errors metadata =
     (case stream_sniffer sl dl sniffer metadata chunks of
        (None, metadata') \<Rightarrow> (None, metadata')
      | (Some e, metadata') \<Rightarrow> stream_round sl dl chunks rest (errors @ [e]) metadata')"

definition read_failed :: "nat \<Rightarrow> err option \<Rightarrow> err \<Rightarrow> err option" where
  "read_failed i sniffError e = (if i > 0 then sniffError else Some (Cause ''read payload'' e))"

record peeked =
  pk_Error :: "err option"
  pk_Metadata :: InboundContext
  pk_Buffer :: "byte list"
  pk_Reads :: "read_event list"

fun peek_reads ::
    "snifflib \<Rightarrow> dnslib \<Rightarrow> StreamSniffer list \<Rightarrow> byte list list \<Rightarrow> read_event list \<Rightarrow> nat \<Rightarrow> err option \<Rightarrow> byte list \<Rightarrow>
     InboundContext \<Rightarrow> peeked" where
  "peek_reads sl dl sniffers buffers [] i sniffError buffer metadata =
     \<lparr>pk_Error = read_failed i sniffError (Err ''i/o timeout''), pk_Metadata = metadata, pk_Buffer = buffer, pk_Reads = []\<rparr>"
| "peek_reads sl dl sniffers buffers (DeadlineError e # reads) i sniffError buffer metadata =
     \<lparr>pk_Error = Some (Cause ''set read deadline'' e), pk_Metadata = metadata, pk_Buffer = buffer, pk_Reads = reads\<rparr>"
| "peek_reads sl dl sniffers buffers (ReadError e # reads) i sniffError buffer metadata =
     \<lparr>pk_Error = read_failed i sniffError e, pk_Metadata = metadata, pk_Buffer = buffer, pk_Reads = reads\<rparr>"
| "peek_reads sl dl sniffers buffers (ReadData data # reads) i sniffError buffer metadata =
     (case stream_round sl dl (buffers @ [buffer @ data]) sniffers [] metadata of
        (None, metadata') \<Rightarrow> \<lparr>pk_Error = None, pk_Metadata = metadata', pk_Buffer = buffer @ data, pk_Reads = reads\<rparr>
      | (Some errors, metadata') \<Rightarrow>
          (case E_Errors errors of
             Some e \<Rightarrow>
               if errors_Is e ErrNeedMoreData
               then peek_reads sl dl sniffers buffers reads (Suc i) (Some e) (buffer @ data) metadata'
               else \<lparr>pk_Error = Some e, pk_Metadata = metadata', pk_Buffer = buffer @ data, pk_Reads = reads\<rparr>
           | None \<Rightarrow> \<lparr>pk_Error = None, pk_Metadata = metadata', pk_Buffer = buffer @ data, pk_Reads = reads\<rparr>))"

definition PeekStream ::
    "snifflib \<Rightarrow> dnslib \<Rightarrow> InboundContext \<Rightarrow> read_event list \<Rightarrow> byte list list \<Rightarrow> StreamSniffer list \<Rightarrow> peeked" where
  "PeekStream sl dl metadata reads buffers sniffers = peek_reads sl dl sniffers buffers reads 0 None [] metadata"

section \<open>Packets\<close>

fun peek_sniffers ::
    "snifflib \<Rightarrow> dnslib \<Rightarrow> byte list \<Rightarrow> PacketSniffer list \<Rightarrow> err list \<Rightarrow> InboundContext \<Rightarrow> sniffed option" where
  "peek_sniffers sl dl packet [] errors metadata = Some (E_Errors errors, metadata)"
| "peek_sniffers sl dl packet (sniffer # rest) errors metadata =
     (case packet_sniffer sl dl sniffer metadata packet of
        None \<Rightarrow> None
      | Some (None, metadata') \<Rightarrow> Some (None, metadata')
      | Some (Some (Panic m), metadata') \<Rightarrow> Some (Some (Panic m), metadata')
      | Some (Some e, metadata') \<Rightarrow> peek_sniffers sl dl packet rest (errors @ [e]) metadata')"

definition PeekPacket ::
    "snifflib \<Rightarrow> dnslib \<Rightarrow> InboundContext \<Rightarrow> byte list \<Rightarrow> PacketSniffer list \<Rightarrow> sniffed option" where
  "PeekPacket sl dl metadata packet sniffers = peek_sniffers sl dl packet sniffers [] metadata"

section \<open>What a success means\<close>

fun packet_protocol :: "PacketSniffer \<Rightarrow> string" where
  "packet_protocol QUICClientHello = ''quic''"
| "packet_protocol DomainNameQuery = ''dns''"
| "packet_protocol STUNMessage = ''stun''"
| "packet_protocol UTP = ''bittorrent''"
| "packet_protocol UDPTracker = ''bittorrent''"
| "packet_protocol DTLSRecord = ''dtls''"
| "packet_protocol NTP = ''ntp''"

definition is_query :: "dns_msg \<Rightarrow> bool" where
  "is_query msg \<longleftrightarrow> \<not> msg_Response msg \<and> msg_Question msg \<noteq> [] \<and> msg_Answer msg = [] \<and> msg_Ns msg = []"

lemma sniff_DomainNameQuery_result:
  "sniff_DomainNameQuery dl metadata packet =
     (case Unpack dl packet of
        Inl e \<Rightarrow> (Some e, metadata)
      | Inr msg \<Rightarrow> (None, if is_query msg then metadata\<lparr>Protocol := ''dns''\<rparr> else metadata))"
  by (auto simp: sniff_DomainNameQuery_def is_query_def split: sum.split)

lemma quic_finish_success:
  assumes "quic_finish metadata types fragments = Some (None, metadata')"
  shows "Protocol metadata' = ''quic''"
proof -
  obtain buffer r where r: "quic_hello fragments = Some buffer" "Compute buffer = Some r"
    using assms by (auto simp: quic_finish_def Option.bind_eq_Some_conv)
  show ?thesis
  proof (cases r)
    case (Inl e)
    then show ?thesis using assms r by (cases e) (simp_all add: quic_finish_def)
  next
    case (Inr fingerprint)
    then show ?thesis
      using assms r by (cases "quic_client fingerprint types") (auto simp: quic_finish_def Let_def split: if_splits)
  qed
qed

lemma quic_success: "sniff_QUICClientHello sl metadata packet = Some (None, metadata') \<Longrightarrow> Protocol metadata' = ''quic''"
  by (auto simp: sniff_QUICClientHello_def split: sum.splits dest: quic_finish_success)

lemma packet_sniffer_success:
  assumes "packet_sniffer sl dl sniffer metadata packet = Some (None, metadata')"
  shows "Protocol metadata' = packet_protocol sniffer \<or>
    (sniffer = DomainNameQuery \<and> (\<exists>msg. Unpack dl packet = Inr msg \<and> \<not> is_query msg) \<and> metadata' = metadata)"
  using assms
  by (cases sniffer)
     (auto simp: sniff_DomainNameQuery_result sniff_STUNMessage_def sniff_UTP_def sniff_UDPTracker_def sniff_DTLSRecord_def
       sniff_NTP_def sniff_result_def Let_def bind_result_Inr_iff split: if_splits sum.splits dest: quic_success)

lemma peek_sniffers_success:
  assumes "peek_sniffers sl dl packet sniffers errors metadata = Some (None, metadata')" "sniffers \<noteq> [] \<or> errors \<noteq> []"
  shows "\<exists>sniffer\<in>set sniffers. Protocol metadata' = packet_protocol sniffer \<or>
    (sniffer = DomainNameQuery \<and> (\<exists>msg. Unpack dl packet = Inr msg \<and> \<not> is_query msg))"
  using assms
proof (induction sniffers arbitrary: errors metadata)
  case Nil
  then show ?case by (simp add: E_Errors_def split: list.splits)
next
  case (Cons sniffer rest)
  obtain r where r: "packet_sniffer sl dl sniffer metadata packet = Some r"
    using Cons.prems(1) by (cases "packet_sniffer sl dl sniffer metadata packet") auto
  obtain e md where "r = (e, md)" by fastforce
  show ?case
  proof (cases e)
    case None
    then show ?thesis
      using Cons.prems(1) r \<open>r = (e, md)\<close> packet_sniffer_success by fastforce
  next
    case (Some error)
    then have "peek_sniffers sl dl packet rest (errors @ [error]) md = Some (None, metadata')"
      using Cons.prems(1) r \<open>r = (e, md)\<close> by (cases error) simp_all
    then show ?thesis using Cons.IH by fastforce
  qed
qed

text \<open>When sniffing a packet succeeds the protocol is that of one of the sniffers, or the packet unpacks as a DNS message
  that is not a query.\<close>

theorem PeekPacket_success:
  assumes "PeekPacket sl dl metadata packet sniffers = Some (None, metadata')" "sniffers \<noteq> []"
  shows "\<exists>sniffer\<in>set sniffers. Protocol metadata' = packet_protocol sniffer \<or>
    (sniffer = DomainNameQuery \<and> (\<exists>msg. Unpack dl packet = Inr msg \<and> \<not> is_query msg))"
  using peek_sniffers_success assms by (auto simp: PeekPacket_def)

text \<open>The sniffers a rule without a list of its own uses (\<^verbatim>\<open>actionSniff\<close> in \<^verbatim>\<open>src/route/route.go\<close>).\<close>

definition defaultStreamSniffers :: "StreamSniffer list" where
  "defaultStreamSniffers = [TLSClientHello, HTTPHost, StreamDomainNameQuery, BitTorrent, SSH, RDP]"

definition defaultPacketSniffers :: "PacketSniffer list" where
  "defaultPacketSniffers = [DomainNameQuery, QUICClientHello, STUNMessage, UTP, UDPTracker, DTLSRecord, NTP]"

text \<open>C28: A packet whose bytes 4 to 11 are zero, as the first record of a DTLS connection or the request of a simple NTP
  client, unpacks as a DNS message without questions. The default sniffers then stop with a success and no protocol,
  although the sniffer for DTLS or for NTP recognises the packet.\<close>

theorem zero_counts_swallowed:
  assumes unpack: "\<And>p. 12 \<le> length p \<Longrightarrow> \<forall>i\<in>{4..<12}. p ! i = 0 \<Longrightarrow> \<exists>msg. Unpack dl p = Inr msg \<and> msg_Question msg = []"
    and "12 \<le> length packet" "\<forall>i\<in>{4..<12}. packet ! i = 0"
  shows "PeekPacket sl dl metadata packet defaultPacketSniffers = Some (None, metadata)"
  using unpack [OF assms(2,3)] by (auto simp: PeekPacket_def defaultPacketSniffers_def sniff_DomainNameQuery_result is_query_def)

definition sample_dtls_record :: "byte list" where
  "sample_dtls_record = [22, 0xfe, 0xfd, 0, 0, 0, 0, 0, 0, 0, 0, 0, 1, 0]"

definition header_only :: "byte list \<Rightarrow> dns_msg result" where
  "header_only p =
     (if 12 \<le> length p \<and> (\<forall>i\<in>{4..<12}. p ! i = 0) then
        Inr \<lparr>msg_Id = 0, msg_Response = True, msg_Authoritative = False, msg_RecursionDesired = False,
          msg_RecursionAvailable = False, msg_Rcode = 0, msg_Question = [], msg_Answer = [], msg_Ns = [], msg_Extra = []\<rparr>
      else Inl (Err ''dns: overflow unpacking''))"

lemma zero_counts_swallowed_witness:
  "PeekPacket sample_snifflib (sample_dnslib\<lparr>Unpack := header_only\<rparr>) InboundContext_zero sample_dtls_record defaultPacketSniffers =
     Some (None, InboundContext_zero) \<and>
   sniff_DTLSRecord InboundContext_zero sample_dtls_record = (None, InboundContext_zero\<lparr>Protocol := ''dtls''\<rparr>)"
proof
  show "PeekPacket sample_snifflib (sample_dnslib\<lparr>Unpack := header_only\<rparr>) InboundContext_zero sample_dtls_record defaultPacketSniffers =
     Some (None, InboundContext_zero)"
    by (rule zero_counts_swallowed) (auto simp: header_only_def sample_dtls_record_def nth_Cons' numeral_eq_Suc)
  show "sniff_DTLSRecord InboundContext_zero sample_dtls_record = (None, InboundContext_zero\<lparr>Protocol := ''dtls''\<rparr>)"
    by (simp add: sniff_DTLSRecord_def sample_dtls_record_def)
qed

lemma PeekPacket_success_witness:
  "\<exists>metadata. PeekPacket sample_snifflib (sample_dnslib\<lparr>Unpack := header_only\<rparr>) InboundContext_zero
       [22, 0xfe, 0xfd, 0, 1, 0, 0, 0, 0, 0, 0, 0, 1, 0] [DTLSRecord] = Some (None, metadata) \<and>
     Protocol metadata = ''dtls''"
proof -
  have "PeekPacket sample_snifflib (sample_dnslib\<lparr>Unpack := header_only\<rparr>) InboundContext_zero
       [22, 0xfe, 0xfd, 0, 1, 0, 0, 0, 0, 0, 0, 0, 1, 0] [DTLSRecord] = Some (None, InboundContext_zero\<lparr>Protocol := ''dtls''\<rparr>)"
    by (simp add: PeekPacket_def sniff_DTLSRecord_def)
  from this PeekPacket_success [OF this] show ?thesis by auto
qed

end
