(* ===== verification/Fakeip.thy ===== *)
theory Fakeip
  imports Bytes Dns_Client Lifecycle
begin

text \<open>
  FakeIP (\<^verbatim>\<open>src/dns/transport/fakeip\<close>): the store that hands out addresses of a range for domains, the
  storage in memory, the part of the cache file that stores the addresses on disk
  (\<^verbatim>\<open>src/experimental/cachefile/fakeip.go\<close>), the metadata with its binary form
  (\<^verbatim>\<open>src/adapter/fakeip_metadata.go\<close>), and the DNS server on top.

  The storages are used through the interface \<^verbatim>\<open>adapter.FakeIPStorage\<close>, the record
  \<open>fakeip_storage\<close> of operations; what the store relies on is the locale \<open>storage_contract\<close>. The
  database is bbolt: a bucket exists or not, deleting a bucket that does not exist is an error, an empty key is an error,
  and an error undoes the whole transaction. The maps the cache file keeps for asynchronous writes stay empty, since the
  store writes synchronously.
\<close>

section \<open>Metadata\<close>

record FakeIPMetadata =
  fm_Inet4Range :: prefix
  fm_Inet6Range :: prefix
  fm_Inet4Current :: addr
  fm_Inet6Current :: addr

text \<open>The binary forms of \<^verbatim>\<open>netip.Addr\<close> and \<^verbatim>\<open>netip.Prefix\<close>: the bytes and the zone;
  the bytes and the number of bits, 255 when there is none.\<close>

definition addr_MarshalBinary :: "addr \<Rightarrow> byte list" where
  "addr_MarshalBinary a = addr_AsSlice a @ (case a of Addr6 _ z \<Rightarrow> map (\<lambda>c. of_nat (of_char c)) z | _ \<Rightarrow> [])"

definition addr_UnmarshalBinary :: "byte list \<Rightarrow> addr result" where
  "addr_UnmarshalBinary b =
     (if b = [] then Inr AddrInvalid
      else if length b = 4 then Inr (Addr4 (of_nat (be_nat b)))
      else if length b \<ge> 16 then Inr (Addr6 (of_nat (be_nat (take 16 b))) (map (\<lambda>x. char_of (unat x)) (drop 16 b)))
      else Inl (Err ''unexpected slice size''))"

definition prefix_MarshalBinary :: "prefix \<Rightarrow> byte list" where
  "prefix_MarshalBinary p =
     addr_MarshalBinary (addr_withoutZone (prefix_Addr p)) @ [case prefix_Bits p of None \<Rightarrow> 255 | Some n \<Rightarrow> of_nat n]"

definition prefix_UnmarshalBinary :: "byte list \<Rightarrow> prefix result" where
  "prefix_UnmarshalBinary b =
     (if b = [] then Inl (Err ''unexpected slice size'')
      else bind_result (addr_UnmarshalBinary (butlast b)) (\<lambda>a. Inr (PrefixFrom a (unat (last b)))))"

definition put_element :: "byte list \<Rightarrow> byte list" where
  "put_element b = [of_nat (length b div 256), of_nat (length b)] @ b"

definition metadata_MarshalBinary :: "FakeIPMetadata \<Rightarrow> byte list" where
  "metadata_MarshalBinary m =
     put_element (prefix_MarshalBinary (fm_Inet4Range m)) @ put_element (prefix_MarshalBinary (fm_Inet6Range m)) @
     put_element (addr_MarshalBinary (fm_Inet4Current m)) @ put_element (addr_MarshalBinary (fm_Inet6Current m))"

text \<open>\<^verbatim>\<open>common.Must\<close> panics on an error.\<close>

definition get_element :: "(byte list \<Rightarrow> 'a result) \<Rightarrow> reader \<Rightarrow> ('a \<times> reader) result" where
  "get_element unmarshal r =
     (case ReadFull 2 r of
        Inl e \<Rightarrow> Inl (Panic ''unexpected EOF'')
      | Inr (len, r) \<Rightarrow>
          bind_result (ReadFull (be_nat len) r) (\<lambda>(element, r).
          bind_result (unmarshal element) (\<lambda>x. Inr (x, r))))"

definition metadata_UnmarshalBinary :: "byte list \<Rightarrow> FakeIPMetadata result" where
  "metadata_UnmarshalBinary data =
     bind_result (get_element prefix_UnmarshalBinary data) (\<lambda>(inet4Range, r).
     bind_result (get_element prefix_UnmarshalBinary r) (\<lambda>(inet6Range, r).
     bind_result (get_element addr_UnmarshalBinary r) (\<lambda>(inet4Current, r).
     bind_result (get_element addr_UnmarshalBinary r) (\<lambda>(inet6Current, r).
     Inr \<lparr>fm_Inet4Range = inet4Range, fm_Inet6Range = inet6Range, fm_Inet4Current = inet4Current, fm_Inet6Current = inet6Current\<rparr>))))"

section \<open>Storages\<close>

record 's fakeip_storage =
  st_Metadata :: "'s \<Rightarrow> FakeIPMetadata option \<times> 's"
  st_SaveMetadata :: "FakeIPMetadata \<Rightarrow> 's \<Rightarrow> err option \<times> 's"
  st_SaveMetadataAsync :: "FakeIPMetadata \<Rightarrow> 's \<Rightarrow> 's"
  st_Store :: "addr \<Rightarrow> string \<Rightarrow> 's \<Rightarrow> err option \<times> 's"
  st_Load :: "addr \<Rightarrow> 's \<Rightarrow> string option"
  st_LoadDomain :: "string \<Rightarrow> bool \<Rightarrow> 's \<Rightarrow> addr option"
  st_Reset :: "'s \<Rightarrow> err option \<times> 's"

subsection \<open>Memory\<close>

record MemoryStorage =
  addressCache :: "addr \<rightharpoonup> string"
  domainCache4 :: "string \<rightharpoonup> addr"
  domainCache6 :: "string \<rightharpoonup> addr"

definition NewMemoryStorage :: MemoryStorage where
  "NewMemoryStorage = \<lparr>addressCache = Map.empty, domainCache4 = Map.empty, domainCache6 = Map.empty\<rparr>"

definition replace_domain :: "string option \<Rightarrow> string \<Rightarrow> 'a \<Rightarrow> (string \<rightharpoonup> 'a) \<Rightarrow> (string \<rightharpoonup> 'a)" where
  "replace_domain oldDomain domain address m =
     (case oldDomain of None \<Rightarrow> m | Some old \<Rightarrow> m(old := None))(domain \<mapsto> address)"

definition memory_FakeIPStore :: "addr \<Rightarrow> string \<Rightarrow> MemoryStorage \<Rightarrow> err option \<times> MemoryStorage" where
  "memory_FakeIPStore address domain s =
     (let oldDomain = addressCache s address;
          s1 = s\<lparr>addressCache := (addressCache s)(address \<mapsto> domain)\<rparr>
      in (None,
          if addr_Is4 address then s1\<lparr>domainCache4 := replace_domain oldDomain domain address (domainCache4 s)\<rparr>
          else s1\<lparr>domainCache6 := replace_domain oldDomain domain address (domainCache6 s)\<rparr>))"

definition memory_FakeIPLoad :: "addr \<Rightarrow> MemoryStorage \<Rightarrow> string option" where
  "memory_FakeIPLoad address s = addressCache s address"

definition memory_FakeIPLoadDomain :: "string \<Rightarrow> bool \<Rightarrow> MemoryStorage \<Rightarrow> addr option" where
  "memory_FakeIPLoadDomain domain isIPv6 s = (if \<not> isIPv6 then domainCache4 s domain else domainCache6 s domain)"

definition memory_FakeIPReset :: "MemoryStorage \<Rightarrow> err option \<times> MemoryStorage" where
  "memory_FakeIPReset s = (None, NewMemoryStorage)"

definition memory_storage :: "MemoryStorage fakeip_storage" where
  "memory_storage = \<lparr>st_Metadata = (\<lambda>s. (None, s)), st_SaveMetadata = (\<lambda>m s. (None, s)), st_SaveMetadataAsync = (\<lambda>m s. s),
     st_Store = memory_FakeIPStore, st_Load = memory_FakeIPLoad, st_LoadDomain = memory_FakeIPLoadDomain,
     st_Reset = memory_FakeIPReset\<rparr>"

subsection \<open>The cache file\<close>

text \<open>
  The keys of the bucket of addresses are the bytes of an address; the metadata is in the same bucket, under a key of
  15 bytes, which no address has. The timer keeps the function it was made with, which saves the metadata of that call.
  A panic in a transaction is recovered by replacing the database by an empty one.
\<close>

record CacheStorage =
  bucketFakeIP :: "(byte list \<rightharpoonup> string) option"
  bucketFakeIPDomain4 :: "(string \<rightharpoonup> byte list) option"
  bucketFakeIPDomain6 :: "(string \<rightharpoonup> byte list) option"
  keyMetadata :: "byte list option"
  saveMetadataTimer :: "FakeIPMetadata option"

text \<open>A bucket, created empty when it does not exist.\<close>

definition bucket_of :: "('k \<rightharpoonup> 'v) option \<Rightarrow> ('k \<rightharpoonup> 'v)" where
  "bucket_of b = (case b of None \<Rightarrow> Map.empty | Some m \<Rightarrow> m)"

definition cache_resetDB :: "CacheStorage \<Rightarrow> CacheStorage" where
  "cache_resetDB c =
     c\<lparr>bucketFakeIP := None, bucketFakeIPDomain4 := None, bucketFakeIPDomain6 := None, keyMetadata := None\<rparr>"

definition cache_FakeIPMetadata :: "CacheStorage \<Rightarrow> FakeIPMetadata option \<times> CacheStorage" where
  "cache_FakeIPMetadata c =
     (case bucketFakeIP c of
        None \<Rightarrow> (None, c)
      | Some _ \<Rightarrow>
          (case keyMetadata c of
             None \<Rightarrow> (None, c)
           | Some metadataBinary \<Rightarrow>
               if metadataBinary = [] then (None, c)
               else
                 (case metadata_UnmarshalBinary metadataBinary of
                    Inl (Panic r) \<Rightarrow> (None, cache_resetDB c)
                  | Inl _ \<Rightarrow> (None, c)
                  | Inr metadata \<Rightarrow> (Some metadata, c\<lparr>keyMetadata := None\<rparr>))))"

definition cache_FakeIPSaveMetadata :: "FakeIPMetadata \<Rightarrow> CacheStorage \<Rightarrow> err option \<times> CacheStorage" where
  "cache_FakeIPSaveMetadata metadata c =
     (None, c\<lparr>bucketFakeIP := Some (bucket_of (bucketFakeIP c)), keyMetadata := Some (metadata_MarshalBinary metadata)\<rparr>)"

definition cache_FakeIPSaveMetadataAsync :: "FakeIPMetadata \<Rightarrow> CacheStorage \<Rightarrow> CacheStorage" where
  "cache_FakeIPSaveMetadataAsync metadata c =
     (case saveMetadataTimer c of None \<Rightarrow> c\<lparr>saveMetadataTimer := Some metadata\<rparr> | Some _ \<Rightarrow> c)"

definition cache_timer_fires :: "CacheStorage \<Rightarrow> CacheStorage" where
  "cache_timer_fires c =
     (case saveMetadataTimer c of None \<Rightarrow> c | Some metadata \<Rightarrow> snd (cache_FakeIPSaveMetadata metadata c))"

definition cache_FakeIPStore :: "addr \<Rightarrow> string \<Rightarrow> CacheStorage \<Rightarrow> err option \<times> CacheStorage" where
  "cache_FakeIPStore address domain c =
     (let addresses = bucket_of (bucketFakeIP c);
          key = addr_AsSlice address;
          oldDomain = addresses key;
          c1 = c\<lparr>bucketFakeIP := Some (addresses(key \<mapsto> domain))\<rparr>
      in if key = [] \<or> domain = [] then (Some (Err ''key required''), c)
         else if addr_Is4 address then
           (None, c1\<lparr>bucketFakeIPDomain4 := Some (replace_domain oldDomain domain key (bucket_of (bucketFakeIPDomain4 c)))\<rparr>)
         else
           (None, c1\<lparr>bucketFakeIPDomain6 := Some (replace_domain oldDomain domain key (bucket_of (bucketFakeIPDomain6 c)))\<rparr>))"

definition cache_FakeIPLoad :: "addr \<Rightarrow> CacheStorage \<Rightarrow> string option" where
  "cache_FakeIPLoad address c =
     (case bucket_of (bucketFakeIP c) (addr_AsSlice address) of
        None \<Rightarrow> None
      | Some domain \<Rightarrow> if domain = [] then None else Some domain)"

definition cache_FakeIPLoadDomain :: "golib \<Rightarrow> string \<Rightarrow> bool \<Rightarrow> CacheStorage \<Rightarrow> addr option" where
  "cache_FakeIPLoadDomain lib domain isIPv6 c =
     (case (if isIPv6 then bucketFakeIPDomain6 c else bucketFakeIPDomain4 c) of
        None \<Rightarrow> None
      | Some bucket \<Rightarrow>
          let address = AddrFromIP lib (case bucket domain of None \<Rightarrow> [] | Some bytes \<Rightarrow> bytes)
          in if addr_IsValid address then Some address else None)"

definition cache_FakeIPReset :: "CacheStorage \<Rightarrow> err option \<times> CacheStorage" where
  "cache_FakeIPReset c =
     (if bucketFakeIP c = None \<or> bucketFakeIPDomain4 c = None \<or> bucketFakeIPDomain6 c = None
      then (Some (Err ''bucket not found''), c)
      else (None, c\<lparr>bucketFakeIP := None, bucketFakeIPDomain4 := None, bucketFakeIPDomain6 := None, keyMetadata := None\<rparr>))"

definition cache_storage :: "golib \<Rightarrow> CacheStorage fakeip_storage" where
  "cache_storage lib = \<lparr>st_Metadata = cache_FakeIPMetadata, st_SaveMetadata = cache_FakeIPSaveMetadata,
     st_SaveMetadataAsync = cache_FakeIPSaveMetadataAsync, st_Store = cache_FakeIPStore, st_Load = cache_FakeIPLoad,
     st_LoadDomain = cache_FakeIPLoadDomain lib, st_Reset = cache_FakeIPReset\<rparr>"

section \<open>The store\<close>

record Store =
  inet4Range :: prefix
  inet6Range :: prefix
  inet4Last :: addr
  inet6Last :: addr
  inet4Current :: addr
  inet6Current :: addr

definition broadcastAddress :: "prefix \<Rightarrow> addr" where
  "broadcastAddress p =
     (case prefix_Addr p of
        Addr4 w \<Rightarrow> Addr4 (w OR mask (32 - (case prefix_Bits p of None \<Rightarrow> 0 | Some n \<Rightarrow> n)))
      | Addr6 w z \<Rightarrow> Addr6 (w OR mask (128 - (case prefix_Bits p of None \<Rightarrow> 0 | Some n \<Rightarrow> n))) []
      | AddrInvalid \<Rightarrow> AddrInvalid)"

definition NewStore :: "prefix \<Rightarrow> prefix \<Rightarrow> Store" where
  "NewStore range4 range6 =
     \<lparr>inet4Range = range4, inet6Range = range6,
      inet4Last = (if prefix_IsValid range4 then broadcastAddress range4 else AddrInvalid),
      inet6Last = (if prefix_IsValid range6 then broadcastAddress range6 else AddrInvalid),
      inet4Current = AddrInvalid, inet6Current = AddrInvalid\<rparr>"

definition fresh_ranges :: "Store \<Rightarrow> Store" where
  "fresh_ranges s = s\<lparr>
     inet4Current := (if prefix_IsValid (inet4Range s) then addr_Next (prefix_Addr (inet4Range s)) else inet4Current s),
     inet6Current := (if prefix_IsValid (inet6Range s) then addr_Next (prefix_Addr (inet6Range s)) else inet6Current s)\<rparr>"

definition store_Start :: "'s fakeip_storage \<Rightarrow> Store \<Rightarrow> 's \<Rightarrow> Store \<times> 's" where
  "store_Start ops s st =
     (case st_Metadata ops st of
        (metadata, st1) \<Rightarrow>
          (case metadata of
             Some m \<Rightarrow>
               if fm_Inet4Range m = inet4Range s \<and> fm_Inet6Range m = inet6Range s then
                 (s\<lparr>inet4Current := fm_Inet4Current m, inet6Current := fm_Inet6Current m\<rparr>, st1)
               else (fresh_ranges s, snd (st_Reset ops st1))
           | None \<Rightarrow> (fresh_ranges s, snd (st_Reset ops st1))))"

definition store_Contains :: "Store \<Rightarrow> addr \<Rightarrow> bool" where
  "store_Contains s address \<longleftrightarrow> prefix_Contains (inet4Range s) address \<or> prefix_Contains (inet6Range s) address"

definition store_metadata :: "Store \<Rightarrow> FakeIPMetadata" where
  "store_metadata s = \<lparr>fm_Inet4Range = inet4Range s, fm_Inet6Range = inet6Range s, fm_Inet4Current = inet4Current s,
     fm_Inet6Current = inet6Current s\<rparr>"

text \<open>A store that was not started has no storage.\<close>

definition store_Close :: "'s fakeip_storage \<Rightarrow> Store \<Rightarrow> 's option \<Rightarrow> err option \<times> 's option" where
  "store_Close ops s storage =
     (case storage of
        None \<Rightarrow> (None, None)
      | Some st \<Rightarrow> (case st_SaveMetadata ops (store_metadata s) st of (e, st') \<Rightarrow> (e, Some st')))"

definition next_address :: "prefix \<Rightarrow> addr \<Rightarrow> addr \<Rightarrow> addr" where
  "next_address range' last' current =
     (let nextAddress = addr_Next current
      in if nextAddress = last' \<or> \<not> prefix_Contains range' nextAddress then addr_Next (addr_Next (prefix_Addr range'))
         else nextAddress)"

definition take_address :: "bool \<Rightarrow> Store \<Rightarrow> (addr \<times> Store) result" where
  "take_address isIPv6 s =
     (if \<not> isIPv6 then
        (if \<not> addr_IsValid (inet4Current s) then Inl (Err ''missing IPv4 fakeip address range'')
         else let a = next_address (inet4Range s) (inet4Last s) (inet4Current s) in Inr (a, s\<lparr>inet4Current := a\<rparr>))
      else
        (if \<not> addr_IsValid (inet6Current s) then Inl (Err ''missing IPv6 fakeip address range'')
         else let a = next_address (inet6Range s) (inet6Last s) (inet6Current s) in Inr (a, s\<lparr>inet6Current := a\<rparr>)))"

definition store_Create :: "'s fakeip_storage \<Rightarrow> string \<Rightarrow> bool \<Rightarrow> Store \<Rightarrow> 's \<Rightarrow> addr result \<times> Store \<times> 's" where
  "store_Create ops domain isIPv6 s st =
     (case st_LoadDomain ops domain isIPv6 st of
        Some address \<Rightarrow> (Inr address, s, st)
      | None \<Rightarrow>
          (case take_address isIPv6 s of
             Inl e \<Rightarrow> (Inl e, s, st)
           | Inr (address, s') \<Rightarrow>
               (Inr address, s', st_SaveMetadataAsync ops (store_metadata s') (snd (st_Store ops address domain st)))))"

definition store_Lookup :: "'s fakeip_storage \<Rightarrow> addr \<Rightarrow> 's \<Rightarrow> string option" where
  "store_Lookup ops address st = st_Load ops address st"

definition store_Reset :: "'s fakeip_storage \<Rightarrow> 's \<Rightarrow> err option \<times> 's" where
  "store_Reset ops st = st_Reset ops st"

text \<open>A sequence of requests, each a domain and a family.\<close>

fun create_all :: "'s fakeip_storage \<Rightarrow> (string \<times> bool) list \<Rightarrow> Store \<Rightarrow> 's \<Rightarrow> Store \<times> 's" where
  "create_all ops [] s st = (s, st)"
| "create_all ops ((domain, isIPv6) # requests) s st =
     (case store_Create ops domain isIPv6 s st of (_, s', st') \<Rightarrow> create_all ops requests s' st')"

section \<open>The DNS server\<close>

definition DefaultDNSTTL :: u32 where "DefaultDNSTTL = 600"

definition FixedResponse :: "u16 \<Rightarrow> question \<Rightarrow> addr list \<Rightarrow> u32 \<Rightarrow> dns_msg" where
  "FixedResponse id' question addresses timeToLive =
     (let record = (\<lambda>rrtype rdata. \<lparr>rr_Name = q_Name question, rr_Rrtype = rrtype, rr_Class = ClassINET, rr_Ttl = timeToLive, rr_Data = rdata\<rparr>)
      in \<lparr>msg_Id = id', msg_Response = True, msg_Authoritative = True, msg_RecursionDesired = True,
          msg_RecursionAvailable = True, msg_Rcode = RcodeSuccess, msg_Question = [question],
          msg_Answer = concat (map (\<lambda>address.
            if addr_Is4 address \<and> q_Qtype question = TypeA then [record TypeA (RD_A (addr_AsSlice address))]
            else if addr_Is6 address \<and> q_Qtype question = TypeAAAA then [record TypeAAAA (RD_AAAA (addr_AsSlice address))]
            else []) addresses),
          msg_Ns = [], msg_Extra = []\<rparr>)"

definition fakeip_Start :: "'s fakeip_storage \<Rightarrow> StartStage \<Rightarrow> Store \<Rightarrow> 's \<Rightarrow> Store \<times> 's" where
  "fakeip_Start ops stage s st = (if stage \<noteq> StartStateStart then (s, st) else store_Start ops s st)"

definition fakeip_Exchange ::
    "dnslib \<Rightarrow> 's fakeip_storage \<Rightarrow> dns_msg \<Rightarrow> Store \<Rightarrow> 's \<Rightarrow> dns_msg result \<times> Store \<times> 's" where
  "fakeip_Exchange dl ops message s st =
     (case go_index (msg_Question message) 0 of
        Inl e \<Rightarrow> (Inl e, s, st)
      | Inr question \<Rightarrow>
          if q_Qtype question \<noteq> TypeA \<and> q_Qtype question \<noteq> TypeAAAA then
            (Inl (Err ''only IP queries are supported by fakeip''), s, st)
          else
            (case store_Create ops (FqdnToDomain dl (q_Name question)) (q_Qtype question = TypeAAAA) s st of
               (Inl e, s, st) \<Rightarrow> (Inl e, s, st)
             | (Inr address, s, st) \<Rightarrow> (Inr (FixedResponse (msg_Id message) question [address] DefaultDNSTTL), s, st)))"

section \<open>The binary form of the metadata\<close>

lemma word_bytes_Suc: "word_bytes (Suc n) w = ucast (drop_bit (8 * n) w) # word_bytes n w"
  by (simp add: word_bytes_def)

lemma length_word_bytes [simp]: "length (word_bytes n w) = n"
  by (simp add: word_bytes_def)

lemma word_bytes_Nil [simp]: "word_bytes n w = [] \<longleftrightarrow> n = 0"
  by (simp add: word_bytes_def)

lemma take_bit_unat: "take_bit LENGTH('a) (unat (w :: 'a::len word)) = unat w"
  by (rule take_bit_nat_eq_self) (rule unsigned_less)

lemma be_nat_word_bytes: "be_nat (word_bytes n (w :: 'a::len word)) = take_bit (8 * n) (unat w)"
proof (induction n)
  case 0
  show ?case by (simp add: word_bytes_def)
next
  case (Suc n)
  have "take_bit (8 + 8 * n) (unat w) = take_bit (min (8 + 8 * n) LENGTH('a)) (unat w)"
    by (metis take_bit_take_bit take_bit_unat)
  then have "unat (ucast (drop_bit (8 * n) w) :: byte) = take_bit 8 (drop_bit (8 * n) (unat w))"
    by (simp add: unsigned_ucast_eq unsigned_drop_bit_eq take_bit_drop_bit)
  moreover have "take_bit (8 * Suc n) (unat w) = take_bit 8 (drop_bit (8 * n) (unat w)) * 256 ^ n + take_bit (8 * n) (unat w)"
  proof -
    have size: "2 ^ (8 * n) = (256 :: nat) ^ n" "2 ^ (8 * Suc n) = (256 :: nat) ^ n * 256"
      by (simp_all add: power_mult power_add)
    show ?thesis
      unfolding take_bit_eq_mod drop_bit_eq_div size using mod_mult2_eq [of "unat w" "256 ^ n" 256] by (simp add: mult.commute)
  qed
  ultimately show ?case
    using Suc by (simp add: word_bytes_Suc)
qed

lemma addr_binary_roundtrip: "addr_UnmarshalBinary (addr_MarshalBinary a) = Inr a"
proof (cases a)
  case (Addr4 w)
  then show ?thesis
    using take_bit_unat [of w] by (simp add: addr_UnmarshalBinary_def addr_MarshalBinary_def be_nat_word_bytes)
next
  case (Addr6 w z)
  have "char_of (unat (of_nat (of_char c) :: byte)) = (c :: char)" for c
  proof -
    have "(of_char c :: nat) < 256" by (simp add: of_char_def)
    then show ?thesis by (simp add: unsigned_of_nat take_bit_nat_eq_self)
  qed
  then show ?thesis
    using Addr6 take_bit_unat [of w]
    by (simp add: addr_UnmarshalBinary_def addr_MarshalBinary_def be_nat_word_bytes comp_def)
qed (simp add: addr_UnmarshalBinary_def addr_MarshalBinary_def)

text \<open>The prefixes Go's \<^verbatim>\<open>netip\<close> makes: the address has no zone, the length fits the address.\<close>

definition prefix_ok :: "prefix \<Rightarrow> bool" where
  "prefix_ok p \<longleftrightarrow> \<not> addr_hasZone (prefix_Addr p) \<and>
     (case prefix_Bits p of None \<Rightarrow> True | Some n \<Rightarrow> addr_IsValid (prefix_Addr p) \<and> n \<le> addr_BitLen (prefix_Addr p))"

lemma addr_withoutZone_id [simp]: "\<not> addr_hasZone a \<Longrightarrow> addr_withoutZone a = a"
  by (cases a) simp_all

lemma addr_BitLen_le: "addr_BitLen a \<le> 128"
  by (cases a) simp_all

lemma prefix_binary_roundtrip:
  assumes "prefix_ok p"
  shows "prefix_UnmarshalBinary (prefix_MarshalBinary p) = Inr p"
proof (cases p)
  case (Prefix a bits)
  then show ?thesis
    using assms addr_BitLen_le [of a]
    by (cases bits) (auto simp: prefix_ok_def prefix_UnmarshalBinary_def prefix_MarshalBinary_def addr_binary_roundtrip
        PrefixFrom_def unsigned_of_nat take_bit_nat_eq_self)
qed

lemma length_addr_MarshalBinary: "\<not> addr_hasZone a \<Longrightarrow> length (addr_MarshalBinary a) \<le> 16"
  by (cases a) (simp_all add: addr_MarshalBinary_def)

lemma length_prefix_MarshalBinary: "prefix_ok p \<Longrightarrow> length (prefix_MarshalBinary p) \<le> 17"
  using length_addr_MarshalBinary [of "prefix_Addr p"] by (simp add: prefix_ok_def prefix_MarshalBinary_def)

lemma get_put_element:
  assumes "length b < 256" and "unmarshal b = Inr x"
  shows "get_element unmarshal (put_element b @ r) = Inr (x, r)"
  using assms by (simp add: get_element_def put_element_def ReadFull_def unsigned_of_nat take_bit_nat_eq_self)

definition metadata_ok :: "FakeIPMetadata \<Rightarrow> bool" where
  "metadata_ok m \<longleftrightarrow> prefix_ok (fm_Inet4Range m) \<and> prefix_ok (fm_Inet6Range m) \<and>
     \<not> addr_hasZone (fm_Inet4Current m) \<and> \<not> addr_hasZone (fm_Inet6Current m)"

lemma metadata_binary_roundtrip:
  assumes "metadata_ok m"
  shows "metadata_UnmarshalBinary (metadata_MarshalBinary m) = Inr m"
proof -
  have element: "get_element prefix_UnmarshalBinary (put_element (prefix_MarshalBinary p) @ r) = Inr (p, r)"
    if "prefix_ok p" for p r
    using that length_prefix_MarshalBinary [of p] by (intro get_put_element prefix_binary_roundtrip) simp_all
  have address: "get_element addr_UnmarshalBinary (put_element (addr_MarshalBinary a) @ r) = Inr (a, r)"
    if "\<not> addr_hasZone a" for a r
    using that length_addr_MarshalBinary [of a] by (intro get_put_element addr_binary_roundtrip) simp_all
  show ?thesis
    using assms address [where r = "[]"]
    by (simp add: metadata_ok_def metadata_UnmarshalBinary_def metadata_MarshalBinary_def element address)
qed

section \<open>What the store relies on\<close>

text \<open>
  A storage gives back what was stored: an address has the domain it was last stored with; a domain has, per family, the
  address it was last stored with unless that address went to another domain since.
\<close>

locale storage_contract =
  fixes ops :: "'s fakeip_storage" and inv :: "'s \<Rightarrow> bool"
  assumes Store_inv:
      "inv st \<Longrightarrow> domain \<noteq> [] \<Longrightarrow> addr_IsValid a \<Longrightarrow> \<not> addr_hasZone a \<Longrightarrow> inv (snd (st_Store ops a domain st))"
    and Store_Load:
      "inv st \<Longrightarrow> domain \<noteq> [] \<Longrightarrow> addr_IsValid a \<Longrightarrow> \<not> addr_hasZone a \<Longrightarrow> \<not> addr_hasZone b \<Longrightarrow>
       st_Load ops b (snd (st_Store ops a domain st)) = (if b = a then Some domain else st_Load ops b st)"
    and Store_LoadDomain:
      "inv st \<Longrightarrow> domain \<noteq> [] \<Longrightarrow> addr_IsValid a \<Longrightarrow> \<not> addr_hasZone a \<Longrightarrow>
       st_LoadDomain ops d six (snd (st_Store ops a domain st)) =
         (if addr_Is4 a = six then st_LoadDomain ops d six st
          else if d = domain then Some a
          else if st_Load ops a st = Some d then None
          else st_LoadDomain ops d six st)"
    and LoadDomain_Load:
      "inv st \<Longrightarrow> st_LoadDomain ops d six st = Some a \<Longrightarrow> st_Load ops a st = Some d"
    and LoadDomain_family:
      "inv st \<Longrightarrow> st_LoadDomain ops d six st = Some a \<Longrightarrow> addr_IsValid a \<and> \<not> addr_hasZone a \<and> addr_Is4 a = (\<not> six)"
    and Async:
      "inv st \<Longrightarrow> inv (st_SaveMetadataAsync ops m st)"
      "st_Load ops a (st_SaveMetadataAsync ops m st) = st_Load ops a st"
      "st_LoadDomain ops d six (st_SaveMetadataAsync ops m st) = st_LoadDomain ops d six st"

text \<open>A range is usable when the first address it hands out, the second after the start, is in it.\<close>

definition range_ok :: "bool \<Rightarrow> prefix \<Rightarrow> bool" where
  "range_ok six p \<longleftrightarrow> prefix_IsValid p \<longrightarrow>
     addr_Is4 (prefix_Addr p) = (\<not> six) \<and> prefix_Contains p (addr_Next (addr_Next (prefix_Addr p)))"

definition family_range :: "bool \<Rightarrow> Store \<Rightarrow> prefix" where
  "family_range six s = (if six then inet6Range s else inet4Range s)"

definition family_current :: "bool \<Rightarrow> Store \<Rightarrow> addr" where
  "family_current six s = (if six then inet6Current s else inet4Current s)"

definition store_ok :: "Store \<Rightarrow> bool" where
  "store_ok s \<longleftrightarrow> (\<forall>six. range_ok six (family_range six s) \<and>
     (addr_IsValid (family_current six s) \<longrightarrow> prefix_IsValid (family_range six s)))"

definition stored_in_range :: "'s fakeip_storage \<Rightarrow> Store \<Rightarrow> 's \<Rightarrow> bool" where
  "stored_in_range ops s st \<longleftrightarrow>
     (\<forall>d six a. st_LoadDomain ops d six st = Some a \<longrightarrow> prefix_Contains (family_range six s) a)"

lemma contained_address:
  assumes "prefix_Contains p a" and "addr_Is4 (prefix_Addr p) = (\<not> six)"
  shows "addr_IsValid a \<and> \<not> addr_hasZone a \<and> addr_Is4 a = (\<not> six)"
  using assms
  by (cases "prefix_Addr p"; cases a) (auto simp: prefix_Contains_def addr_IsValid_def split: option.splits)

lemma next_address_contained: "range_ok six p \<Longrightarrow> prefix_IsValid p \<Longrightarrow> prefix_Contains p (next_address p l c)"
  by (auto simp: range_ok_def next_address_def Let_def)

lemma take_address_ok:
  assumes "take_address six s = Inr (a, s')" and "store_ok s"
  shows "prefix_Contains (family_range six s) a \<and> addr_IsValid a \<and> \<not> addr_hasZone a \<and> addr_Is4 a = (\<not> six) \<and>
    store_ok s' \<and> inet4Range s' = inet4Range s \<and> inet6Range s' = inet6Range s"
proof -
  have current: "addr_IsValid (family_current six s)"
    using assms(1) by (auto simp: take_address_def family_current_def split: if_splits)
  then have range: "range_ok six (family_range six s)" "prefix_IsValid (family_range six s)"
    using assms(2) by (simp_all add: store_ok_def)
  have a: "prefix_Contains (family_range six s) a"
    and ranges: "inet4Range s' = inet4Range s" "inet6Range s' = inet6Range s"
    and others: "\<And>x. x \<noteq> six \<Longrightarrow> family_current x s' = family_current x s"
    using assms(1) next_address_contained [OF range]
    by (auto simp: take_address_def family_current_def family_range_def Let_def split: if_splits)
  have same: "family_range x s' = family_range x s" for x
    using ranges by (simp add: family_range_def)
  have "range_ok x (family_range x s)" "addr_IsValid (family_current x s') \<Longrightarrow> prefix_IsValid (family_range x s)" for x
    using assms(2) range others [of x] by (cases "x = six"; simp add: store_ok_def)+
  then have "store_ok s'"
    by (simp add: store_ok_def same)
  then show ?thesis
    using a range contained_address [OF a] ranges by (simp add: range_ok_def)
qed

context storage_contract
begin

lemma Create_cases:
  assumes "inv st" and "store_ok s" and "domain \<noteq> []" and "store_Create ops domain six s st = (Inr a, s', st')"
  shows "inv st'" and "store_ok s'" and "st_LoadDomain ops domain six st' = Some a" and "st_Load ops a st' = Some domain"
    and "family_range x s' = family_range x s"
    and "stored_in_range ops s st \<Longrightarrow> stored_in_range ops s' st' \<and> prefix_Contains (family_range six s') a"
proof -
  consider (known) "st_LoadDomain ops domain six st = Some a" "s' = s" "st' = st"
    | (new) "take_address six s = Inr (a, s')"
      "st' = st_SaveMetadataAsync ops (store_metadata s') (snd (st_Store ops a domain st))"
    using assms(4) by (auto simp: store_Create_def split: option.splits sum.splits prod.splits)
  then have "inv st' \<and> store_ok s' \<and> st_LoadDomain ops domain six st' = Some a \<and> st_Load ops a st' = Some domain \<and>
    family_range x s' = family_range x s \<and>
    (stored_in_range ops s st \<longrightarrow> stored_in_range ops s' st' \<and> prefix_Contains (family_range six s') a)"
  proof cases
    case known
    then show ?thesis
      using assms by (auto simp: LoadDomain_Load stored_in_range_def)
  next
    case new
    note a = take_address_ok [OF new(1) assms(2)]
    have range': "family_range y s' = family_range y s" for y
      using a by (simp add: family_range_def)
    show ?thesis
      using a assms(1,3) unfolding new(2) stored_in_range_def range'
      by (auto simp: Async Store_inv Store_Load Store_LoadDomain split: if_splits)
  qed
  then show "inv st'" and "store_ok s'" and "st_LoadDomain ops domain six st' = Some a" and "st_Load ops a st' = Some domain"
    and "family_range x s' = family_range x s"
    and "stored_in_range ops s st \<Longrightarrow> stored_in_range ops s' st' \<and> prefix_Contains (family_range six s') a"
    by blast+
qed

lemma LoadDomain_injective:
  "inv st \<Longrightarrow> st_LoadDomain ops d six st = Some a \<Longrightarrow> st_LoadDomain ops d' six' st = Some a \<Longrightarrow> d = d'"
  by (metis LoadDomain_Load option.inject)

lemma create_all_ok:
  assumes "\<forall>(domain, six) \<in> set requests. domain \<noteq> []" and "inv st" and "store_ok s" and "stored_in_range ops s st"
    and "create_all ops requests s st = (s', st')"
  shows "inv st' \<and> store_ok s' \<and> stored_in_range ops s' st' \<and> family_range x s' = family_range x s"
  using assms
proof (induction requests arbitrary: s st)
  case (Cons request requests)
  obtain domain six where request: "request = (domain, six)" by (cases request)
  obtain r s1 st1 where create: "store_Create ops domain six s st = (r, s1, st1)"
    by (cases "store_Create ops domain six s st") auto
  have "inv st1 \<and> store_ok s1 \<and> stored_in_range ops s1 st1 \<and> family_range x s1 = family_range x s"
  proof (cases r)
    case (Inl e)
    then show ?thesis
      using create Cons.prems by (auto simp: store_Create_def split: option.splits sum.splits)
  next
    case (Inr a)
    then show ?thesis
      using create request Cons.prems Create_cases [of st s domain six a s1 st1] by simp
  qed
  then show ?case
    using Cons.IH [of st1 s1] Cons.prems request create by simp
qed simp

end

section \<open>The memory storage keeps the contract\<close>

definition memory_inv :: "MemoryStorage \<Rightarrow> bool" where
  "memory_inv s \<longleftrightarrow> (\<forall>d six a. memory_FakeIPLoadDomain d six s = Some a \<longrightarrow>
     addressCache s a = Some d \<and> addr_IsValid a \<and> \<not> addr_hasZone a \<and> addr_Is4 a = (\<not> six))"

lemma memory_LoadDomain_Store:
  "memory_FakeIPLoadDomain d six (snd (memory_FakeIPStore a domain st)) =
     (if addr_Is4 a = six then memory_FakeIPLoadDomain d six st
      else if d = domain then Some a
      else if addressCache st a = Some d then None
      else memory_FakeIPLoadDomain d six st)"
  by (auto simp: memory_FakeIPLoadDomain_def memory_FakeIPStore_def replace_domain_def Let_def split: option.splits)

lemma memory_Load_Store: "addressCache (snd (memory_FakeIPStore a domain st)) = (addressCache st)(a \<mapsto> domain)"
  by (simp add: memory_FakeIPStore_def Let_def)

lemma memory_Store_inv:
  "memory_inv st \<Longrightarrow> addr_IsValid a \<Longrightarrow> \<not> addr_hasZone a \<Longrightarrow> memory_inv (snd (memory_FakeIPStore a domain st))"
  unfolding memory_inv_def memory_LoadDomain_Store memory_Load_Store by (auto split: if_splits)

interpretation memory: storage_contract memory_storage memory_inv
  by unfold_locales
    (auto simp: memory_storage_def memory_Store_inv memory_LoadDomain_Store memory_Load_Store memory_FakeIPLoad_def
      memory_inv_def)

section \<open>The cache file keeps the contract\<close>

text \<open>\<^verbatim>\<open>M.AddrFromIP\<close> reads the bytes of an address.\<close>

definition address_law :: "golib \<Rightarrow> bool" where
  "address_law lib \<longleftrightarrow> (\<forall>a. \<not> addr_hasZone a \<longrightarrow> AddrFromIP lib (addr_AsSlice a) = a)"

definition domain_bucket :: "bool \<Rightarrow> CacheStorage \<Rightarrow> (string \<rightharpoonup> byte list)" where
  "domain_bucket six c = bucket_of (if six then bucketFakeIPDomain6 c else bucketFakeIPDomain4 c)"

definition cache_inv :: "golib \<Rightarrow> CacheStorage \<Rightarrow> bool" where
  "cache_inv lib c \<longleftrightarrow> address_law lib \<and>
     (\<forall>b. bucket_of (bucketFakeIP c) b \<noteq> Some []) \<and>
     (\<forall>d six b. domain_bucket six c d = Some b \<longrightarrow>
        (\<exists>a. b = addr_AsSlice a \<and> bucket_of (bucketFakeIP c) b = Some d \<and> addr_IsValid a \<and> \<not> addr_hasZone a \<and>
          addr_Is4 a = (\<not> six)))"

lemma addr_AsSlice_inject:
  "address_law lib \<Longrightarrow> \<not> addr_hasZone a \<Longrightarrow> \<not> addr_hasZone b \<Longrightarrow> addr_AsSlice a = addr_AsSlice b \<longleftrightarrow> a = b"
  unfolding address_law_def by metis

lemma addr_AsSlice_Nil [simp]: "addr_AsSlice a = [] \<longleftrightarrow> \<not> addr_IsValid a"
  by (cases a) (simp_all add: addr_IsValid_def)

lemma cache_LoadDomain:
  assumes "address_law lib"
  shows "cache_FakeIPLoadDomain lib d six c =
    (case domain_bucket six c d of
       None \<Rightarrow> None
     | Some b \<Rightarrow> if addr_IsValid (AddrFromIP lib b) then Some (AddrFromIP lib b) else None)"
proof -
  have "AddrFromIP lib [] = AddrInvalid"
    using assms unfolding address_law_def by (metis addr_AsSlice.simps(1) addr_hasZone.simps(2))
  then show ?thesis
    by (auto simp: cache_FakeIPLoadDomain_def domain_bucket_def bucket_of_def Let_def addr_IsValid_def split: option.splits)
qed

lemma bucket_of_Some [simp]: "bucket_of (Some m) = m"
  by (simp add: bucket_of_def)

lemma cache_Store:
  assumes "domain \<noteq> []" and "addr_IsValid a"
  shows "bucket_of (bucketFakeIP (snd (cache_FakeIPStore a domain c))) = (bucket_of (bucketFakeIP c))(addr_AsSlice a \<mapsto> domain)"
    and "domain_bucket six (snd (cache_FakeIPStore a domain c)) =
      (if addr_Is4 a = six then domain_bucket six c
       else replace_domain (bucket_of (bucketFakeIP c) (addr_AsSlice a)) domain (addr_AsSlice a) (domain_bucket six c))"
  using assms by (auto simp: cache_FakeIPStore_def domain_bucket_def Let_def)

lemma replace_domain_apply:
  "replace_domain old d' x m d = (if d = d' then Some x else if old = Some d then None else m d)"
  by (auto simp: replace_domain_def split: option.splits)

lemma cache_Store_inv:
  assumes "cache_inv lib c" and "domain \<noteq> []" and "addr_IsValid a" and "\<not> addr_hasZone a"
  shows "cache_inv lib (snd (cache_FakeIPStore a domain c))"
proof -
  let ?c = "snd (cache_FakeIPStore a domain c)"
  have "\<exists>a. b = addr_AsSlice a \<and> bucket_of (bucketFakeIP ?c) b = Some d \<and> addr_IsValid a \<and> \<not> addr_hasZone a \<and> addr_Is4 a = (\<not> six)"
    if d: "domain_bucket six ?c d = Some b" for d six b
  proof (cases "addr_Is4 a = six \<or> d \<noteq> domain")
    case True
    then have old: "domain_bucket six c d = Some b" "addr_Is4 a \<noteq> six \<Longrightarrow> bucket_of (bucketFakeIP c) (addr_AsSlice a) \<noteq> Some d"
      using d assms(2,3) by (auto simp: cache_Store replace_domain_apply split: if_splits)
    then obtain a' where a': "b = addr_AsSlice a'" "bucket_of (bucketFakeIP c) b = Some d" "addr_IsValid a'"
        "\<not> addr_hasZone a'" "addr_Is4 a' = (\<not> six)"
      using assms(1) unfolding cache_inv_def by blast
    moreover have "addr_AsSlice a \<noteq> b"
      using a' old assms(1,4) addr_AsSlice_inject [of lib a a'] by (auto simp: cache_inv_def)
    ultimately show ?thesis
      using assms(2,3) by (auto simp: cache_Store)
  next
    case False
    then show ?thesis
      using d assms(2-4) by (auto simp: cache_Store replace_domain_apply)
  qed
  then show ?thesis
    using assms by (auto simp: cache_inv_def cache_Store)
qed

lemma cache_LoadDomain_inv:
  assumes "cache_inv lib c" and "\<not> addr_hasZone a"
  shows "cache_FakeIPLoadDomain lib d six c = Some a \<longleftrightarrow> domain_bucket six c d = Some (addr_AsSlice a)"
proof -
  have law: "address_law lib" using assms(1) by (simp add: cache_inv_def)
  show ?thesis
  proof (cases "domain_bucket six c d")
    case None
    then show ?thesis by (simp add: cache_LoadDomain [OF law])
  next
    case (Some b)
    then obtain a' where "b = addr_AsSlice a'" "addr_IsValid a'" "\<not> addr_hasZone a'"
      using assms(1) unfolding cache_inv_def by blast
    then show ?thesis
      using Some law assms(2) addr_AsSlice_inject [OF law, of a a']
      by (auto simp: cache_LoadDomain [OF law] address_law_def)
  qed
qed

lemma cache_LoadDomain_family:
  assumes "cache_inv lib c" and "cache_FakeIPLoadDomain lib d six c = Some a"
  shows "domain_bucket six c d = Some (addr_AsSlice a) \<and> bucket_of (bucketFakeIP c) (addr_AsSlice a) = Some d \<and>
    addr_IsValid a \<and> \<not> addr_hasZone a \<and> addr_Is4 a = (\<not> six)"
proof -
  have law: "address_law lib" using assms(1) by (simp add: cache_inv_def)
  obtain b where "domain_bucket six c d = Some b" "a = AddrFromIP lib b"
    using assms(2) by (auto simp: cache_LoadDomain [OF law] split: option.splits if_splits)
  then show ?thesis
    using assms(1) law unfolding cache_inv_def address_law_def by metis
qed

lemma cache_Load: "cache_inv lib c \<Longrightarrow> cache_FakeIPLoad a c = bucket_of (bucketFakeIP c) (addr_AsSlice a)"
  by (auto simp: cache_inv_def cache_FakeIPLoad_def split: option.splits)

lemma cache_LoadDomain_Store:
  assumes "cache_inv lib c" and "domain \<noteq> []" and "addr_IsValid a" and "\<not> addr_hasZone a"
  shows "cache_FakeIPLoadDomain lib d six (snd (cache_FakeIPStore a domain c)) =
    (if addr_Is4 a = six then cache_FakeIPLoadDomain lib d six c
     else if d = domain then Some a
     else if cache_FakeIPLoad a c = Some d then None
     else cache_FakeIPLoadDomain lib d six c)"
proof -
  have law: "address_law lib" using assms(1) by (simp add: cache_inv_def)
  then have "AddrFromIP lib (addr_AsSlice a) = a" using assms(4) by (simp add: address_law_def)
  then show ?thesis
    using assms by (simp add: cache_LoadDomain [OF law] cache_Store cache_Load [OF assms(1)] replace_domain_apply)
qed

lemma cache_Async:
  "bucketFakeIP (cache_FakeIPSaveMetadataAsync m c) = bucketFakeIP c"
  "bucketFakeIPDomain4 (cache_FakeIPSaveMetadataAsync m c) = bucketFakeIPDomain4 c"
  "bucketFakeIPDomain6 (cache_FakeIPSaveMetadataAsync m c) = bucketFakeIPDomain6 c"
  "domain_bucket six (cache_FakeIPSaveMetadataAsync m c) = domain_bucket six c"
  by (simp_all add: cache_FakeIPSaveMetadataAsync_def domain_bucket_def split: option.split)

interpretation cache: storage_contract "cache_storage lib" "cache_inv lib" for lib
proof unfold_locales
  fix st :: CacheStorage and domain d :: string and a b :: addr and six :: bool and m :: FakeIPMetadata
  assume inv: "cache_inv lib st"
  show "cache_inv lib (st_SaveMetadataAsync (cache_storage lib) m st)"
    using inv by (simp add: cache_storage_def cache_inv_def cache_Async)
  { assume "st_LoadDomain (cache_storage lib) d six st = Some a"
    then show "st_Load (cache_storage lib) a st = Some d"
      and "addr_IsValid a \<and> \<not> addr_hasZone a \<and> addr_Is4 a = (\<not> six)"
      using cache_LoadDomain_family [OF inv] by (simp_all add: cache_storage_def cache_Load [OF inv]) }
  assume a: "domain \<noteq> []" "addr_IsValid a" "\<not> addr_hasZone a"
  show inv': "cache_inv lib (snd (st_Store (cache_storage lib) a domain st))"
    using cache_Store_inv [OF inv a] by (simp add: cache_storage_def)
  { assume "\<not> addr_hasZone b"
    then show "st_Load (cache_storage lib) b (snd (st_Store (cache_storage lib) a domain st)) =
        (if b = a then Some domain else st_Load (cache_storage lib) b st)"
      using a inv cache_Load [OF inv'] cache_Load [OF inv] addr_AsSlice_inject [of lib a b]
      by (auto simp: cache_storage_def cache_Store cache_inv_def) }
  show "st_LoadDomain (cache_storage lib) d six (snd (st_Store (cache_storage lib) a domain st)) =
      (if addr_Is4 a = six then st_LoadDomain (cache_storage lib) d six st
       else if d = domain then Some a
       else if st_Load (cache_storage lib) a st = Some d then None
       else st_LoadDomain (cache_storage lib) d six st)"
    using cache_LoadDomain_Store [OF inv a] by (simp add: cache_storage_def)
qed (simp_all add: cache_storage_def cache_FakeIPLoad_def cache_FakeIPLoadDomain_def cache_Async)

section \<open>Properties\<close>

lemma NewMemoryStorage_empty [simp]: "memory_FakeIPLoadDomain d six NewMemoryStorage = None"
  by (simp add: memory_FakeIPLoadDomain_def NewMemoryStorage_def)

lemma fresh_store_ok:
  assumes "range_ok False range4" and "range_ok True range6"
  shows "store_ok (fresh_ranges (NewStore range4 range6))"
  unfolding store_ok_def using assms
  by (simp add: all_bool_eq family_range_def family_current_def fresh_ranges_def NewStore_def addr_IsValid_def)

lemma fresh_store_range: "family_range six (fresh_ranges (NewStore range4 range6)) = (if six then range6 else range4)"
  by (simp add: family_range_def fresh_ranges_def NewStore_def)

lemma start_memory:
  "store_Start memory_storage s st = (fresh_ranges s, NewMemoryStorage)"
  "memory_inv NewMemoryStorage" "stored_in_range memory_storage s NewMemoryStorage"
  by (simp_all add: store_Start_def memory_storage_def memory_FakeIPReset_def memory_inv_def stored_in_range_def)

lemma created_address:
  assumes "range_ok False range4" and "range_ok True range6"
    and "\<forall>(d, six) \<in> set requests. d \<noteq> []" and "domain \<noteq> []"
    and "store_Start memory_storage (NewStore range4 range6) st = (s0, st0)"
    and "create_all memory_storage requests s0 st0 = (s1, st1)"
    and "store_Create memory_storage domain isIPv6 s1 st1 = (Inr address, s2, st2)"
  shows "prefix_Contains (if isIPv6 then range6 else range4) address \<and> store_Contains s2 address \<and>
    store_Lookup memory_storage address st2 = Some domain \<and>
    store_Create memory_storage domain isIPv6 s2 st2 = (Inr address, s2, st2) \<and>
    (\<forall>d six. st_LoadDomain memory_storage d six st2 = Some address \<longrightarrow> d = domain)"
proof -
  have start: "memory_inv st0" "store_ok s0" "stored_in_range memory_storage s0 st0"
      "family_range x s0 = (if x then range6 else range4)" for x
    using assms(5) fresh_store_ok [OF assms(1,2)] by (auto simp: start_memory fresh_store_range)
  have run: "memory_inv st1 \<and> store_ok s1 \<and> stored_in_range memory_storage s1 st1 \<and> family_range x s1 = family_range x s0" for x
    using start(1-3) assms(3,6) by (intro memory.create_all_ok) auto
  then have pre: "memory_inv st1" "store_ok s1" "stored_in_range memory_storage s1 st1" by simp_all
  note create = memory.Create_cases [OF pre(1,2) assms(4,7)]
  have contains: "prefix_Contains (family_range isIPv6 s2) address"
    using create(6) [OF pre(3)] by simp
  have "family_range isIPv6 s2 = (if isIPv6 then range6 else range4)"
    using create(5) [of isIPv6] run [of isIPv6] start(4) [of isIPv6] by simp
  moreover have "store_Contains s2 address"
    using contains by (auto simp: store_Contains_def family_range_def split: if_splits)
  moreover have "store_Create memory_storage domain isIPv6 s2 st2 = (Inr address, s2, st2)"
    by (simp add: store_Create_def create(3))
  moreover have "\<forall>d six. st_LoadDomain memory_storage d six st2 = Some address \<longrightarrow> d = domain"
    using memory.LoadDomain_injective [OF create(1)] create(3) by blast
  ultimately show ?thesis
    using contains create(4) by (simp add: store_Lookup_def)
qed



lemma saved_metadata:
  assumes "metadata_ok (store_metadata s)" and "c' = snd (cache_FakeIPSaveMetadata (store_metadata s) c)"
  shows "cache_FakeIPMetadata c' = (Some (store_metadata s), c'\<lparr>keyMetadata := None\<rparr>)"
proof -
  have "metadata_MarshalBinary (store_metadata s) \<noteq> []"
    by (simp add: metadata_MarshalBinary_def put_element_def)
  then show ?thesis
    using assms by (simp add: cache_FakeIPMetadata_def cache_FakeIPSaveMetadata_def metadata_binary_roundtrip)
qed

lemma saved_loads:
  "domain_bucket six (snd (cache_FakeIPSaveMetadata m c)) = domain_bucket six c"
  "cache_FakeIPLoad a (snd (cache_FakeIPSaveMetadata m c)) = cache_FakeIPLoad a c"
  "cache_FakeIPLoadDomain lib d six (snd (cache_FakeIPSaveMetadata m c)) = cache_FakeIPLoadDomain lib d six c"
  by (simp_all add: cache_FakeIPSaveMetadata_def domain_bucket_def cache_FakeIPLoad_def cache_FakeIPLoadDomain_def)

lemma cleared_loads [simp]:
  "cache_FakeIPLoad a (c\<lparr>keyMetadata := k\<rparr>) = cache_FakeIPLoad a c"
  "cache_FakeIPLoadDomain lib d six (c\<lparr>keyMetadata := k\<rparr>) = cache_FakeIPLoadDomain lib d six c"
  by (simp_all add: cache_FakeIPLoad_def cache_FakeIPLoadDomain_def)

lemma start_saved:
  assumes "metadata_ok (store_metadata s)"
    and "s = (NewStore range4 range6)\<lparr>inet4Current := current4, inet6Current := current6\<rparr>"
    and "c' = snd (cache_FakeIPSaveMetadata (store_metadata s) c)"
  shows "store_Start (cache_storage lib) (NewStore range4 range6) c' = (s, c'\<lparr>keyMetadata := None\<rparr>)"
  using saved_metadata [OF assms(1,3)] assms(2)
  by (simp add: store_Start_def cache_storage_def store_metadata_def NewStore_def)

text \<open>C30: A store on the cache file that is closed and started again with the same ranges continues where it was: it has the
  current addresses it had, through the binary form of the metadata, and every domain keeps its address.\<close>

theorem fakeip_restart:
  assumes "prefix_ok range4" and "prefix_ok range6" and "\<not> addr_hasZone current4" and "\<not> addr_hasZone current6"
    and "s = (NewStore range4 range6)\<lparr>inet4Current := current4, inet6Current := current6\<rparr>"
  shows "\<exists>c1 c2. store_Close (cache_storage lib) s (Some c) = (None, Some c1) \<and>
    store_Start (cache_storage lib) (NewStore range4 range6) c1 = (s, c2) \<and>
    (\<forall>d six. cache_FakeIPLoadDomain lib d six c2 = cache_FakeIPLoadDomain lib d six c) \<and>
    (\<forall>a. cache_FakeIPLoad a c2 = cache_FakeIPLoad a c)"
proof -
  let ?c1 = "snd (cache_FakeIPSaveMetadata (store_metadata s) c)"
  let ?c2 = "?c1\<lparr>keyMetadata := None\<rparr>"
  have "metadata_ok (store_metadata s)"
    using assms by (simp add: metadata_ok_def store_metadata_def NewStore_def)
  then have "store_Start (cache_storage lib) (NewStore range4 range6) ?c1 = (s, ?c2)"
    by (rule start_saved [OF _ assms(5) refl])
  moreover have "store_Close (cache_storage lib) s (Some c) = (None, Some ?c1)"
    by (simp add: store_Close_def cache_storage_def cache_FakeIPSaveMetadata_def)
  ultimately show ?thesis
    by (intro exI [of _ ?c1] exI [of _ ?c2]) (simp add: saved_loads)
qed

definition empty_cache :: CacheStorage where
  "empty_cache = \<lparr>bucketFakeIP = None, bucketFakeIPDomain4 = None, bucketFakeIPDomain6 = None, keyMetadata = None,
     saveMetadataTimer = None\<rparr>"

theorem fakeip_restart_witness:
  "\<exists>c1 c2. store_Close (cache_storage sample_lib)
      ((NewStore (Prefix (Addr4 0xC6120000) (Some 15)) prefix_zero)\<lparr>inet4Current := Addr4 0xC6120009, inet6Current := AddrInvalid\<rparr>)
      (Some empty_cache) = (None, Some c1) \<and>
    inet4Current (fst (store_Start (cache_storage sample_lib) (NewStore (Prefix (Addr4 0xC6120000) (Some 15)) prefix_zero) c1))
      = Addr4 0xC6120009"
  using fakeip_restart [of "Prefix (Addr4 0xC6120000) (Some 15)" prefix_zero "Addr4 0xC6120009" AddrInvalid _ sample_lib
      empty_cache, OF _ _ _ _ refl]
  by (auto simp: prefix_ok_def prefix_zero_def addr_IsValid_def)

text \<open>C31: When only one family was used, the cache file cannot be reset, since the bucket of the other family does not exist:
  after the ranges changed, the store still returns the addresses of the old ranges for the domains it knew.\<close>

theorem fakeip_range_change_ignored:
  assumes "bucketFakeIPDomain6 c = None" and "cache_FakeIPLoadDomain lib domain False c = Some address"
    and "metadata_ok (store_metadata s)" and "(inet4Range s, inet6Range s) \<noteq> (range4, range6)"
    and "store_Close (cache_storage lib) s (Some c) = (e, Some c1)"
    and "store_Start (cache_storage lib) (NewStore range4 range6) c1 = (s2, c2)"
  shows "fst (store_Reset (cache_storage lib) c1) \<noteq> None \<and>
    store_Create (cache_storage lib) domain False s2 c2 = (Inr address, s2, c2)"
proof -
  have c1: "c1 = snd (cache_FakeIPSaveMetadata (store_metadata s) c)"
    using assms(5) by (auto simp: store_Close_def cache_storage_def split: prod.splits)
  then have none: "bucketFakeIPDomain6 c1 = None"
    using assms(1) by (simp add: cache_FakeIPSaveMetadata_def)
  have "c2 = c1\<lparr>keyMetadata := None\<rparr>"
    using assms(4,6) none saved_metadata [OF assms(3) c1]
    by (auto simp: store_Start_def cache_storage_def store_metadata_def NewStore_def cache_FakeIPReset_def split: if_splits)
  then have "cache_FakeIPLoadDomain lib domain False c2 = Some address"
    using assms(2) by (simp add: c1 saved_loads)
  then show ?thesis
    using none by (simp add: store_Reset_def store_Create_def cache_storage_def cache_FakeIPReset_def)
qed

lemma store_Start_ranges:
  "inet4Range (fst (store_Start ops s st)) = inet4Range s" "inet6Range (fst (store_Start ops s st)) = inet6Range s"
  by (simp_all add: store_Start_def fresh_ranges_def split: prod.split option.split)

definition sample_cache :: CacheStorage where
  "sample_cache = snd (snd (store_Create (cache_storage sample_lib) ''a.example'' False
     (fresh_ranges (NewStore (Prefix (Addr4 0xC6120000) (Some 15)) prefix_zero)) empty_cache))"

theorem fakeip_range_change_ignored_witness:
  "let s = NewStore (Prefix (Addr4 0xC6120000) (Some 15)) prefix_zero;
       c1 = snd (store_Close (cache_storage sample_lib) s (Some sample_cache));
       restarted = store_Start (cache_storage sample_lib) (NewStore (Prefix (Addr4 0x0A000000) (Some 8)) prefix_zero) (the c1);
       result = store_Create (cache_storage sample_lib) ''a.example'' False (fst restarted) (snd restarted)
   in fst result = Inr (Addr4 0xC6120002) \<and> \<not> store_Contains (fst (snd result)) (Addr4 0xC6120002)"
proof -
  let ?s = "NewStore (Prefix (Addr4 0xC6120000) (Some 15)) prefix_zero"
  let ?c1 = "snd (cache_FakeIPSaveMetadata (store_metadata ?s) sample_cache)"
  let ?restarted = "store_Start (cache_storage sample_lib) (NewStore (Prefix (Addr4 0x0A000000) (Some 8)) prefix_zero) ?c1"
  have close: "store_Close (cache_storage sample_lib) ?s (Some sample_cache) = (None, Some ?c1)"
    by (simp add: store_Close_def cache_storage_def cache_FakeIPSaveMetadata_def)
  have start: "?restarted = (fst ?restarted, snd ?restarted)"
    by simp
  have known: "bucketFakeIPDomain6 sample_cache = None"
      "cache_FakeIPLoadDomain sample_lib ''a.example'' False sample_cache = Some (Addr4 0xC6120002)"
    by code_simp+
  have ok: "metadata_ok (store_metadata ?s)"
    by (simp add: metadata_ok_def store_metadata_def NewStore_def prefix_ok_def prefix_zero_def addr_IsValid_def)
  have ranges: "(inet4Range ?s, inet6Range ?s) \<noteq> (Prefix (Addr4 0x0A000000) (Some 8), prefix_zero)"
    by (simp add: NewStore_def)
  have "\<not> store_Contains (fst ?restarted) (Addr4 0xC6120002)"
    by (simp add: store_Contains_def store_Start_ranges NewStore_def prefix_Contains_def prefix_zero_def)
  then show ?thesis
    using fakeip_range_change_ignored [OF known ok ranges close start] close by (simp add: Let_def)
qed

lemma Create_new:
  assumes "st_LoadDomain ops domain six st = None" and "store_Create ops domain six s st = (Inr a, s', st')"
  shows "take_address six s = Inr (a, s')"
    and "st' = st_SaveMetadataAsync ops (store_metadata s') (snd (st_Store ops a domain st))"
  using assms by (auto simp: store_Create_def split: sum.splits)

lemma cache_Store_timer: "saveMetadataTimer (snd (cache_FakeIPStore a domain c)) = saveMetadataTimer c"
  by (simp add: cache_FakeIPStore_def Let_def)

text \<open>C32: The timer that saves the metadata keeps the metadata of the first request for ever, although later requests restart
  it: when the process ends without closing the store, the next one hands out addresses again that belong to domains
  stored before.\<close>

theorem fakeip_stale_metadata:
  assumes "saveMetadataTimer c = None"
    and "s = (NewStore range4 range6)\<lparr>inet4Current := x, inet6Current := y\<rparr>"
    and "cache_FakeIPLoadDomain lib d1 six c = None" and "store_Create (cache_storage lib) d1 six s c = (Inr a1, s1, c1)"
    and "cache_FakeIPLoadDomain lib d2 six c1 = None" and "store_Create (cache_storage lib) d2 six s1 c1 = (Inr a2, s2, c2)"
    and "metadata_ok (store_metadata s1)"
    and "store_Start (cache_storage lib) (NewStore range4 range6) ((cache_timer_fires c2)\<lparr>saveMetadataTimer := None\<rparr>) = (s3, c3)"
    and "cache_FakeIPLoadDomain lib d3 six c3 = None"
  shows "fst (store_Create (cache_storage lib) d3 six s3 c3) = Inr a2"
proof -
  have first: "take_address six s = Inr (a1, s1)" "saveMetadataTimer c1 = Some (store_metadata s1)"
    using Create_new [of "cache_storage lib", OF _ assms(4)] assms(1,3)
    by (simp_all add: cache_storage_def cache_FakeIPSaveMetadataAsync_def cache_Store_timer)
  have second: "take_address six s1 = Inr (a2, s2)" "saveMetadataTimer c2 = Some (store_metadata s1)"
    using Create_new [of "cache_storage lib", OF _ assms(6)] assms(5) first(2)
    by (simp_all add: cache_storage_def cache_FakeIPSaveMetadataAsync_def cache_Store_timer)
  let ?c = "c2\<lparr>saveMetadataTimer := None\<rparr>"
  have c: "(cache_timer_fires c2)\<lparr>saveMetadataTimer := None\<rparr> = snd (cache_FakeIPSaveMetadata (store_metadata s1) ?c)"
    using second(2) by (simp add: cache_timer_fires_def cache_FakeIPSaveMetadata_def)
  have s1: "s1 = (NewStore range4 range6)\<lparr>inet4Current := inet4Current s1, inet6Current := inet6Current s1\<rparr>"
    using first(1) by (auto simp: assms(2) take_address_def Let_def NewStore_def split: if_splits)
  have "s3 = s1"
    using assms(8) start_saved [OF assms(7) s1 refl, of lib ?c] unfolding c by simp
  then show ?thesis
    using assms(9) second(1) by (simp add: store_Create_def cache_storage_def)
qed

lemma timer_loads [simp]:
  "cache_FakeIPLoadDomain lib d six (c\<lparr>saveMetadataTimer := t\<rparr>) = cache_FakeIPLoadDomain lib d six c"
  "cache_FakeIPLoadDomain lib d six (cache_timer_fires c) = cache_FakeIPLoadDomain lib d six c"
  by (simp_all add: cache_timer_fires_def saved_loads split: option.split) (simp add: cache_FakeIPLoadDomain_def)

lemma reset_loads:
  "cache_FakeIPLoadDomain lib d six (cache_resetDB c) = None"
  "cache_FakeIPLoadDomain lib d six c = None \<Longrightarrow> cache_FakeIPLoadDomain lib d six (snd (cache_FakeIPReset c)) = None"
proof -
  show empty: "cache_FakeIPLoadDomain lib d six (cache_resetDB c) = None"
    by (simp add: cache_resetDB_def cache_FakeIPLoadDomain_def)
  have "snd (cache_FakeIPReset c) \<in> {c, cache_resetDB c}"
    by (simp add: cache_resetDB_def cache_FakeIPReset_def)
  then show "cache_FakeIPLoadDomain lib d six c = None \<Longrightarrow> cache_FakeIPLoadDomain lib d six (snd (cache_FakeIPReset c)) = None"
    using empty by auto
qed

lemma start_unknown:
  assumes "cache_FakeIPLoadDomain lib d six c = None"
  shows "cache_FakeIPLoadDomain lib d six (snd (store_Start (cache_storage lib) s c)) = None"
proof -
  have "cache_FakeIPLoadDomain lib d six (snd (cache_FakeIPMetadata c)) = None"
    using assms by (simp add: cache_FakeIPMetadata_def reset_loads split: option.split sum.split err.split)
  then show ?thesis
    by (auto simp: store_Start_def cache_storage_def reset_loads split: prod.split option.split)
qed

theorem fakeip_stale_metadata_witness:
  "let ops = cache_storage sample_lib; new = NewStore (Prefix (Addr4 0xC6120000) (Some 15)) prefix_zero;
       r1 = store_Create ops ''a.example'' False (fresh_ranges new) empty_cache;
       r2 = store_Create ops ''b.example'' False (fst (snd r1)) (snd (snd r1));
       restarted = store_Start ops new ((cache_timer_fires (snd (snd r2)))\<lparr>saveMetadataTimer := None\<rparr>)
   in fst r2 = Inr (Addr4 0xC6120003) \<and>
      fst (store_Create ops ''c.example'' False (fst restarted) (snd restarted)) = Inr (Addr4 0xC6120003)"
proof -
  let ?ops = "cache_storage sample_lib" and ?new = "NewStore (Prefix (Addr4 0xC6120000) (Some 15)) prefix_zero"
  let ?s = "fresh_ranges ?new"
  let ?r1 = "store_Create ?ops ''a.example'' False ?s empty_cache"
  let ?s1 = "fst (snd ?r1)" and ?c1 = "snd (snd ?r1)"
  let ?r2 = "store_Create ?ops ''b.example'' False ?s1 ?c1"
  let ?c2 = "(cache_timer_fires (snd (snd ?r2)))\<lparr>saveMetadataTimer := None\<rparr>"
  let ?restarted = "store_Start ?ops ?new ?c2"
  have s: "?s = ?new\<lparr>inet4Current := inet4Current ?s, inet6Current := inet6Current ?s\<rparr>"
    by (simp add: fresh_ranges_def NewStore_def prefix_zero_def)
  have addresses: "fst ?r1 = Inr (Addr4 0xC6120002)" "fst ?r2 = Inr (Addr4 0xC6120003)"
    by code_simp+
  have new: "saveMetadataTimer empty_cache = None" "cache_FakeIPLoadDomain sample_lib ''a.example'' False empty_cache = None"
      "cache_FakeIPLoadDomain sample_lib ''b.example'' False ?c1 = None" "metadata_ok (store_metadata ?s1)"
      "cache_FakeIPLoadDomain sample_lib ''c.example'' False (snd (snd ?r2)) = None"
    by code_simp+
  have "cache_FakeIPLoadDomain sample_lib ''c.example'' False (snd ?restarted) = None"
    using new(5) by (intro start_unknown) simp
  then show ?thesis
    using addresses fakeip_stale_metadata [OF new(1) s new(2) _ new(3) _ new(4), of "Addr4 0xC6120002" "Addr4 0xC6120003"]
    by (simp add: Let_def prod_eq_iff)
qed

section \<open>The order in which addresses are handed out\<close>

definition host :: "nat \<Rightarrow> 32 word \<Rightarrow> nat \<Rightarrow> addr" where
  "host h base j = Addr4 (base + of_nat j)"

lemma unat_of_nat_small: "j < 2 ^ 32 \<Longrightarrow> unat (of_nat j :: 32 word) = j"
  by (simp add: unsigned_of_nat take_bit_nat_eq_self)

lemma xor_or_disjoint:
  fixes x y :: "'a::len word"
  assumes "x AND y = 0"
  shows "x XOR (x OR y) = y"
proof (rule bit_word_eqI)
  fix n
  have "\<not> bit (x AND y) n" using assms by simp
  then show "bit (x XOR (x OR y)) n \<longleftrightarrow> bit y n" by (auto simp: bit_simps)
qed

lemma host_word:
  fixes base :: "32 word"
  assumes "base AND mask h = 0" and "j < 2 ^ h" and "h \<le> 32"
  shows "base AND of_nat j = 0" and "base + of_nat j = base OR of_nat j" and "drop_bit h (of_nat j :: 32 word) = 0"
    and "(of_nat j :: 32 word) = 0 \<longleftrightarrow> j = 0"
proof -
  have small: "j < 2 ^ 32"
    using assms(2,3) by (meson less_le_trans one_le_numeral power_increasing)
  have j: "take_bit h (of_nat j :: 32 word) = of_nat j"
    using assms(2) by (simp add: take_bit_of_nat take_bit_nat_eq_self)
  show disjoint: "base AND of_nat j = 0"
  proof -
    have "base AND of_nat j = base AND (of_nat j AND mask h)" using j by (simp add: take_bit_eq_mask)
    also have "\<dots> = (base AND mask h) AND of_nat j" by (simp add: ac_simps)
    finally show ?thesis using assms(1) by simp
  qed
  show "base + of_nat j = base OR of_nat j"
    by (rule disjunctive_add_eq_or [OF disjoint])
  show "drop_bit h (of_nat j :: 32 word) = 0"
    by (metis drop_bit_take_bit diff_self_eq_0 j take_bit_0)
  show "(of_nat j :: 32 word) = 0 \<longleftrightarrow> j = 0"
    using unat_of_nat_small [OF small] by auto
qed

lemma host_Next:
  assumes "base AND mask h = 0" and "h \<le> 32" and "Suc i < 2 ^ h"
  shows "addr_Next (host h base i) = host h base (Suc i)"
proof -
  have "base + of_nat (Suc i) \<noteq> 0"
    using host_word(2,4) [OF assms(1,3,2)] by (metis nat.distinct(1) or_eq_0_iff)
  then show ?thesis by (simp add: host_def ac_simps)
qed

lemma host_contains:
  assumes "range' = Prefix (Addr4 base) (Some (32 - h))" and "base AND mask h = 0" and "h \<le> 32" and "i < 2 ^ h"
  shows "prefix_Contains range' (host h base i)"
proof -
  note w = host_word [OF assms(2,4,3)]
  have "base XOR (base + of_nat i) = of_nat i"
    unfolding w(2) using w(1) by (simp add: xor_or_disjoint)
  then show ?thesis
    using w(3) assms(3) by (simp add: prefix_Contains_def assms(1) host_def)
qed

lemma host_step:
  assumes range: "range' = Prefix (Addr4 base) (Some (32 - h))" and base: "base AND mask h = 0"
    and h: "2 \<le> h" "h \<le> 32" and j: "Suc j < 2 ^ h"
  shows "next_address range' (broadcastAddress range') (host h base j) =
    (if Suc j = 2 ^ h - 1 then host h base 2 else host h base (Suc j))"
proof -
  note w = host_word [OF base _ h(2)]
  have size: "(2 :: nat) ^ h \<le> 2 ^ 32" and four: "(4 :: nat) \<le> 2 ^ h"
    using power_increasing [of h 32 "2::nat"] power_increasing [of 2 h "2::nat"] h by simp_all
  note next_host = host_Next [OF base h(2)]
  note contains = host_contains [OF range base h(2)]
  have last: "broadcastAddress range' = host h base (2 ^ h - 1)"
    using w(2) [of "2 ^ h - 1"] h by (simp add: broadcastAddress_def range host_def mask_eq_exp_minus_1)
  have inject: "host h base i = host h base i' \<longleftrightarrow> i = i'" if "i < 2 ^ h" "i' < 2 ^ h" for i i'
  proof
    assume "host h base i = host h base i'"
    then have "unat (of_nat i :: 32 word) = unat (of_nat i' :: 32 word)" by (simp add: host_def)
    then show "i = i'"
      unfolding unat_of_nat_small [OF less_le_trans [OF that(1) size]] unat_of_nat_small [OF less_le_trans [OF that(2) size]] .
  qed simp
  have first: "addr_Next (addr_Next (prefix_Addr range')) = host h base 2"
    using next_host [of 0] next_host [of 1] four by (simp add: range host_def numeral_2_eq_2)
  show ?thesis
    unfolding next_address_def Let_def next_host [OF j] first last
    using contains [OF j] inject [OF j, of "2 ^ h - 1"] by simp
qed


lemma host_rotation:
  assumes range: "range' = Prefix (Addr4 base) (Some (32 - h))" and base: "base AND mask h = 0"
    and h: "2 \<le> h" "h \<le> 32"
  shows "(next_address range' (broadcastAddress range') ^^ Suc k) (addr_Next (Addr4 base)) = host h base (2 + k mod (2 ^ h - 3))"
proof (induction k)
  case 0
  have four: "(4 :: nat) \<le> 2 ^ h"
    using power_increasing [of 2 h "2::nat"] h by simp
  have "addr_Next (Addr4 base) = host h base 1"
    using host_Next [OF base h(2), of 0] four by (simp add: host_def)
  moreover have "Suc 1 = 2 ^ h - 1 \<longrightarrow> False" using four by linarith
  ultimately show ?case
    using host_step [OF range base h, of 1] four by (simp add: numeral_2_eq_2 [symmetric])
next
  case (Suc k)
  have four: "(4 :: nat) \<le> 2 ^ h"
    using power_increasing [of 2 h "2::nat"] h by simp
  let ?m = "k mod (2 ^ h - 3)"
  have "0 < (2 :: nat) ^ h - 3" using four by linarith
  then have m: "?m < 2 ^ h - 3" by (rule mod_less_divisor)
  have "(next_address range' (broadcastAddress range') ^^ Suc (Suc k)) (addr_Next (Addr4 base)) =
      (if Suc (2 + ?m) = 2 ^ h - 1 then host h base 2 else host h base (Suc (2 + ?m)))"
    using Suc host_step [OF range base h, of "2 + ?m"] m by simp
  also have "\<dots> = host h base (2 + Suc k mod (2 ^ h - 3))"
  proof (cases "Suc ?m = 2 ^ h - 3")
    case True
    then have "Suc k mod (2 ^ h - 3) = 0" by (simp add: mod_Suc)
    moreover have "Suc (2 + ?m) = 2 ^ h - 1" using True four by linarith
    ultimately show ?thesis by simp
  next
    case False
    then have "Suc k mod (2 ^ h - 3) = Suc ?m" by (simp add: mod_Suc)
    moreover have "Suc (2 + ?m) \<noteq> 2 ^ h - 1" using False m by linarith
    ultimately show ?thesis by simp
  qed
  finally show ?case .
qed


lemma take_address4_valid:
  "addr_IsValid (inet4Current s) \<Longrightarrow>
   take_address False s = Inr (next_address (inet4Range s) (inet4Last s) (inet4Current s),
     s\<lparr>inet4Current := next_address (inet4Range s) (inet4Last s) (inet4Current s)\<rparr>)"
  by (simp add: take_address_def Let_def)

lemma Create_unknown:
  assumes "st_LoadDomain ops domain False st = None" and "addr_IsValid (inet4Current s)"
  shows "\<exists>st'. store_Create ops domain False s st =
    (Inr (next_address (inet4Range s) (inet4Last s) (inet4Current s)),
     s\<lparr>inet4Current := next_address (inet4Range s) (inet4Last s) (inet4Current s)\<rparr>, st')"
  using assms by (simp add: store_Create_def take_address4_valid)

context storage_contract
begin

lemma Create_others:
  assumes "inv st" and "store_ok s" and "domain \<noteq> []" and "store_Create ops domain six s st = (Inr a, s', st')"
    and "d \<noteq> domain" and "st_LoadDomain ops d x st = None"
  shows "st_LoadDomain ops d x st' = None"
proof (cases "st_LoadDomain ops domain six st")
  case None
  note new = Create_new [OF None assms(4)]
  show ?thesis
    using take_address_ok [OF new(1) assms(2)] assms(1,3,5,6) by (simp add: new(2) Async Store_LoadDomain)
next
  case (Some b)
  then show ?thesis
    using assms(4,6) by (simp add: store_Create_def)
qed

lemma create_all_new:
  assumes "inv st" and "store_ok s" and "addr_IsValid (inet4Current s)" and "distinct ds" and "[] \<notin> set ds"
    and "\<forall>d \<in> set (domain # ds). st_LoadDomain ops d False st = None" and "domain \<notin> set ds"
    and "create_all ops (map (\<lambda>d. (d, False)) ds) s st = (s', st')"
  shows "s' = s\<lparr>inet4Current := (next_address (inet4Range s) (inet4Last s) ^^ length ds) (inet4Current s)\<rparr> \<and>
    st_LoadDomain ops domain False st' = None \<and> addr_IsValid (inet4Current s')"
  using assms
proof (induction ds arbitrary: s st)
  case (Cons d ds)
  let ?a = "next_address (inet4Range s) (inet4Last s) (inet4Current s)"
  let ?s = "s\<lparr>inet4Current := ?a\<rparr>"
  obtain st1 where create: "store_Create ops d False s st = (Inr ?a, ?s, st1)"
    using Create_unknown [of ops d st s] Cons.prems(3,6) by auto
  have d: "d \<noteq> []" using Cons.prems(5) by auto
  note ok = Create_cases [OF Cons.prems(1,2) d create]
  have others: "\<forall>d' \<in> set (domain # ds). st_LoadDomain ops d' False st1 = None"
    using Create_others [OF Cons.prems(1,2) d create] Cons.prems(4,6,7) by (metis distinct.simps(2) list.set_intros set_ConsD)
  have "addr_IsValid (inet4Current ?s)"
    using take_address_ok [OF take_address4_valid [OF Cons.prems(3)] Cons.prems(2)] by simp
  then show ?case
    using Cons.IH [OF ok(1,2) _ _ _ others] Cons.prems(4,5,7,8) create by (auto simp: funpow_swap1)
qed simp

end

text \<open>C33: Until the range is exhausted, new domains get new addresses, in order: on an IPv4 range with \<open>h\<close> host bits the
  domain asked for after \<open>k\<close> others gets the address \<open>2 + k\<close> after the start of the range; the addresses repeat after
  \<open>2\<^sup>h - 3\<close> domains, so that the network address, the one after it and the broadcast address are never used.\<close>

theorem fakeip_rotation:
  assumes "range4 = Prefix (Addr4 base) (Some (32 - h))" and "base AND mask h = 0" and "2 \<le> h" and "h \<le> 32"
    and "range_ok True range6"
    and "distinct (domain # ds)" and "[] \<notin> set (domain # ds)"
    and "store_Start memory_storage (NewStore range4 range6) st = (s0, st0)"
    and "create_all memory_storage (map (\<lambda>d. (d, False)) ds) s0 st0 = (s1, st1)"
  shows "fst (store_Create memory_storage domain False s1 st1) = Inr (Addr4 (base + of_nat (2 + length ds mod (2 ^ h - 3))))"
proof -
  have four: "(4 :: nat) \<le> 2 ^ h"
    using power_increasing [of 2 h "2::nat"] assms(3) by simp
  have start: "s0 = fresh_ranges (NewStore range4 range6)" "st0 = NewMemoryStorage"
    using assms(8) by (simp_all add: start_memory)
  have next_base: "addr_Next (Addr4 base) = host h base 1" "addr_Next (host h base 1) = host h base 2"
    using host_Next [OF assms(2,4), of 0] host_Next [OF assms(2,4), of 1] four by (simp_all add: host_def numeral_2_eq_2)
  have fields: "inet4Range s0 = range4" "inet4Last s0 = broadcastAddress range4" "inet4Current s0 = addr_Next (Addr4 base)"
    by (simp_all add: start fresh_ranges_def NewStore_def assms(1) prefix_IsValid_def)
  have "prefix_Contains range4 (host h base 2)"
    using host_contains [OF assms(1,2,4), of 2] four by simp
  then have "range_ok False range4"
    unfolding next_base(2) [symmetric] next_base(1) [symmetric] by (simp add: range_ok_def assms(1) del: addr_Next.simps)
  then have ok: "store_ok s0"
    using fresh_store_ok assms(5) by (simp add: start)
  have unknown: "st_LoadDomain memory_storage d False st0 = None" for d
    by (simp add: start memory_storage_def)
  have valid: "addr_IsValid (inet4Current s0)"
    unfolding fields next_base by (simp add: host_def addr_IsValid_def)
  have inv: "memory_inv st0" and new: "\<forall>d \<in> set (domain # ds). st_LoadDomain memory_storage d False st0 = None"
      and ds: "distinct ds" "[] \<notin> set ds" "domain \<notin> set ds"
    using assms(6,7) unknown by (simp_all add: start start_memory)
  note run = memory.create_all_new [OF inv ok valid ds(1,2) new ds(3) assms(9), unfolded fields]
  have "fst (store_Create memory_storage domain False s1 st1) =
      Inr ((next_address range4 (broadcastAddress range4) ^^ Suc (length ds)) (addr_Next (Addr4 base)))"
    using Create_unknown [of memory_storage domain st1 s1] run fields by auto
  then show ?thesis
    unfolding host_rotation [OF assms(1-4)] by (simp add: host_def)
qed

theorem fakeip_rotation_witness:
  "fst (store_Create memory_storage ''c'' False
     (fst (create_all memory_storage (map (\<lambda>d. (d, False)) [''a'', ''b''])
       (fresh_ranges (NewStore (Prefix (Addr4 0xC6120000) (Some (32 - 2))) prefix_zero)) NewMemoryStorage))
     (snd (create_all memory_storage (map (\<lambda>d. (d, False)) [''a'', ''b''])
       (fresh_ranges (NewStore (Prefix (Addr4 0xC6120000) (Some (32 - 2))) prefix_zero)) NewMemoryStorage)))
   = Inr (Addr4 0xC6120002)"
proof -
  have zero: "(0xC6120000 :: 32 word) AND mask 2 = 0" "range_ok True prefix_zero"
    by (simp_all add: mask_eq_exp_minus_1 range_ok_def prefix_zero_def prefix_IsValid_def)
  show ?thesis
    using fakeip_rotation [OF refl zero(1) _ _ zero(2), of "''c''" "[''a'', ''b'']" NewMemoryStorage,
        OF _ _ _ _ start_memory(1) prod.collapse [symmetric]]
    by simp
qed

end
