(* ===== verification/Route_Match.thy ===== *)
theory Route_Match
  imports Rule_Route Dns_Router Outbound_Manager Peek Fakeip
begin

text \<open>
  How the router finds the rule for a connection (\<^verbatim>\<open>matchRule\<close>, \<^verbatim>\<open>actionSniff\<close> and
  \<^verbatim>\<open>actionResolve\<close> of \<^verbatim>\<open>src/route/route.go\<close>, \<^verbatim>\<open>src/route/process_cache.go\<close>): what is
  known of the process, the neighbour and the domain, and then the rules in order, each with its effect on the
  metadata, on the bytes read ahead and on the DNS client, until one is final.

  The components the router calls are the fields of \<open>route_env\<close>: the DNS router, the store of FakeIP, the
  outbound manager, the sniffers; \<open>dns_service\<close> and \<open>fakeip_service\<close> make the first two from their models. What
  a connection delivers is a list of events; the state of matching holds what is left of it. A call that does not return
  is \<open>None\<close>.
\<close>

section \<open>Components the router calls\<close>

datatype route_error = RouteError err | DNSError dns_error | Rejected rejection | NilError

type_synonym addr_port = "addr \<times> u16"

record 'd route_dns =
  rd_Lookup :: "string \<Rightarrow> DNSQueryOptions \<Rightarrow> InboundContext \<Rightarrow> 'd \<Rightarrow> (addr list dns_result \<times> 'd) option"
  rd_LookupReverseMapping :: "'d \<Rightarrow> addr \<Rightarrow> string option"

definition dns_service ::
    "router_ctx \<Rightarrow> 'c client_ops \<Rightarrow> (dns_error option \<Rightarrow> dns_error option \<Rightarrow> dns_error option) \<Rightarrow> int \<Rightarrow> (dns_router \<times> 'c) route_dns" where
  "dns_service x ops join timeNow = \<lparr>
     rd_Lookup = (\<lambda>domain options metadata (r, c).
       map_option (\<lambda>(result, r', c'). (result, (r', c'))) (router_Lookup x ops join timeNow domain options metadata r c)),
     rd_LookupReverseMapping = (\<lambda>(r, c) ip. LookupReverseMapping timeNow r ip)\<rparr>"

record fakeip_view =
  fv_Contains :: "addr \<Rightarrow> bool"
  fv_Lookup :: "addr \<Rightarrow> string option"

definition fakeip_service :: "'s fakeip_storage \<Rightarrow> Store \<Rightarrow> 's \<Rightarrow> fakeip_view" where
  "fakeip_service ops s st = \<lparr>fv_Contains = store_Contains s, fv_Lookup = (\<lambda>address. store_Lookup ops address st)\<rparr>"

record neighbor_resolver =
  nr_LookupMAC :: "addr \<Rightarrow> byte list option"
  nr_LookupHostname :: "addr \<Rightarrow> string option"

record 'd route_env =
  re_lib :: golib
  re_netenv :: netenv
  re_heap :: rule_set_heap
  re_sl :: snifflib
  re_dl :: dnslib
  re_dns :: "'d route_dns"
  re_fakeip :: "fakeip_view option"
  re_Transport :: "string \<Rightarrow> dns_transport option"
  re_IsDomainName :: "string \<Rightarrow> bool"
  re_AddrPort :: "socksaddr \<Rightarrow> addr_port"
  re_FindProcessInfo :: "(string \<times> addr_port \<times> addr_port \<Rightarrow> ConnectionOwner result) option"
  re_neighbor :: "neighbor_resolver option"

section \<open>What a connection delivers\<close>

type_synonym packet_buffer = "byte list \<times> socksaddr"

datatype packet_event = PacketCancelled err | PacketError err | PacketData packet_buffer

text \<open>The connection is a stream or a sequence of packets; before there is one (\<^verbatim>\<open>PreMatch\<close>) it is neither.\<close>

datatype input = NoInput | StreamInput "read_event list" | PacketInput "packet_event list"

record 'd match_state =
  ms_metadata :: InboundContext
  ms_dns :: 'd
  ms_input :: input
  ms_buffers :: "byte list list"
  ms_packetBuffers :: "packet_buffer list"

section \<open>Process information\<close>

type_synonym process_cache = "string \<times> addr_port \<times> addr_port \<rightharpoonup> ConnectionOwner result"

definition findProcessInfoCached ::
    "(string \<times> addr_port \<times> addr_port \<Rightarrow> ConnectionOwner result) \<Rightarrow> string \<Rightarrow> addr_port \<Rightarrow> addr_port \<Rightarrow> process_cache \<Rightarrow>
     ConnectionOwner result \<times> process_cache" where
  "findProcessInfoCached search network source destination cache =
     (let key = (network, source, destination)
      in case cache key of
           Some entry \<Rightarrow> (entry, cache)
         | None \<Rightarrow> let result = search key in (result, cache(key \<mapsto> result)))"

definition find_process :: "'d route_env \<Rightarrow> InboundContext \<Rightarrow> process_cache \<Rightarrow> InboundContext \<times> process_cache" where
  "find_process env metadata cache =
     (case re_FindProcessInfo env of
        None \<Rightarrow> (metadata, cache)
      | Some search \<Rightarrow>
          if ProcessInfo metadata \<noteq> None then (metadata, cache)
          else
            let originDestination =
                  (if sa_IsValid (re_lib env) (OriginDestination metadata) then re_AddrPort env (OriginDestination metadata)
                   else if sa_IsIP (re_lib env) (Destination metadata) then re_AddrPort env (Destination metadata)
                   else (AddrInvalid, 0))
            in case findProcessInfoCached search (Network metadata) (re_AddrPort env (Source metadata)) originDestination cache of
                 (Inl e, cache') \<Rightarrow> (metadata, cache')
               | (Inr processInfo, cache') \<Rightarrow> (metadata\<lparr>ProcessInfo := Some processInfo\<rparr>, cache'))"

definition find_neighbor :: "'d route_env \<Rightarrow> InboundContext \<Rightarrow> InboundContext" where
  "find_neighbor env metadata =
     (case re_neighbor env of
        None \<Rightarrow> metadata
      | Some resolver \<Rightarrow>
          if SourceMACAddress metadata = None \<and> addr_IsValid (sa_Addr (Source metadata)) then
            let metadata1 = (case nr_LookupMAC resolver (sa_Addr (Source metadata)) of
                   None \<Rightarrow> metadata | Some mac \<Rightarrow> metadata\<lparr>SourceMACAddress := Some mac\<rparr>)
            in case nr_LookupHostname resolver (sa_Addr (Source metadata)) of
                 None \<Rightarrow> metadata1 | Some hostname \<Rightarrow> metadata1\<lparr>SourceHostname := hostname\<rparr>
          else metadata)"

section \<open>The domain of the destination\<close>

definition find_domain :: "'d route_env \<Rightarrow> 'd \<Rightarrow> InboundContext \<Rightarrow> InboundContext result" where
  "find_domain env dns metadata =
     (let address = sa_Addr (Destination metadata);
          reverse =
            (if Domain metadata = [] then
               (case rd_LookupReverseMapping (re_dns env) dns address of
                  None \<Rightarrow> metadata | Some domain \<Rightarrow> metadata\<lparr>Domain := domain\<rparr>)
             else metadata)
      in case re_fakeip env of
           None \<Rightarrow> Inr reverse
         | Some fakeip \<Rightarrow>
             if addr_IsValid address \<and> fv_Contains fakeip address then
               (case fv_Lookup fakeip address of
                  None \<Rightarrow> Inl (Err ''missing fakeip record, try enable `experimental.cache_file`'')
                | Some domain \<Rightarrow>
                    if domain \<noteq> [] then
                      Inr (metadata\<lparr>OriginDestination := Destination metadata,
                        Destination := socksaddr_zero\<lparr>sa_Fqdn := domain, sa_Port := sa_Port (Destination metadata)\<rparr>,
                        FakeIP := True\<rparr>)
                    else Inr metadata)
             else Inr reverse)"

definition set_ip_version :: "golib \<Rightarrow> InboundContext \<Rightarrow> InboundContext" where
  "set_ip_version lib metadata =
     (if sa_IsIPv4 lib (Destination metadata) then metadata\<lparr>IPVersion := 4\<rparr>
      else if sa_IsIPv6 lib (Destination metadata) then metadata\<lparr>IPVersion := 6\<rparr>
      else metadata)"

section \<open>Route options\<close>

definition override_address :: "golib \<Rightarrow> RuleActionRouteOptions \<Rightarrow> InboundContext \<Rightarrow> InboundContext" where
  "override_address lib routeOptions metadata =
     (let address = ro_OverrideAddress routeOptions;
          metadata1 = (if (sa_IsValid lib address \<or> 0 < ro_OverridePort routeOptions) \<and>
                          \<not> sa_IsValid lib (RouteOriginalDestination metadata)
                       then metadata\<lparr>RouteOriginalDestination := Destination metadata\<rparr> else metadata);
          metadata2 = (if sa_IsValid lib address
                       then metadata1\<lparr>Destination := (Destination metadata1)\<lparr>sa_Addr := sa_Addr address, sa_Fqdn := sa_Fqdn address\<rparr>,
                              DestinationAddresses := []\<rparr>
                       else metadata1)
      in if 0 < ro_OverridePort routeOptions
         then metadata2\<lparr>Destination := (Destination metadata2)\<lparr>sa_Port := ro_OverridePort routeOptions\<rparr>\<rparr> else metadata2)"

definition apply_route_options :: "golib \<Rightarrow> RuleActionRouteOptions \<Rightarrow> InboundContext \<Rightarrow> InboundContext" where
  "apply_route_options lib o' metadata =
     (let m = override_address lib o' metadata
      in m\<lparr>NetworkStrategy := (if ro_NetworkStrategy o' \<noteq> None then ro_NetworkStrategy o' else NetworkStrategy m),
           NetworkType := (if slice (ro_NetworkType o') \<noteq> [] then slice (ro_NetworkType o') else NetworkType m),
           FallbackNetworkType := (if slice (ro_FallbackNetworkType o') \<noteq> [] then slice (ro_FallbackNetworkType o') else FallbackNetworkType m),
           FallbackDelay := (if ro_FallbackDelay o' \<noteq> 0 then ro_FallbackDelay o' else FallbackDelay m),
           UDPDisableDomainUnmapping := (UDPDisableDomainUnmapping m \<or> ro_UDPDisableDomainUnmapping o'),
           UDPConnect := (UDPConnect m \<or> ro_UDPConnect o'),
           UDPTimeout := (if ro_UDPTimeout o' > 0 then ro_UDPTimeout o' else UDPTimeout m),
           TLSFragment := (TLSFragment m \<or> ro_TLSFragment o'),
           TLSFragmentFallbackDelay := (if ro_TLSFragment o' then ro_TLSFragmentFallbackDelay o' else TLSFragmentFallbackDelay m),
           TLSRecordFragment := (TLSRecordFragment m \<or> ro_TLSRecordFragment o')\<rparr>)"

fun action_route_options :: "rule_action \<Rightarrow> RuleActionRouteOptions option" where
  "action_route_options (ActionRoute outbound o') = Some o'"
| "action_route_options (ActionRouteOptions o') = Some o'"
| "action_route_options _ = None"

fun rule_action_Type :: "rule_action \<Rightarrow> string" where
  "rule_action_Type (ActionRoute _ _) = RuleActionTypeRoute"
| "rule_action_Type (ActionRouteOptions _) = RuleActionTypeRouteOptions"
| "rule_action_Type (ActionBypass _ _) = RuleActionTypeBypass"
| "rule_action_Type (ActionDirect _) = RuleActionTypeDirect"
| "rule_action_Type (ActionReject _) = RuleActionTypeReject"
| "rule_action_Type ActionHijackDNS = RuleActionTypeHijackDNS"
| "rule_action_Type (ActionSniff _) = RuleActionTypeSniff"
| "rule_action_Type (ActionResolve _) = RuleActionTypeResolve"
| "rule_action_Type (ActionDNSRoute _ _) = RuleActionTypeRoute"
| "rule_action_Type (ActionEvaluate _ _) = RuleActionTypeEvaluate"
| "rule_action_Type ActionRespond = RuleActionTypeRespond"
| "rule_action_Type (ActionDNSRouteOptions _) = RuleActionTypeRouteOptions"
| "rule_action_Type (ActionPredefined _) = RuleActionTypePredefined"

section \<open>Sniffing\<close>

definition override_sniffed :: "'d route_env \<Rightarrow> RuleActionSniff \<Rightarrow> InboundContext \<Rightarrow> InboundContext" where
  "override_sniffed env act metadata =
     (if sniff_OverrideDestination act \<and> re_IsDomainName env (Domain metadata)
      then metadata\<lparr>Destination := socksaddr_zero\<lparr>sa_Fqdn := Domain metadata, sa_Port := sa_Port (Destination metadata)\<rparr>\<rparr>
      else metadata)"

definition needs_more_data :: "err option \<Rightarrow> bool" where
  "needs_more_data e \<longleftrightarrow> (case e of None \<Rightarrow> False | Some e' \<Rightarrow> errors_Is e' ErrNeedMoreData)"

definition failed_before :: "RuleActionSniff \<Rightarrow> InboundContext \<Rightarrow> bool" where
  "failed_before act metadata \<longleftrightarrow>
     SnifferNames metadata = sniff_SnifferNames act \<and> SniffError metadata \<noteq> None \<and> \<not> needs_more_data (SniffError metadata)"

definition sniff_stream ::
    "'d route_env \<Rightarrow> RuleActionSniff \<Rightarrow> read_event list \<Rightarrow> byte list list \<Rightarrow> InboundContext \<Rightarrow>
     byte list option \<times> InboundContext \<times> read_event list" where
  "sniff_stream env act reads inputBuffers metadata =
     (if sniff_StreamSniffers act = [] \<and> sniff_PacketSniffers act \<noteq> [] \<or> failed_before act metadata then (None, metadata, reads)
      else
        let streamSniffers = (if sniff_StreamSniffers act \<noteq> [] then sniff_StreamSniffers act else defaultStreamSniffers);
            peeked = PeekStream (re_sl env) (re_dl env) metadata reads inputBuffers streamSniffers;
            metadata1 = (pk_Metadata peeked)\<lparr>SnifferNames := sniff_SnifferNames act, SniffError := pk_Error peeked\<rparr>
        in (if pk_Buffer peeked \<noteq> [] then Some (pk_Buffer peeked) else None,
            if pk_Error peeked = None then override_sniffed env act metadata1 else metadata1,
            pk_Reads peeked))"

text \<open>One packet: the QUIC sniffer alone when an earlier packet had only a part of its handshake.\<close>

definition sniff_packet ::
    "'d route_env \<Rightarrow> RuleActionSniff \<Rightarrow> byte list \<Rightarrow> InboundContext \<Rightarrow> sniffed option" where
  "sniff_packet env act packet metadata =
     (let packetSniffers = (if sniff_PacketSniffers act \<noteq> [] then sniff_PacketSniffers act else defaultPacketSniffers);
          quicMoreData = (SnifferNames metadata = sniff_SnifferNames act \<and> needs_more_data (SniffError metadata))
      in map_option (\<lambda>(e, metadata'). (e, metadata'\<lparr>SnifferNames := sniff_SnifferNames act, SniffError := e\<rparr>))
           (PeekPacket (re_sl env) (re_dl env) metadata packet (if quicMoreData then [QUICClientHello] else packetSniffers)))"

text \<open>The packets read before, until one is decided.\<close>

fun sniff_buffered ::
    "'d route_env \<Rightarrow> RuleActionSniff \<Rightarrow> packet_buffer list \<Rightarrow> InboundContext \<Rightarrow> (err option option \<times> InboundContext) option" where
  "sniff_buffered env act [] metadata = Some (None, metadata)"
| "sniff_buffered env act ((packet, destination) # rest) metadata =
     (case sniff_packet env act packet metadata of
        None \<Rightarrow> None
      | Some (e, metadata') \<Rightarrow>
          if needs_more_data e then sniff_buffered env act rest metadata' else Some (Some e, metadata'))"

definition DeadlineExceeded :: err where "DeadlineExceeded = Err ''context deadline exceeded''"

record packets_sniffed =
  ps_Error :: "err option"
  ps_Fatal :: "err option"
  ps_Metadata :: InboundContext
  ps_Buffers :: "packet_buffer list"
  ps_Events :: "packet_event list"

fun sniff_reads ::
    "'d route_env \<Rightarrow> RuleActionSniff \<Rightarrow> packet_event list \<Rightarrow> packet_buffer list \<Rightarrow> InboundContext \<Rightarrow> packets_sniffed option" where
  "sniff_reads env act [] packetBuffers metadata =
     Some \<lparr>ps_Error = Some (Err ''i/o timeout''), ps_Fatal = Some (Err ''i/o timeout''), ps_Metadata = metadata,
       ps_Buffers = packetBuffers, ps_Events = []\<rparr>"
| "sniff_reads env act (PacketCancelled e # events) packetBuffers metadata =
     Some \<lparr>ps_Error = None, ps_Fatal = Some e, ps_Metadata = metadata, ps_Buffers = packetBuffers, ps_Events = events\<rparr>"
| "sniff_reads env act (PacketError e # events) packetBuffers metadata =
     Some \<lparr>ps_Error = Some e, ps_Fatal = (if errors_Is e DeadlineExceeded then None else Some e), ps_Metadata = metadata,
       ps_Buffers = packetBuffers, ps_Events = events\<rparr>"
| "sniff_reads env act (PacketData packet # events) packetBuffers metadata =
     (case sniff_packet env act (fst packet) metadata of
        None \<Rightarrow> None
      | Some (e, metadata') \<Rightarrow>
          if needs_more_data e then sniff_reads env act events (packetBuffers @ [packet]) metadata'
          else Some \<lparr>ps_Error = e, ps_Fatal = None, ps_Metadata = metadata', ps_Buffers = packetBuffers @ [packet], ps_Events = events\<rparr>)"

definition sniff_packets ::
    "'d route_env \<Rightarrow> RuleActionSniff \<Rightarrow> packet_event list \<Rightarrow> packet_buffer list \<Rightarrow> InboundContext \<Rightarrow> packets_sniffed option" where
  "sniff_packets env act events inputPacketBuffers metadata =
     (let unchanged = \<lparr>ps_Error = None, ps_Fatal = None, ps_Metadata = metadata, ps_Buffers = [], ps_Events = events\<rparr>
      in if sniff_PacketSniffers act = [] \<and> sniff_StreamSniffers act \<noteq> [] \<or> failed_before act metadata then Some unchanged
         else
           (case sniff_buffered env act inputPacketBuffers metadata of
              None \<Rightarrow> None
            | Some (Some e, metadata') \<Rightarrow>
                Some (unchanged\<lparr>ps_Error := e,
                  ps_Metadata := (if e = None then override_sniffed env act metadata' else metadata')\<rparr>)
            | Some (None, metadata') \<Rightarrow>
                map_option (\<lambda>r. if ps_Error r = None \<and> ps_Fatal r = None
                    then r\<lparr>ps_Metadata := override_sniffed env act (ps_Metadata r)\<rparr> else r)
                  (sniff_reads env act events inputPacketBuffers metadata')))"

text \<open>\<^verbatim>\<open>actionSniff\<close>, with what \<^verbatim>\<open>matchRule\<close> does with the buffers it returns. A panic of a sniffer is fatal.\<close>

definition panic_of :: "err option \<Rightarrow> err option" where
  "panic_of e = (case e of Some (Panic m) \<Rightarrow> Some (Panic m) | _ \<Rightarrow> None)"

definition actionSniff ::
    "'d route_env \<Rightarrow> RuleActionSniff \<Rightarrow> 'd match_state \<Rightarrow> (err option \<times> 'd match_state) option" where
  "actionSniff env act s =
     (let metadata = ms_metadata s
      in if Skip metadata \<or> Protocol metadata \<noteq> [] then Some (None, s)
         else
           (case ms_input s of
              NoInput \<Rightarrow> Some (None, s)
            | StreamInput reads \<Rightarrow>
                (case sniff_stream env act reads (ms_buffers s) metadata of
                   (buffer, metadata', reads') \<Rightarrow>
                     Some (None, s\<lparr>ms_metadata := metadata', ms_input := StreamInput reads',
                       ms_buffers := ms_buffers s @ (case buffer of None \<Rightarrow> [] | Some b \<Rightarrow> [b])\<rparr>))
            | PacketInput events \<Rightarrow>
                map_option (\<lambda>r.
                    (case panic_of (ps_Error r) of Some e \<Rightarrow> Some e | None \<Rightarrow> ps_Fatal r,
                     s\<lparr>ms_metadata := ps_Metadata r, ms_input := PacketInput (ps_Events r),
                       ms_packetBuffers := ms_packetBuffers s @ ps_Buffers r\<rparr>))
                  (sniff_packets env act events (ms_packetBuffers s) metadata)))"

section \<open>Resolving\<close>

definition resolve_options :: "RuleActionResolve \<Rightarrow> dns_transport option \<Rightarrow> DNSQueryOptions" where
  "resolve_options act transport = \<lparr>qo_Transport = transport, qo_Strategy = resolve_Strategy act,
     qo_LookupStrategy = DomainStrategyAsIS, qo_DisableCache = resolve_DisableCache act,
     qo_DisableOptimisticCache = resolve_DisableOptimisticCache act, qo_RewriteTTL = resolve_RewriteTTL act,
     qo_ClientSubnet = resolve_ClientSubnet act\<rparr>"

definition actionResolve ::
    "'d route_env \<Rightarrow> RuleActionResolve \<Rightarrow> 'd match_state \<Rightarrow> (route_error option \<times> 'd match_state) option" where
  "actionResolve env act s =
     (if \<not> sa_IsDomain (re_lib env) (Destination (ms_metadata s)) then Some (None, s)
      else
        let transport = (if resolve_Server act \<noteq> [] then re_Transport env (resolve_Server act) else None)
        in if resolve_Server act \<noteq> [] \<and> transport = None then Some (Some (RouteError (Err ''DNS server not found: '')), s)
           else
             map_option (\<lambda>(result, dns).
                 case result of
                   Inl e \<Rightarrow> (Some (DNSError e), s\<lparr>ms_dns := dns\<rparr>)
                 | Inr addresses \<Rightarrow> (None, s\<lparr>ms_dns := dns, ms_metadata := (ms_metadata s)\<lparr>DestinationAddresses := addresses\<rparr>\<rparr>))
               (rd_Lookup (re_dns env) (sa_Fqdn (Destination (ms_metadata s))) (resolve_options act transport) (ms_metadata s) (ms_dns s)))"

section \<open>The rules in order\<close>

record 'd matched =
  mr_selected :: "(route_rule \<times> nat) option"
  mr_fatal :: "route_error option"
  mr_state :: "'d match_state"

definition NetworkTCP :: string where "NetworkTCP = ''tcp''"
definition NetworkUDP :: string where "NetworkUDP = ''udp''"
definition NetworkICMP :: string where "NetworkICMP = ''icmp''"

text \<open>The effects of the action of a matching rule before it is decided whether the rule is final.\<close>

definition rule_effects ::
    "'d route_env \<Rightarrow> bool \<Rightarrow> rule_action \<Rightarrow> 'd match_state \<Rightarrow> (route_error option \<times> 'd match_state) option" where
  "rule_effects env preMatch act s =
     (let s1 = (case action_route_options act of
                  None \<Rightarrow> s
                | Some o' \<Rightarrow> s\<lparr>ms_metadata := apply_route_options (re_lib env) o' (ms_metadata s)\<rparr>)
      in case act of
           ActionSniff sniff \<Rightarrow>
             if \<not> preMatch then map_option (\<lambda>(e, s'). (map_option RouteError e, s')) (actionSniff env sniff s1) else Some (None, s1)
         | ActionResolve resolve \<Rightarrow> actionResolve env resolve s1
         | _ \<Rightarrow> Some (None, s1))"

definition final_action :: "bool \<Rightarrow> bool \<Rightarrow> InboundContext \<Rightarrow> rule_action \<Rightarrow> bool" where
  "final_action preMatch supportBypass metadata act \<longleftrightarrow>
     (case act of ActionSniff _ \<Rightarrow> preMatch \<and> Network metadata \<noteq> NetworkICMP | _ \<Rightarrow> False) \<or>
     rule_action_Type act \<in> {RuleActionTypeRoute, RuleActionTypeReject, RuleActionTypeHijackDNS} \<or>
     (case act of ActionBypass outbound _ \<Rightarrow> supportBypass \<or> outbound \<noteq> [] | _ \<Rightarrow> False)"

fun match_rules ::
    "'d route_env \<Rightarrow> bool \<Rightarrow> bool \<Rightarrow> route_rule list \<Rightarrow> nat \<Rightarrow> 'd match_state \<Rightarrow> 'd matched option" where
  "match_rules env preMatch supportBypass [] i s = Some \<lparr>mr_selected = None, mr_fatal = None, mr_state = s\<rparr>"
| "match_rules env preMatch supportBypass (rule # rules) i s =
     (case rule_Match (re_lib env) (re_netenv env) (re_heap env) rule (ResetRuleCache (ms_metadata s)) of
        (False, metadata) \<Rightarrow> match_rules env preMatch supportBypass rules (Suc i) (s\<lparr>ms_metadata := metadata\<rparr>)
      | (True, metadata) \<Rightarrow>
          (case rule_Action rule of
             None \<Rightarrow> Some \<lparr>mr_selected = None, mr_fatal = Some (RouteError (Panic ''nil pointer dereference'')),
               mr_state = s\<lparr>ms_metadata := metadata\<rparr>\<rparr>
           | Some act \<Rightarrow>
               (case rule_effects env preMatch act (s\<lparr>ms_metadata := metadata\<rparr>) of
                  None \<Rightarrow> None
                | Some (Some e, s') \<Rightarrow> Some \<lparr>mr_selected = None, mr_fatal = Some e, mr_state = s'\<rparr>
                | Some (None, s') \<Rightarrow>
                    if final_action preMatch supportBypass (ms_metadata s') act
                    then Some \<lparr>mr_selected = Some (rule, i), mr_fatal = None, mr_state = s'\<rparr>
                    else match_rules env preMatch supportBypass rules (Suc i) s')))"

definition matchRule ::
    "'d route_env \<Rightarrow> route_rule list \<Rightarrow> bool \<Rightarrow> bool \<Rightarrow> input \<Rightarrow> InboundContext \<Rightarrow> process_cache \<Rightarrow> 'd \<Rightarrow>
     ('d matched \<times> process_cache) option" where
  "matchRule env rules preMatch supportBypass input metadata cache dns =
     (case find_process env metadata cache of
        (metadata1, cache') \<Rightarrow>
          let metadata2 = find_neighbor env metadata1;
              start = (\<lambda>m. \<lparr>ms_metadata = m, ms_dns = dns, ms_input = input, ms_buffers = [], ms_packetBuffers = []\<rparr>)
          in case find_domain env dns metadata2 of
               Inl e \<Rightarrow> Some (\<lparr>mr_selected = None, mr_fatal = Some (RouteError e), mr_state = start metadata2\<rparr>, cache')
             | Inr metadata3 \<Rightarrow>
                 map_option (\<lambda>m. (m, cache'))
                   (match_rules env preMatch supportBypass rules 0 (start (set_ip_version (re_lib env) metadata3))))"

section \<open>The selected rule\<close>

lemma match_rules_selected:
  assumes "match_rules env preMatch supportBypass rules i s = Some m" and "mr_selected m = Some (rule, j)"
  shows "i \<le> j \<and> j < i + length rules \<and> rules ! (j - i) = rule \<and> mr_fatal m = None \<and>
    (\<exists>act. rule_Action rule = Some act \<and> final_action preMatch supportBypass (ms_metadata (mr_state m)) act)"
  using assms
proof (induction rules arbitrary: i s)
  case (Cons r rules)
  have later: ?case if "match_rules env preMatch supportBypass rules (Suc i) s' = Some m" for s'
    using Cons.IH [OF that Cons.prems(2)] by (auto simp: nth_Cons' Suc_diff_le)
  show ?case
    using Cons.prems later
    by (auto split: prod.splits bool.splits option.splits if_splits)
qed auto

section \<open>Streams\<close>

text \<open>The DNS router answers every lookup, without a panic.\<close>

definition lookup_ok :: "'d route_env \<Rightarrow> bool" where
  "lookup_ok env \<longleftrightarrow> (\<forall>domain options metadata dns. \<exists>result dns'.
     rd_Lookup (re_dns env) domain options metadata dns = Some (result, dns') \<and> (\<forall>p. result \<noteq> Inl (ErrOther (Panic p))))"

definition error_panics :: "route_error \<Rightarrow> bool" where
  "error_panics e \<longleftrightarrow> (\<exists>p. e = RouteError (Panic p) \<or> e = DNSError (ErrOther (Panic p)))"

lemma error_panics_simps [simp]:
  "\<not> error_panics (RouteError (Err m))" "error_panics (DNSError e) \<longleftrightarrow> (\<exists>p. e = ErrOther (Panic p))"
  by (simp_all add: error_panics_def)

definition is_stream :: "input \<Rightarrow> bool" where
  "is_stream i \<longleftrightarrow> (\<exists>reads. i = StreamInput reads)"

lemma actionSniff_stream:
  assumes "is_stream (ms_input s)"
  shows "\<exists>s'. actionSniff env act s = Some (None, s') \<and> is_stream (ms_input s')"
  using assms by (auto simp: actionSniff_def is_stream_def Let_def split: prod.split)

lemma actionResolve_ok:
  assumes "lookup_ok env"
  shows "\<exists>e s'. actionResolve env act s = Some (e, s') \<and> ms_input s' = ms_input s \<and> ms_buffers s' = ms_buffers s \<and>
    (\<forall>e'. e = Some e' \<longrightarrow> \<not> error_panics e')"
proof -
  let ?transport = "if resolve_Server act \<noteq> [] then re_Transport env (resolve_Server act) else None"
  obtain result dns' where "rd_Lookup (re_dns env) (sa_Fqdn (Destination (ms_metadata s))) (resolve_options act ?transport)
      (ms_metadata s) (ms_dns s) = Some (result, dns')" "\<forall>p. result \<noteq> Inl (ErrOther (Panic p))"
    using assms unfolding lookup_ok_def by blast
  then show ?thesis
    by (cases result) (auto simp: actionResolve_def Let_def)
qed

lemma rule_effects_stream:
  assumes "lookup_ok env" and "is_stream (ms_input s)"
  shows "\<exists>e s'. rule_effects env preMatch act s = Some (e, s') \<and> is_stream (ms_input s') \<and>
    (\<forall>e'. e = Some e' \<longrightarrow> \<not> error_panics e')"
proof -
  let ?s = "case action_route_options act of None \<Rightarrow> s
    | Some o' \<Rightarrow> s\<lparr>ms_metadata := apply_route_options (re_lib env) o' (ms_metadata s)\<rparr>"
  have stream: "is_stream (ms_input ?s)"
    using assms(2) by (simp split: option.split)
  show ?thesis
  proof (cases act)
    case (ActionSniff sniff)
    then show ?thesis
      using actionSniff_stream [OF stream, of env sniff] stream by (auto simp: rule_effects_def)
  next
    case (ActionResolve resolve)
    then show ?thesis
      using actionResolve_ok [OF assms(1), of resolve ?s] stream by (auto simp: rule_effects_def)
  qed (use stream in \<open>simp_all add: rule_effects_def\<close>)
qed

lemma match_rules_stream:
  assumes "lookup_ok env" and "is_stream (ms_input s)" and "\<forall>rule \<in> set rules. rule_Action rule \<noteq> None"
  shows "\<exists>m. match_rules env preMatch supportBypass rules i s = Some m \<and> (\<forall>e. mr_fatal m = Some e \<longrightarrow> \<not> error_panics e)"
  using assms(2,3)
proof (induction rules arbitrary: i s)
  case (Cons rule rules)
  obtain ok metadata where matched: "rule_Match (re_lib env) (re_netenv env) (re_heap env) rule (ResetRuleCache (ms_metadata s)) = (ok, metadata)"
    by fastforce
  obtain act where act: "rule_Action rule = Some act"
    using Cons.prems(2) by auto
  obtain e s' where effects: "rule_effects env preMatch act (s\<lparr>ms_metadata := metadata\<rparr>) = Some (e, s')" "is_stream (ms_input s')"
      "\<forall>e'. e = Some e' \<longrightarrow> \<not> error_panics e'"
    using rule_effects_stream [OF assms(1), of "s\<lparr>ms_metadata := metadata\<rparr>" preMatch act] Cons.prems(1) by auto
  show ?case
    using matched act effects Cons.IH [of s' "Suc i"] Cons.IH [of "s\<lparr>ms_metadata := metadata\<rparr>" "Suc i"] Cons.prems
    by (cases ok; cases e) auto
qed simp


section \<open>The first rule that matches\<close>

lemma default_matchStates_metadata:
  "\<exists>b. snd (default_matchStatesWithBase lib env setm r metadata base) = metadata\<lparr>DidMatch := b\<rparr>"
proof (cases "allItems r = []")
  case True
  then have "snd (default_matchStatesWithBase lib env setm r metadata base) = metadata\<lparr>DidMatch := DidMatch metadata\<rparr>"
    by (simp add: default_matchStatesWithBase_def)
  then show ?thesis by blast
next
  case False
  let ?b = "if invert r then 0 else base"
  obtain state m1 where groups: "match_groups lib env r (?b, metadata) = (state, m1)" and m1: "\<exists>d. m1 = metadata\<lparr>DidMatch := d\<rparr>"
    by (auto simp: match_groups_eq)
  obtain ok m2 where items: "match_items lib env (items r) m1 = (ok, m2)" and m2: "\<exists>d. m2 = m1\<lparr>DidMatch := d\<rparr>"
    by (auto simp: match_items_eq)
  have choose: "snd (if c1 then (x1, m) else if c2 then (if c3 then (x2, m) else (x3, m)) else (x4, m)) = m"
    for c1 c2 c3 x1 x2 x3 x4 and m :: InboundContext
    by simp
  have "snd (default_matchStatesWithBase lib env setm r metadata base) \<in> {m2, m2\<lparr>DidMatch := True\<rparr>}"
    unfolding default_matchStatesWithBase_def Let_def groups prod.case items if_not_P [OF False]
    by (cases ok; cases "ruleSetItem r") (simp_all only: option.case prod.case choose snd_conv if_False if_True
        not_True_eq_False not_False_eq_True insert_iff simp_thms)
  then show ?thesis
    using m1 m2 by auto
qed

lemma rule_Match_metadata: "ResetRuleCache (snd (rule_Match lib env heap rule metadata)) = ResetRuleCache metadata"
proof (cases rule)
  case (DefaultRule r)
  obtain b where "snd (default_matchStatesWithBase lib env (RuleSetItem_matchStatesWithBase lib env heap) r metadata 0) = metadata\<lparr>DidMatch := b\<rparr>"
    using default_matchStates_metadata by blast
  then show ?thesis
    using DefaultRule
    by (simp add: default_Match_def default_matchStates_def split_def ResetRuleCache_def ResetRuleMatchCache_def)
qed simp

text \<open>The rule of a list of final rules that is selected for a metadata.\<close>

fun first_match :: "'d route_env \<Rightarrow> InboundContext \<Rightarrow> route_rule list \<Rightarrow> nat \<Rightarrow> (route_rule \<times> nat) option" where
  "first_match env metadata [] i = None"
| "first_match env metadata (rule # rules) i =
     (if fst (rule_Match (re_lib env) (re_netenv env) (re_heap env) rule (ResetRuleCache metadata)) then Some (rule, i)
      else first_match env metadata rules (Suc i))"

definition always_final :: "route_rule \<Rightarrow> bool" where
  "always_final rule \<longleftrightarrow> (\<exists>act. rule_Action rule = Some act \<and>
     ((\<exists>tag o'. act = ActionRoute tag o') \<or> (\<exists>a. act = ActionReject a) \<or> act = ActionHijackDNS \<or> (\<exists>tag o'. act = ActionBypass tag o' \<and> tag \<noteq> [])))"

lemma match_rules_first:
  assumes "\<forall>rule \<in> set rules. always_final rule" and "ResetRuleCache (ms_metadata s) = ResetRuleCache metadata"
  shows "\<exists>m. match_rules env preMatch supportBypass rules i s = Some m \<and> mr_fatal m = None \<and>
    mr_selected m = first_match env metadata rules i"
  using assms
proof (induction rules arbitrary: i s)
  case (Cons rule rules)
  obtain ok metadata' where matched: "rule_Match (re_lib env) (re_netenv env) (re_heap env) rule (ResetRuleCache (ms_metadata s)) = (ok, metadata')"
    by fastforce
  have metadata': "ResetRuleCache metadata' = ResetRuleCache metadata"
    using rule_Match_metadata [of "re_lib env" "re_netenv env" "re_heap env" rule "ResetRuleCache (ms_metadata s)"] matched Cons.prems(2)
    by (simp add: ResetRuleCache_def ResetRuleMatchCache_def)
  show ?case
  proof (cases ok)
    case False
    then show ?thesis
      using matched metadata' Cons.prems Cons.IH [of "s\<lparr>ms_metadata := metadata'\<rparr>" "Suc i"] by simp
  next
    case True
    then show ?thesis
      using matched Cons.prems
      by (auto simp: always_final_def rule_effects_def final_action_def action_type_defs)
  qed
qed simp


lemma matchRule_first:
  assumes "\<forall>rule \<in> set rules. always_final rule"
    and "find_domain env dns (find_neighbor env (fst (find_process env metadata cache))) = Inr metadata'"
  shows "\<exists>m cache'. matchRule env rules preMatch supportBypass input metadata cache dns = Some (m, cache') \<and>
    mr_fatal m = None \<and> mr_selected m = first_match env (set_ip_version (re_lib env) metadata') rules 0"
proof -
  let ?metadata = "set_ip_version (re_lib env) metadata'"
  let ?s = "\<lparr>ms_metadata = ?metadata, ms_dns = dns, ms_input = input, ms_buffers = [], ms_packetBuffers = []\<rparr>"
  obtain m where "match_rules env preMatch supportBypass rules 0 ?s = Some m" "mr_fatal m = None"
      "mr_selected m = first_match env ?metadata rules 0"
    using match_rules_first [OF assms(1), of ?s ?metadata env preMatch supportBypass 0] by auto
  then show ?thesis
    using assms(2) by (simp add: matchRule_def split_def Let_def)
qed

text \<open>C34: With final rules only (route, reject, hijack-dns, bypass with an outbound) the rule selected for a connection, of a
  stream, of packets or before there is one, is the first that matches its metadata, completed by the process, the neighbour
  and the domain; there is no error then.\<close>

theorem route_first_match:
  assumes "\<forall>rule \<in> set rules. always_final rule"
    and "find_domain env dns (find_neighbor env (fst (find_process env metadata cache))) = Inr metadata'"
  shows "\<exists>m cache'. matchRule env rules preMatch supportBypass input metadata cache dns = Some (m, cache') \<and>
    mr_fatal m = None \<and> mr_selected m = first_match env (set_ip_version (re_lib env) metadata') rules 0"
  by (rule matchRule_first [OF assms])

section \<open>The bytes of a stream\<close>

definition event_data :: "read_event \<Rightarrow> byte list" where
  "event_data e = (case e of ReadData data \<Rightarrow> data | _ \<Rightarrow> [])"

definition input_data :: "input \<Rightarrow> byte list" where
  "input_data i = (case i of StreamInput reads \<Rightarrow> concat (map event_data reads) | _ \<Rightarrow> [])"

text \<open>What the connection has delivered and will deliver, in order.\<close>

definition stream_bytes :: "'d match_state \<Rightarrow> byte list" where
  "stream_bytes s = concat (ms_buffers s) @ input_data (ms_input s)"

lemma peek_reads_data:
  "pk_Buffer (peek_reads sl dl sniffers buffers reads i e buffer metadata) @
     concat (map event_data (pk_Reads (peek_reads sl dl sniffers buffers reads i e buffer metadata))) =
   buffer @ concat (map event_data reads)"
  by (induction sl dl sniffers buffers reads i e buffer metadata rule: peek_reads.induct)
    (auto simp: event_data_def split: prod.split option.split)

lemma sniff_stream_data:
  assumes "sniff_stream env act reads buffers metadata = (buffer, metadata', reads')"
  shows "concat (case buffer of None \<Rightarrow> [] | Some b \<Rightarrow> [b]) @ concat (map event_data reads') = concat (map event_data reads)"
proof -
  let ?sniffers = "if sniff_StreamSniffers act \<noteq> [] then sniff_StreamSniffers act else defaultStreamSniffers"
  show ?thesis
    using assms peek_reads_data [of "re_sl env" "re_dl env" ?sniffers buffers reads 0 None "[]" metadata]
    by (auto simp: sniff_stream_def PeekStream_def Let_def split: if_splits)
qed

lemma actionSniff_bytes:
  assumes "is_stream (ms_input s)" and "actionSniff env act s = Some (e, s')"
  shows "stream_bytes s' = stream_bytes s"
proof (cases "Skip (ms_metadata s) \<or> Protocol (ms_metadata s) \<noteq> []")
  case True
  then show ?thesis using assms(2) by (simp add: actionSniff_def Let_def)
next
  case False
  obtain reads where reads: "ms_input s = StreamInput reads"
    using assms(1) by (auto simp: is_stream_def)
  obtain buffer metadata' reads' where sniffed: "sniff_stream env act reads (ms_buffers s) (ms_metadata s) = (buffer, metadata', reads')"
    by (metis prod_cases3)
  show ?thesis
    using assms(2) False reads sniffed sniff_stream_data [OF sniffed]
    by (auto simp: actionSniff_def Let_def stream_bytes_def input_data_def)
qed

lemma rule_effects_bytes:
  assumes "lookup_ok env" and "is_stream (ms_input s)" and "rule_effects env preMatch act s = Some (e, s')"
  shows "stream_bytes s' = stream_bytes s"
proof -
  let ?s = "case action_route_options act of None \<Rightarrow> s
    | Some o' \<Rightarrow> s\<lparr>ms_metadata := apply_route_options (re_lib env) o' (ms_metadata s)\<rparr>"
  have same: "stream_bytes ?s = stream_bytes s" "is_stream (ms_input ?s)"
    using assms(2) by (simp_all add: stream_bytes_def split: option.split)
  show ?thesis
  proof (cases act)
    case (ActionSniff sniff)
    then show ?thesis
      using assms(3) same actionSniff_bytes [OF same(2), of env sniff] by (auto simp: rule_effects_def split: if_splits)
  next
    case (ActionResolve resolve)
    then show ?thesis
      using assms(3) same actionResolve_ok [OF assms(1), of resolve ?s] by (auto simp: rule_effects_def stream_bytes_def)
  qed (use assms(3) same in \<open>simp_all add: rule_effects_def\<close>)
qed

lemma match_rules_bytes:
  assumes "lookup_ok env" and "is_stream (ms_input s)" and "match_rules env preMatch supportBypass rules i s = Some m"
  shows "stream_bytes (mr_state m) = stream_bytes s"
  using assms(2,3)
proof (induction rules arbitrary: i s)
  case (Cons rule rules)
  obtain ok metadata where matched: "rule_Match (re_lib env) (re_netenv env) (re_heap env) rule (ResetRuleCache (ms_metadata s)) = (ok, metadata)"
    by fastforce
  let ?s = "s\<lparr>ms_metadata := metadata\<rparr>"
  have same: "stream_bytes ?s = stream_bytes s" "is_stream (ms_input ?s)"
    using Cons.prems(1) by (simp_all add: stream_bytes_def)
  have effects: "stream_bytes s' = stream_bytes s \<and> is_stream (ms_input s')" if "rule_effects env preMatch act ?s = Some (e, s')" for act e s'
    using rule_effects_bytes [OF assms(1) same(2) that] rule_effects_stream [OF assms(1) same(2), of preMatch act] that same by auto
  have later: ?case if "match_rules env preMatch supportBypass rules (Suc i) s' = Some m" "stream_bytes s' = stream_bytes s"
      "is_stream (ms_input s')" for s'
    using Cons.IH [OF that(3,1)] that(2) by simp
  show ?case
    using Cons.prems(2) matched same effects later
    by (cases ok) (auto split: option.splits if_splits)
qed auto

section \<open>Packets read ahead\<close>

text \<open>A sniff action that does not decide on the packets read before returns them with the new ones, and they are appended
  again.\<close>

lemma sniff_reads_buffers: "sniff_reads env act events packetBuffers metadata = Some r \<Longrightarrow> \<exists>new. ps_Buffers r = packetBuffers @ new"
proof (induction events arbitrary: packetBuffers metadata)
  case (Cons event events)
  show ?case
  proof (cases event)
    case (PacketData packet)
    have "\<exists>new. ps_Buffers r = packetBuffers @ new" if "sniff_reads env act events (packetBuffers @ [packet]) metadata' = Some r" for metadata'
      using Cons.IH [OF that] by auto
    then show ?thesis
      using Cons.prems PacketData by (auto split: option.splits if_splits)
  qed (use Cons.prems in auto)
qed auto

lemma packets_duplicated:
  assumes "ms_input s = PacketInput events" and "\<not> Skip (ms_metadata s)" and "Protocol (ms_metadata s) = []"
    and "\<not> failed_before act (ms_metadata s)" and "sniff_PacketSniffers act \<noteq> [] \<or> sniff_StreamSniffers act = []"
    and "sniff_buffered env act (ms_packetBuffers s) (ms_metadata s) = Some (None, metadata')"
    and "actionSniff env act s = Some (e, s')"
  shows "\<exists>new. ms_packetBuffers s' = ms_packetBuffers s @ ms_packetBuffers s @ new"
proof -
  obtain r where "sniff_reads env act events (ms_packetBuffers s) metadata' = Some r"
      "ms_packetBuffers s' = ms_packetBuffers s @ ps_Buffers r"
    using assms by (auto simp: actionSniff_def sniff_packets_def Let_def split: if_splits)
  then show ?thesis
    using sniff_reads_buffers by metis
qed

text \<open>Two rules, the second of which matches.\<close>

definition sample_route_env :: "unit route_env" where
  "sample_route_env = \<lparr>re_lib = sample_lib, re_netenv = netenv_zero, re_heap = (\<lambda>_. sample_rule_set), re_sl = sample_snifflib,
     re_dl = sample_dnslib, re_dns = \<lparr>rd_Lookup = (\<lambda>_ _ _ _. Some (Inr [], ())), rd_LookupReverseMapping = (\<lambda>_ _. None)\<rparr>,
     re_fakeip = None, re_Transport = (\<lambda>_. None), re_IsDomainName = (\<lambda>d. d \<noteq> []), re_AddrPort = (\<lambda>sa. (sa_Addr sa, sa_Port sa)),
     re_FindProcessInfo = None, re_neighbor = None\<rparr>"

definition sample_default_rule :: "rule_action \<Rightarrow> route_rule" where
  "sample_default_rule act = DefaultRule (append_item G_destinationPortItems (NewPortItem False [80]) (new_rule False (Some act)))"

definition sample_any_rule :: "rule_action \<Rightarrow> route_rule" where
  "sample_any_rule act = DefaultRule (append_item G_destinationPortItems (NewPortItem False [443]) (new_rule False (Some act)))"

theorem route_first_match_witness:
  "\<exists>m cache'. matchRule sample_route_env [sample_default_rule ActionHijackDNS, sample_any_rule ActionHijackDNS] False False NoInput
      sample_metadata Map.empty () = Some (m, cache') \<and> mr_selected m = Some (sample_any_rule ActionHijackDNS, 1)"
proof -
  have final: "\<forall>rule \<in> set [sample_default_rule ActionHijackDNS, sample_any_rule ActionHijackDNS]. always_final rule"
    by (simp add: always_final_def sample_default_rule_def sample_any_rule_def)
  have domain: "find_domain sample_route_env () (find_neighbor sample_route_env (fst (find_process sample_route_env sample_metadata Map.empty))) = Inr sample_metadata"
    by (simp add: find_domain_def find_neighbor_def find_process_def sample_route_env_def)
  have "fst (rule_Match sample_lib netenv_zero (\<lambda>_. sample_rule_set) (sample_default_rule ActionHijackDNS) (ResetRuleCache sample_metadata)) = False"
      "fst (rule_Match sample_lib netenv_zero (\<lambda>_. sample_rule_set) (sample_any_rule ActionHijackDNS) (ResetRuleCache sample_metadata)) = True"
      "set_ip_version sample_lib sample_metadata = sample_metadata"
    by code_simp+
  then show ?thesis
    using route_first_match [OF final domain, of False False NoInput] by (auto simp: sample_route_env_def)
qed

end
