(* ===== verification/Route_Router.thy ===== *)
theory Route_Router
  imports Route_Match
begin

text \<open>
  The router of connections (\<^verbatim>\<open>src/route/router.go\<close>, \<^verbatim>\<open>src/route/rule_conds.go\<close>, and the handlers of
  \<^verbatim>\<open>src/route/route.go\<close> and \<^verbatim>\<open>src/route/dns.go\<close>): its state and life cycle, and what it does with a
  stream, a sequence of packets, or the first packet of a connection of a TUN interface. What a handler does is its
  outcome: the error it returns, or the object the connection is handed to, with the connection and the metadata it gets.
  A connection is the one it was given, wrapped by what was read ahead, by trackers and by address translation.
\<close>

section \<open>State and life cycle\<close>

fun hasRule :: "(DefaultRuleOptions \<Rightarrow> bool) \<Rightarrow> RuleOptions list \<Rightarrow> bool" where
  "hasRule cond [] = False"
| "hasRule cond (RuleOptions ty default_options mode rules inverted act # rest) =
     ((if ty = RuleTypeDefault then cond default_options
       else if ty = RuleTypeLogical then hasRule cond rules
       else False) \<or> hasRule cond rest)"

fun hasDNSRule :: "(DefaultDNSRuleOptions \<Rightarrow> bool) \<Rightarrow> DNSRuleOptions list \<Rightarrow> bool" where
  "hasDNSRule cond [] = False"
| "hasDNSRule cond (DNSRuleOptions ty default_options mode rules inverted act # rest) =
     ((if ty = RuleTypeDefault then cond default_options
       else if ty = RuleTypeLogical then hasDNSRule cond rules
       else False) \<or> hasDNSRule cond rest)"

definition isProcessRule :: "DefaultRuleOptions \<Rightarrow> bool" where
  "isProcessRule rule \<longleftrightarrow> slice (dr_ProcessName rule) \<noteq> [] \<or> slice (dr_ProcessPath rule) \<noteq> [] \<or>
     slice (dr_ProcessPathRegex rule) \<noteq> [] \<or> slice (dr_PackageName rule) \<noteq> [] \<or> slice (dr_PackageNameRegex rule) \<noteq> [] \<or>
     slice (dr_User rule) \<noteq> [] \<or> slice (dr_UserID rule) \<noteq> []"

definition isProcessDNSRule :: "DefaultDNSRuleOptions \<Rightarrow> bool" where
  "isProcessDNSRule rule \<longleftrightarrow> slice (dd_ProcessName rule) \<noteq> [] \<or> slice (dd_ProcessPath rule) \<noteq> [] \<or>
     slice (dd_ProcessPathRegex rule) \<noteq> [] \<or> slice (dd_PackageName rule) \<noteq> [] \<or> slice (dd_PackageNameRegex rule) \<noteq> [] \<or>
     slice (dd_User rule) \<noteq> [] \<or> slice (dd_UserID rule) \<noteq> []"

definition isNeighborRule :: "DefaultRuleOptions \<Rightarrow> bool" where
  "isNeighborRule rule \<longleftrightarrow> slice (dr_SourceMACAddress rule) \<noteq> [] \<or> slice (dr_SourceHostname rule) \<noteq> []"

definition isNeighborDNSRule :: "DefaultDNSRuleOptions \<Rightarrow> bool" where
  "isNeighborDNSRule rule \<longleftrightarrow> slice (dd_SourceMACAddress rule) \<noteq> [] \<or> slice (dd_SourceHostname rule) \<noteq> []"

definition isWIFIRule :: "DefaultRuleOptions \<Rightarrow> bool" where
  "isWIFIRule rule \<longleftrightarrow> slice (dr_WIFISSID rule) \<noteq> [] \<or> slice (dr_WIFIBSSID rule) \<noteq> []"

definition isWIFIDNSRule :: "DefaultDNSRuleOptions \<Rightarrow> bool" where
  "isWIFIDNSRule rule \<longleftrightarrow> slice (dd_WIFISSID rule) \<noteq> [] \<or> slice (dd_WIFIBSSID rule) \<noteq> []"

record Router =
  rt_rules :: "route_rule list"
  rt_needFindProcess :: bool
  rt_needFindNeighbor :: bool
  rt_ruleSets :: "rule_set_ref list"
  rt_ruleSetMap :: "string \<rightharpoonup> rule_set_ref"
  rt_processSearcher :: bool
  rt_neighborResolver :: bool
  rt_trackers :: "string list"
  rt_started :: bool

record RouteOptions =
  rop_Rules :: "RuleOptions list"
  rop_FindProcess :: bool
  rop_FindNeighbor :: bool

definition NewRouter :: "RouteOptions \<Rightarrow> DNSRuleOptions list \<Rightarrow> Router" where
  "NewRouter options dnsRules = \<lparr>
     rt_rules = [],
     rt_needFindProcess = (hasRule isProcessRule (rop_Rules options) \<or> hasDNSRule isProcessDNSRule dnsRules \<or> rop_FindProcess options),
     rt_needFindNeighbor = (hasRule isNeighborRule (rop_Rules options) \<or> hasDNSRule isNeighborDNSRule dnsRules \<or> rop_FindNeighbor options),
     rt_ruleSets = [], rt_ruleSetMap = Map.empty, rt_processSearcher = False, rt_neighborResolver = False, rt_trackers = [],
     rt_started = False\<rparr>"

fun initialize_rules :: "golib \<Rightarrow> action_env \<Rightarrow> RuleOptions list \<Rightarrow> Router \<Rightarrow> Router result" where
  "initialize_rules lib aenv [] r = Inr r"
| "initialize_rules lib aenv (options # rest) r =
     bind_result (with_cause ''parse rule['' (validateNoNestedRuleActions False options)) (\<lambda>_.
     bind_result (with_cause ''parse rule['' (NewRule lib aenv False options)) (\<lambda>rule.
     initialize_rules lib aenv rest (r\<lparr>rt_rules := rt_rules r @ [rule]\<rparr>)))"

text \<open>A new rule set is put at a place of the heap that no earlier one has.\<close>

fun initialize_rule_sets ::
    "(RuleSetOptions \<Rightarrow> rule_set result) \<Rightarrow> RuleSetOptions list \<Rightarrow> rule_set_heap \<Rightarrow> Router \<Rightarrow> (Router \<times> rule_set_heap) result" where
  "initialize_rule_sets new [] heap r = Inr (r, heap)"
| "initialize_rule_sets new (options # rest) heap r =
     (if rt_ruleSetMap r (rso_Tag options) \<noteq> None then Inl (Err ''duplicate rule-set tag: '')
      else
        bind_result (with_cause ''parse rule-set['' (new options)) (\<lambda>ruleSet.
        let ref = length (rt_ruleSets r) in
        initialize_rule_sets new rest (heap(ref := ruleSet))
          (r\<lparr>rt_ruleSets := rt_ruleSets r @ [ref], rt_ruleSetMap := (rt_ruleSetMap r)(rso_Tag options \<mapsto> ref)\<rparr>)))"

definition route_Initialize ::
    "golib \<Rightarrow> action_env \<Rightarrow> (RuleSetOptions \<Rightarrow> rule_set result) \<Rightarrow> RuleOptions list \<Rightarrow> RuleSetOptions list \<Rightarrow> rule_set_heap \<Rightarrow> Router \<Rightarrow>
     (Router \<times> rule_set_heap) result" where
  "route_Initialize lib aenv new rules ruleSets heap r =
     bind_result (initialize_rules lib aenv rules r) (\<lambda>r'. initialize_rule_sets new ruleSets heap r')"

text \<open>The rule sets are started by a group of tasks that fails when one of them fails. The process searcher and the
  neighbour resolver are there when they could be made; an error of theirs is only logged.\<close>

record start_env =
  se_StartContext :: "rule_set \<Rightarrow> rule_set result"
  se_Android :: bool
  se_NewSearcher :: "err option"
  se_StartNeighbor :: "err option"

fun start_rule_sets :: "(rule_set \<Rightarrow> rule_set result) \<Rightarrow> rule_set_ref list \<Rightarrow> rule_set_heap \<Rightarrow> rule_set_heap result" where
  "start_rule_sets start [] heap = Inr heap"
| "start_rule_sets start (ref # rest) heap =
     bind_result (with_cause ''initialize rule-set['' (start (heap ref))) (\<lambda>ruleSet. start_rule_sets start rest (heap(ref := ruleSet)))"

definition route_Start ::
    "start_env \<Rightarrow> preferred_manager \<Rightarrow> StartStage \<Rightarrow> rule_set_heap \<Rightarrow> Router \<Rightarrow> (Router \<times> rule_set_heap) result" where
  "route_Start senv mgr stage heap r =
     (if stage = StartStateStart then
        bind_result (start_rule_sets (se_StartContext senv) (rt_ruleSets r) heap) (\<lambda>heap'.
          let needFindProcess = (rt_needFindProcess r \<or> se_Android senv \<or>
                list_ex (\<lambda>ref. ContainsProcessRule (rs_Metadata (heap' ref))) (rt_ruleSets r))
          in Inr (r\<lparr>rt_needFindProcess := needFindProcess,
                    rt_processSearcher := (needFindProcess \<and> se_NewSearcher senv = None),
                    rt_neighborResolver := (rt_needFindNeighbor r \<and> se_StartNeighbor senv = None)\<rparr>, heap'))
      else if stage = StartStatePostStart then
        bind_result (with_cause ''initialize rule['' (rules_Start mgr (rt_ruleSetMap r) (rt_rules r) heap)) (\<lambda>(rules, heap').
          Inr (r\<lparr>rt_rules := rules, rt_started := True\<rparr>, heap'))
      else if stage = StartStateStarted then
        Inr (r, fold (\<lambda>ref heap. heap(ref := rs_Cleanup (heap ref))) (rt_ruleSets r) heap)
      else Inr (r, heap))"

fun rs_Close :: "rule_set \<Rightarrow> rule_set" where
  "rs_Close (LocalRS s) = LocalRS (local_Close s)"
| "rs_Close (RemoteRS s) = RemoteRS (remote_Close s)"

definition route_Close :: "rule_set_heap \<Rightarrow> Router \<Rightarrow> (Router \<times> rule_set_heap) result" where
  "route_Close heap r =
     bind_result (rules_Close (rt_rules r) heap) (\<lambda>(rules, heap').
       Inr (r\<lparr>rt_rules := rules\<rparr>, fold (\<lambda>ref heap. heap(ref := rs_Close (heap ref))) (rt_ruleSets r) heap'))"

definition route_RuleSet :: "Router \<Rightarrow> rule_set_heap \<Rightarrow> string \<Rightarrow> rule_set option" where
  "route_RuleSet r heap tag = map_option heap (rt_ruleSetMap r tag)"

definition AppendTracker :: "string \<Rightarrow> Router \<Rightarrow> Router" where
  "AppendTracker tracker r = r\<lparr>rt_trackers := rt_trackers r @ [tracker]\<rparr>"

section \<open>Connections\<close>

datatype net_conn =
    RawConn
  | DeadlineConn net_conn
  | CachedConn net_conn "byte list"
  | TrackedConn string net_conn

datatype packet_conn =
    RawPacketConn
  | CachedPacketConn packet_conn packet_buffer
  | TrackedPacketConn string packet_conn
  | NATPacketConn packet_conn socksaddr socksaddr

record inbound_info =
  in_TCPInjectable :: bool
  in_UDPInjectable :: bool

record 'd router_env = "'d route_env" +
  rv_Inbound :: "string \<Rightarrow> inbound_info option"
  rv_Outbound :: "string \<Rightarrow> managed option"
  rv_Default :: "managed option"
  rv_Network :: "managed \<Rightarrow> string list"
  rv_ConnectionHandler :: "managed \<Rightarrow> bool"
  rv_PacketConnectionHandler :: "managed \<Rightarrow> bool"
  rv_DirectRoute :: "managed \<Rightarrow> bool"
  rv_muxFqdn :: string
  rv_vmessMuxFqdn :: string
  rv_uotMagicAddress :: string
  rv_uotLegacyMagicAddress :: string
  rv_timeNow :: int

definition manager_Default :: "outbound_manager \<Rightarrow> managed option" where
  "manager_Default m = om_defaultOutbound m"

datatype 'conn outcome =
    Failed route_error
  | Panicked string
  | Injected string InboundContext
  | HijackedDNS 'conn InboundContext
  | Routed managed bool 'conn InboundContext

record ('conn, 'd) routed =
  ro_outcome :: "'conn outcome"
  ro_rules :: "route_rule list"
  ro_input :: input
  ro_dns :: 'd
  ro_cache :: process_cache

fun set_rule_action :: "rule_action \<Rightarrow> route_rule \<Rightarrow> route_rule" where
  "set_rule_action act (DefaultRule r) = DefaultRule (r\<lparr>action := Some act\<rparr>)"
| "set_rule_action act (LogicalRule mode rules inverted a) = LogicalRule mode rules inverted (Some act)"

text \<open>\<^verbatim>\<open>RuleActionReject.Error\<close> keeps its counter in the rule.\<close>

definition reject_with :: "int \<Rightarrow> RuleActionReject \<Rightarrow> nat \<Rightarrow> route_rule list \<Rightarrow> 'conn outcome \<times> route_rule list" where
  "reject_with timeNow act i rules =
     (case RuleActionReject_Error timeNow act of
        Inl (Panic m) \<Rightarrow> (Panicked m, rules)
      | Inl e \<Rightarrow> (Failed (RouteError e), rules)
      | Inr (e, act') \<Rightarrow>
          (Failed (case e of None \<Rightarrow> NilError | Some rejected \<Rightarrow> Rejected rejected),
           rules[i := set_rule_action (ActionReject act') (rules ! i)]))"

text \<open>The outbound of a tag, when it supports the network; the network is called differently in the messages.\<close>

definition outbound_for :: "('d, 'z) router_env_scheme \<Rightarrow> string \<Rightarrow> string \<Rightarrow> string \<Rightarrow> managed result" where
  "outbound_for env network called tag =
     (case rv_Outbound env tag of
        None \<Rightarrow> Inl (Err ''outbound not found: '')
      | Some outbound \<Rightarrow>
          if network \<notin> set (rv_Network env outbound) then Inl (Err (called @ '' is not supported by outbound: ''))
          else Inr outbound)"

definition default_for :: "('d, 'z) router_env_scheme \<Rightarrow> string \<Rightarrow> string \<Rightarrow> managed result" where
  "default_for env network message =
     (case rv_Default env of
        None \<Rightarrow> Inl (Panic ''nil pointer dereference'')
      | Some outbound \<Rightarrow> if network \<notin> set (rv_Network env outbound) then Inl (Err message) else Inr outbound)"

datatype selection = SelectOutbound "managed result" | SelectReject RuleActionReject nat | SelectHijackDNS | SelectNothing

text \<open>The outbound of the selected rule. A bypass rule without an outbound, or a rule of another action, selects none.\<close>

definition select_outbound :: "('d, 'z) router_env_scheme \<Rightarrow> bool \<Rightarrow> (route_rule \<times> nat) option \<Rightarrow> selection" where
  "select_outbound env udp selected =
     (let network = (if udp then NetworkUDP else NetworkTCP);
          called = (if udp then ''UDP'' else ''TCP'')
      in case selected of
           None \<Rightarrow> SelectOutbound (default_for env network
             (if udp then ''UDP is not supported by outbound: '' else ''TCP is not supported by default outbound: ''))
         | Some (rule, i) \<Rightarrow>
             (case rule_Action rule of
                Some (ActionRoute tag _) \<Rightarrow> SelectOutbound (outbound_for env network called tag)
              | Some (ActionBypass tag _) \<Rightarrow> if tag = [] then SelectNothing else SelectOutbound (outbound_for env network called tag)
              | Some (ActionReject act) \<Rightarrow> SelectReject act i
              | Some ActionHijackDNS \<Rightarrow> SelectHijackDNS
              | _ \<Rightarrow> SelectNothing))"

fun fail :: "route_error \<Rightarrow> 'conn outcome" where
  "fail (RouteError (Panic m)) = Panicked m"
| "fail (DNSError (ErrOther (Panic m))) = Panicked m"
| "fail e = Failed e"

text \<open>An inbound that names another one to handle its connections.\<close>

definition detour :: "('d, 'z) router_env_scheme \<Rightarrow> (inbound_info \<Rightarrow> bool) \<Rightarrow> InboundContext \<Rightarrow> 'conn outcome" where
  "detour env injectable metadata =
     (if LastInbound metadata = InboundDetour metadata then Failed (RouteError (Err ''routing loop on detour: ''))
      else
        (case rv_Inbound env (InboundDetour metadata) of
           None \<Rightarrow> Failed (RouteError (Err ''inbound detour not found: ''))
         | Some inbound \<Rightarrow>
             if \<not> injectable inbound then Failed (RouteError (Err ''inbound detour is not injectable: ''))
             else Injected (InboundDetour metadata)
               (metadata\<lparr>LastInbound := Inbound metadata, Inbound := InboundDetour metadata, InboundDetour := []\<rparr>)))"

text \<open>What follows the search for a rule. An outbound that is nil is dereferenced by the handler it is passed to.\<close>

definition route_selected ::
    "('d, 'z) router_env_scheme \<Rightarrow> bool \<Rightarrow> (InboundContext \<Rightarrow> 'conn outcome) \<Rightarrow> (managed \<Rightarrow> InboundContext \<Rightarrow> 'conn outcome) \<Rightarrow>
     route_rule list \<Rightarrow> 'd matched \<Rightarrow> 'conn outcome \<times> route_rule list" where
  "route_selected env udp hijackDNS routed rules m =
     (let metadata = ms_metadata (mr_state m)
      in case mr_fatal m of
           Some e \<Rightarrow> (fail e, rules)
         | None \<Rightarrow>
             (case select_outbound env udp (mr_selected m) of
                SelectOutbound (Inl e) \<Rightarrow> (fail (RouteError e), rules)
              | SelectOutbound (Inr outbound) \<Rightarrow> (routed outbound metadata, rules)
              | SelectReject act i \<Rightarrow>
                  if reject_Method act = RuleActionRejectMethodReply
                  then (Failed (RouteError (Err (if udp then ''reject method `reply` is not supported for UDP connections''
                    else ''reject method `reply` is not supported for TCP connections''))), rules)
                  else reject_with (rv_timeNow env) act i rules
              | SelectHijackDNS \<Rightarrow> (hijackDNS metadata, rules)
              | SelectNothing \<Rightarrow> (Panicked ''nil pointer dereference'', rules)))"

section \<open>Streams\<close>

definition deprecated_destination :: "('d, 'z) router_env_scheme \<Rightarrow> string \<Rightarrow> err option" where
  "deprecated_destination env fqdn =
     (if fqdn = rv_muxFqdn env then Some (Err ''global multiplex is deprecated since sing-box v1.7.0, enable multiplex in Inbound fields instead.'')
      else if fqdn = rv_vmessMuxFqdn env then Some (Err ''global multiplex (v2ray legacy) not supported since sing-box v1.7.0.'')
      else if fqdn = rv_uotMagicAddress env then Some (Err ''global UoT not supported since sing-box v1.7.0.'')
      else if fqdn = rv_uotLegacyMagicAddress env then Some (Err ''global UoT (legacy) not supported since sing-box v1.7.0.'')
      else None)"

definition cached_conn :: "byte list list \<Rightarrow> net_conn \<Rightarrow> net_conn" where
  "cached_conn buffers conn = foldl CachedConn conn buffers"

definition tracked_conn :: "string list \<Rightarrow> net_conn \<Rightarrow> net_conn" where
  "tracked_conn trackers conn = foldl (\<lambda>conn tracker. TrackedConn tracker conn) conn trackers"

definition routeConnection ::
    "('d, 'z) router_env_scheme \<Rightarrow> Router \<Rightarrow> bool \<Rightarrow> read_event list \<Rightarrow> InboundContext \<Rightarrow> process_cache \<Rightarrow> 'd \<Rightarrow> (net_conn, 'd) routed option" where
  "routeConnection env r needDeadline reads metadata cache dns =
     (let unrouted = (\<lambda>outcome. Some \<lparr>ro_outcome = outcome, ro_rules = rt_rules r, ro_input = StreamInput reads, ro_dns = dns, ro_cache = cache\<rparr>)
      in if InboundDetour metadata \<noteq> [] then unrouted (detour env in_TCPInjectable metadata)
         else
           (case deprecated_destination env (sa_Fqdn (Destination metadata)) of
              Some e \<Rightarrow> unrouted (Failed (RouteError e))
            | None \<Rightarrow>
                let conn = (if needDeadline then DeadlineConn RawConn else RawConn)
                in map_option (\<lambda>(m, cache').
                     let cached = cached_conn (ms_buffers (mr_state m)) conn
                     in case route_selected env False
                               (\<lambda>metadata. HijackedDNS cached (metadata\<lparr>Destination := socksaddr_zero\<rparr>))
                               (\<lambda>outbound. Routed outbound (rv_ConnectionHandler env outbound) (tracked_conn (rt_trackers r) cached))
                               (rt_rules r) m of
                          (outcome, rules) \<Rightarrow> \<lparr>ro_outcome = outcome, ro_rules = rules, ro_input = ms_input (mr_state m),
                            ro_dns = ms_dns (mr_state m), ro_cache = cache'\<rparr>)
                   (matchRule (route_env.truncate env) (rt_rules r) False False (StreamInput reads) (metadata\<lparr>Network := NetworkTCP\<rparr>) cache dns)))"

section \<open>Packets\<close>

definition cached_packet_conn :: "packet_buffer list \<Rightarrow> packet_conn \<Rightarrow> packet_conn" where
  "cached_packet_conn packetBuffers conn = foldl CachedPacketConn conn packetBuffers"

definition tracked_packet_conn :: "string list \<Rightarrow> packet_conn \<Rightarrow> packet_conn" where
  "tracked_packet_conn trackers conn = foldl (\<lambda>conn tracker. TrackedPacketConn tracker conn) conn trackers"

definition nat_packet_conn :: "InboundContext \<Rightarrow> packet_conn \<Rightarrow> packet_conn" where
  "nat_packet_conn metadata conn =
     (if FakeIP metadata then NATPacketConn conn (OriginDestination metadata) (Destination metadata) else conn)"

text \<open>\<^verbatim>\<open>hijackDNSPacket\<close> gets the packets read ahead apart from the connection; here they are the ones of a cached
  connection. The destination is cleared when the connection is one of the UDP NAT.\<close>

definition routePacketConnection ::
    "('d, 'z) router_env_scheme \<Rightarrow> Router \<Rightarrow> bool \<Rightarrow> packet_event list \<Rightarrow> InboundContext \<Rightarrow> process_cache \<Rightarrow> 'd \<Rightarrow> (packet_conn, 'd) routed option" where
  "routePacketConnection env r isNatConn events metadata cache dns =
     (if InboundDetour metadata \<noteq> [] then
        Some \<lparr>ro_outcome = detour env in_UDPInjectable metadata, ro_rules = rt_rules r, ro_input = PacketInput events, ro_dns = dns, ro_cache = cache\<rparr>
      else
        map_option (\<lambda>(m, cache').
          let cached = cached_packet_conn (ms_packetBuffers (mr_state m)) RawPacketConn
          in case route_selected env True
                    (\<lambda>metadata. HijackedDNS cached (if isNatConn then metadata\<lparr>Destination := socksaddr_zero\<rparr> else metadata))
                    (\<lambda>outbound metadata. Routed outbound (rv_PacketConnectionHandler env outbound)
                      (nat_packet_conn metadata (tracked_packet_conn (rt_trackers r) cached)) metadata)
                    (rt_rules r) m of
               (outcome, rules) \<Rightarrow> \<lparr>ro_outcome = outcome, ro_rules = rules, ro_input = ms_input (mr_state m),
                 ro_dns = ms_dns (mr_state m), ro_cache = cache'\<rparr>)
          (matchRule (route_env.truncate env) (rt_rules r) False False (PacketInput events) (metadata\<lparr>Network := NetworkUDP\<rparr>) cache dns))"

section \<open>The first packet of a connection\<close>

datatype pre_outcome =
    PreNone
  | PreFailed route_error
  | PrePanicked string
  | PreBypassed
  | PreDirect managed InboundContext "addr option"

text \<open>The type assertion to an outbound that routes packets directly panics when the outbound does not.\<close>

definition assert_direct :: "('d, 'z) router_env_scheme \<Rightarrow> managed result \<Rightarrow> managed result" where
  "assert_direct env outbound =
     bind_result outbound (\<lambda>ob. if rv_DirectRoute env ob then Inr ob else Inl (Panic ''interface conversion''))"

fun pre_fail :: "err \<Rightarrow> pre_outcome" where
  "pre_fail (Panic m) = PrePanicked m"
| "pre_fail e = PreFailed (RouteError e)"

definition pre_reject :: "int \<Rightarrow> InboundContext \<Rightarrow> RuleActionReject \<Rightarrow> nat \<Rightarrow> route_rule list \<Rightarrow> pre_outcome \<times> route_rule list" where
  "pre_reject timeNow metadata act i rules =
     (if reject_Method act = RuleActionRejectMethodReply \<and> Network metadata = NetworkTCP then
        (PreFailed (RouteError (Err ''reject method `reply` is not supported for TCP connections'')), rules)
      else if reject_Method act = RuleActionRejectMethodReply \<and> Network metadata = NetworkUDP then
        (PreFailed (RouteError (Err ''reject method `reply` is not supported for UDP connections'')), rules)
      else
        (case RuleActionReject_Error timeNow act of
           Inl e \<Rightarrow> (pre_fail e, rules)
         | Inr (e, act') \<Rightarrow>
             (case e of None \<Rightarrow> PreNone | Some rejected \<Rightarrow> PreFailed (Rejected rejected),
              rules[i := set_rule_action (ActionReject act') (rules ! i)])))"

text \<open>The address of the family of the source among the addresses of the domain.\<close>

definition pre_address :: "golib \<Rightarrow> InboundContext \<Rightarrow> addr result" where
  "pre_address lib metadata =
     (case filter (if sa_IsIPv4 lib (Source metadata) then addr_Is4 else addr_Is6) (DestinationAddresses metadata) of
        address # _ \<Rightarrow> Inr address
      | [] \<Rightarrow> Inl (Err (if sa_IsIPv4 lib (Source metadata) then ''no IPv4 address found for domain: ''
                    else ''no IPv6 address found for domain: '')))"

definition pre_direct ::
    "('d, 'z) router_env_scheme \<Rightarrow> 'd match_state \<Rightarrow> managed \<Rightarrow> (pre_outcome \<times> 'd match_state) option" where
  "pre_direct env s outbound =
     (let metadata = ms_metadata s; lib = re_lib env
      in if \<not> sa_IsDomain lib (Destination metadata) then Some (PreDirect outbound metadata None, s)
         else
           map_option (\<lambda>(e, s').
               case e of
                 Some (RouteError e') \<Rightarrow> (pre_fail e', s')
               | Some (DNSError (ErrOther (Panic m))) \<Rightarrow> (PrePanicked m, s')
               | Some e' \<Rightarrow> (PreFailed e', s')
               | None \<Rightarrow>
                   (case pre_address lib (ms_metadata s') of
                      Inl e' \<Rightarrow> (pre_fail e', s')
                    | Inr newDestination \<Rightarrow>
                        (PreDirect outbound ((ms_metadata s')\<lparr>Destination := socksaddr_zero\<lparr>sa_Addr := newDestination\<rparr>\<rparr>)
                           (Some newDestination), s')))
             (if DestinationAddresses metadata = []
              then actionResolve (route_env.truncate env)
                \<lparr>resolve_Server = [],
                 resolve_Strategy = (if sa_IsIPv4 lib (Source metadata) then DomainStrategyIPv4Only else DomainStrategyIPv6Only),
                 resolve_DisableCache = False, resolve_DisableOptimisticCache = False, resolve_RewriteTTL = None,
                 resolve_ClientSubnet = prefix_zero\<rparr> s
              else Some (None, s)))"

definition PreMatch ::
    "('d, 'z) router_env_scheme \<Rightarrow> Router \<Rightarrow> bool \<Rightarrow> bool \<Rightarrow> InboundContext \<Rightarrow> process_cache \<Rightarrow> 'd \<Rightarrow>
     (pre_outcome \<times> route_rule list \<times> 'd) option" where
  "PreMatch env r routeContext supportBypass metadata cache dns =
     (case matchRule (route_env.truncate env) (rt_rules r) True supportBypass NoInput metadata cache dns of
        None \<Rightarrow> None
      | Some (m, _) \<Rightarrow>
          let s = mr_state m; network = Network (ms_metadata s); rules = rt_rules r;
              done' = (\<lambda>outcome. Some (outcome, rules, ms_dns s));
              direct = (\<lambda>outbound. case assert_direct env outbound of
                 Inl e \<Rightarrow> done' (pre_fail e)
               | Inr ob \<Rightarrow> map_option (\<lambda>(outcome, s'). (outcome, rules, ms_dns s')) (pre_direct env s ob))
          in case mr_fatal m of
               Some (RouteError e) \<Rightarrow> done' (pre_fail e)
             | Some (DNSError (ErrOther (Panic p))) \<Rightarrow> done' (PrePanicked p)
             | Some e \<Rightarrow> done' (PreFailed e)
             | None \<Rightarrow>
                 (case mr_selected m of
                    None \<Rightarrow>
                      if network \<noteq> NetworkICMP then done' PreNone
                      else direct (default_for env network (network @ '' is not supported by default outbound: ''))
                  | Some (rule, i) \<Rightarrow>
                      (case rule_Action rule of
                         Some (ActionReject act) \<Rightarrow>
                           (case pre_reject (rv_timeNow env) (ms_metadata s) act i rules of (outcome, rules') \<Rightarrow> Some (outcome, rules', ms_dns s))
                       | Some (ActionBypass tag _) \<Rightarrow>
                           if supportBypass then done' PreBypassed
                           else if \<not> routeContext then done' PreNone
                           else direct (outbound_for env network network tag)
                       | Some (ActionRoute tag _) \<Rightarrow>
                           if \<not> routeContext then done' PreNone else direct (outbound_for env network network tag)
                       | _ \<Rightarrow> done' PreNone)))"

section \<open>Actions of route rules\<close>

text \<open>What the decoder of the options checks: there is an action, and the method of a rejection is a known one.\<close>

definition top_action :: "RuleOptions \<Rightarrow> RuleActionOptions" where
  "top_action o' = (if ru_Type o' \<in> {[], RuleTypeDefault} then dr_RuleAction (ru_DefaultOptions o') else ru_RuleAction o')"

definition configured :: "RuleOptions \<Rightarrow> bool" where
  "configured o' \<longleftrightarrow> ra_Action (top_action o') \<noteq> [] \<and>
     rej_Method (ra_RejectOptions (top_action o')) \<in>
       {RuleActionRejectMethodDefault, RuleActionRejectMethodDrop, RuleActionRejectMethodReply}"

fun route_action_ok :: "rule_action \<Rightarrow> bool" where
  "route_action_ok (ActionReject act) \<longleftrightarrow>
     reject_Method act \<in> {RuleActionRejectMethodDefault, RuleActionRejectMethodDrop, RuleActionRejectMethodReply}"
| "route_action_ok (ActionDNSRoute _ _) \<longleftrightarrow> False"
| "route_action_ok _ \<longleftrightarrow> True"

definition rule_ok :: "route_rule \<Rightarrow> bool" where
  "rule_ok rule \<longleftrightarrow> (\<exists>act. rule_Action rule = Some act \<and> route_action_ok act)"

lemma NewRuleAction_ok:
  assumes "NewRuleAction env act = Inr a" and "ra_Action act \<noteq> []"
    and "rej_Method (ra_RejectOptions act) \<in> {RuleActionRejectMethodDefault, RuleActionRejectMethodDrop, RuleActionRejectMethodReply}"
  shows "\<exists>a'. a = Some a' \<and> route_action_ok a'"
  using assms
  by (auto simp: NewRuleAction_def new_reject_def Let_def bind_result_Inr_iff split: if_splits option.splits)

lemma NewDefaultRule_built_action:
  assumes "NewDefaultRule lib aenv options = Inr r"
  shows "NewRuleAction aenv (dr_RuleAction options) = Inr (action r)"
proof -
  obtain act r0 where act: "NewRuleAction aenv (dr_RuleAction options) = Inr act"
      and built: "build_items (default_rule_steps lib options) (new_rule (dr_Invert options) act) = Inr r0"
      and r: "r = r0 \<or> (\<exists>item. r = append_set_item item r0)"
    using assms unfolding NewDefaultRule_def bind_result_Inr_iff with_cause_Inr_iff by (metis Inl_Inr_False Inr_inject)
  have "action r0 = act"
    using build_items_keeps [OF built] by simp
  then show ?thesis
    using act r by (auto simp: append_set_item_def)
qed

lemma NewRule_action:
  assumes "NewRule lib aenv checkOutbound o' = Inr rule"
  shows "NewRuleAction aenv (top_action o') = Inr (rule_Action rule)"
proof (cases o')
  case (RuleOptions ty default_options mode rules inverted act)
  show ?thesis
  proof (cases "ty = [] \<or> ty = RuleTypeDefault")
    case True
    then obtain r where "NewDefaultRule lib aenv default_options = Inr r" "rule = DefaultRule r"
      using assms RuleOptions by (auto simp: bind_result_Inr_iff split: if_splits)
    then show ?thesis
      using True RuleOptions NewDefaultRule_built_action by (simp add: top_action_def)
  next
    case False
    then obtain a rs where "NewRuleAction aenv act = Inr a" "rule = LogicalRule mode rs inverted a"
      using assms RuleOptions by (auto simp: bind_result_Inr_iff split: if_splits)
    then show ?thesis
      using False RuleOptions by (simp add: top_action_def)
  qed
qed

lemma NewRule_ok: "NewRule lib aenv checkOutbound o' = Inr rule \<Longrightarrow> configured o' \<Longrightarrow> rule_ok rule"
  unfolding rule_ok_def configured_def using NewRule_action NewRuleAction_ok by blast

lemma initialize_rules_ok:
  assumes "initialize_rules lib aenv options r = Inr r'" and "\<forall>o' \<in> set options. configured o'"
    and "\<forall>rule \<in> set (rt_rules r). rule_ok rule"
  shows "\<forall>rule \<in> set (rt_rules r'). rule_ok rule"
  using assms
proof (induction options arbitrary: r)
  case (Cons o' options)
  then obtain rule where rule: "NewRule lib aenv False o' = Inr rule"
      and rest: "initialize_rules lib aenv options (r\<lparr>rt_rules := rt_rules r @ [rule]\<rparr>) = Inr r'"
    by (auto simp: bind_result_Inr_iff)
  have "rule_ok rule"
    using NewRule_ok [OF rule] Cons.prems(2) by simp
  then have rules: "\<forall>rule \<in> set (rt_rules (r\<lparr>rt_rules := rt_rules r @ [rule]\<rparr>)). rule_ok rule"
    using Cons.prems(3) by simp
  have options: "\<forall>o' \<in> set options. configured o'"
    using Cons.prems(2) by simp
  show ?case
    by (rule Cons.IH [OF rest options rules])
qed simp


lemma rule_Start_action: "rule_Start mgr router rule heap = Inr (rule', heap') \<Longrightarrow> rule_Action rule' = rule_Action rule"
  by (cases rule) (auto simp: bind_result_Inr_iff default_Start_def)

lemma rules_Start_action: "rules_Start mgr router rules heap = Inr (rules', heap') \<Longrightarrow> map rule_Action rules' = map rule_Action rules"
proof (induction rules arbitrary: heap rules')
  case (Cons rule rules)
  then obtain rule' heap1 rest where "rule_Start mgr router rule heap = Inr (rule', heap1)"
      "rules_Start mgr router rules heap1 = Inr (rest, heap')" "rules' = rule' # rest"
    by (auto simp: bind_result_Inr_iff)
  then show ?case
    using Cons.IH rule_Start_action by simp
qed simp

lemma started_rules_ok:
  assumes "route_Start senv mgr StartStatePostStart heap r = Inr (r', heap')" and "\<forall>rule \<in> set (rt_rules r). rule_ok rule"
  shows "\<forall>rule \<in> set (rt_rules r'). rule_ok rule"
proof -
  have "map rule_Action (rt_rules r') = map rule_Action (rt_rules r)"
    using assms(1) rules_Start_action
    by (auto simp: route_Start_def bind_result_Inr_iff StartStateStart_def StartStatePostStart_def)
  then have same: "rule_Action ` set (rt_rules r') = rule_Action ` set (rt_rules r)"
    by (metis list.set_map)
  show ?thesis
  proof
    fix rule assume "rule \<in> set (rt_rules r')"
    then have "rule_Action rule \<in> rule_Action ` set (rt_rules r)"
      unfolding same [symmetric] by (rule imageI)
    then obtain rule0 where "rule0 \<in> set (rt_rules r)" "rule_Action rule = rule_Action rule0"
      by (rule imageE)
    then show "rule_ok rule"
      using assms(2) unfolding rule_ok_def by metis
  qed
qed

section \<open>What a connection is handed to\<close>

lemma fail_panics: "fail e = Panicked p \<Longrightarrow> error_panics e"
  by (cases e rule: fail.cases) (auto simp: error_panics_def)

lemma fail_not_routed: "fail e \<noteq> Routed ob h conn md"
  by (cases e rule: fail.cases) auto

lemma reject_with_fails:
  assumes "route_action_ok (ActionReject act)"
  shows "\<exists>e. fst (reject_with timeNow act i rules) = Failed e"
  using assms by (auto simp: reject_with_def RuleActionReject_Error_def Let_def)

text \<open>An outbound of the manager that supports the network.\<close>

definition usable :: "('d, 'z) router_env_scheme \<Rightarrow> string \<Rightarrow> managed \<Rightarrow> bool" where
  "usable env network ob \<longleftrightarrow> network \<in> set (rv_Network env ob) \<and> (rv_Default env = Some ob \<or> (\<exists>tag. rv_Outbound env tag = Some ob))"

lemma default_for_usable: "default_for env network message = Inr ob \<Longrightarrow> usable env network ob"
  by (auto simp: default_for_def usable_def split: option.splits if_splits)

lemma outbound_for_usable: "outbound_for env network called tag = Inr ob \<Longrightarrow> usable env network ob"
  by (auto simp: outbound_for_def usable_def split: option.splits if_splits)

lemma outbound_errors:
  "rv_Default env \<noteq> None \<Longrightarrow> default_for env network message = Inl e \<Longrightarrow> \<exists>m. e = Err m"
  "outbound_for env network called tag = Inl e \<Longrightarrow> \<exists>m. e = Err m"
  by (auto simp: default_for_def outbound_for_def split: option.splits if_splits)

definition network_of :: "bool \<Rightarrow> string" where
  "network_of udp = (if udp then NetworkUDP else NetworkTCP)"

fun selection_ok :: "('d, 'z) router_env_scheme \<Rightarrow> bool \<Rightarrow> selection \<Rightarrow> bool" where
  "selection_ok env udp (SelectOutbound (Inl e)) \<longleftrightarrow> (\<exists>m. e = Err m)"
| "selection_ok env udp (SelectOutbound (Inr ob)) \<longleftrightarrow> usable env (network_of udp) ob"
| "selection_ok env udp (SelectReject act i) \<longleftrightarrow> route_action_ok (ActionReject act)"
| "selection_ok env udp SelectHijackDNS \<longleftrightarrow> True"
| "selection_ok env udp SelectNothing \<longleftrightarrow> False"

lemma selection_ok_outbound: "selection_ok env udp (SelectOutbound (outbound_for env (network_of udp) called tag))"
proof (cases "outbound_for env (network_of udp) called tag")
  case (Inl e)
  then show ?thesis using outbound_errors(2) [OF Inl] by simp
next
  case (Inr ob)
  then show ?thesis using outbound_for_usable [OF Inr] by simp
qed

lemma selection_ok_default:
  assumes "rv_Default env \<noteq> None"
  shows "selection_ok env udp (SelectOutbound (default_for env (network_of udp) message))"
proof (cases "default_for env (network_of udp) message")
  case (Inl e)
  then show ?thesis using outbound_errors(1) [OF assms Inl] by simp
next
  case (Inr ob)
  then show ?thesis using default_for_usable [OF Inr] by simp
qed

text \<open>The rule selected outside of a pre-match is one the router can carry out.\<close>

lemma select_outbound_ok:
  assumes "rv_Default env \<noteq> None"
    and "\<And>rule i. selected = Some (rule, i) \<Longrightarrow> rule_ok rule \<and> (\<exists>act. rule_Action rule = Some act \<and> final_action False False metadata act)"
  shows "selection_ok env udp (select_outbound env udp selected)"
proof (cases selected)
  case None
  then show ?thesis
    using selection_ok_default [OF assms(1)] unfolding select_outbound_def network_of_def [symmetric] by simp
next
  case (Some p)
  obtain rule i where p: "p = (rule, i)" by (cases p)
  obtain act where act: "rule_Action rule = Some act" "final_action False False metadata act" "route_action_ok act"
    using assms(2) [OF Some [unfolded p]] unfolding rule_ok_def by force
  show ?thesis
    unfolding select_outbound_def network_of_def [symmetric] Some p Let_def option.case prod.case act(1)
    using act(2,3) by (cases act) (simp_all add: selection_ok_outbound final_action_def action_type_defs del: selection_ok.simps(1,2))
qed

fun outcome_ok :: "('d, 'z) router_env_scheme \<Rightarrow> bool \<Rightarrow> 'conn outcome \<Rightarrow> bool" where
  "outcome_ok env udp (Panicked _) \<longleftrightarrow> False"
| "outcome_ok env udp (Routed ob _ _ _) \<longleftrightarrow> usable env (network_of udp) ob"
| "outcome_ok env udp _ \<longleftrightarrow> True"

lemma outcome_ok_fail: "\<not> error_panics e \<Longrightarrow> outcome_ok env udp (fail e)"
  by (cases e rule: fail.cases) (auto simp: error_panics_def)

lemma outcome_ok_reject: "route_action_ok (ActionReject act) \<Longrightarrow> outcome_ok env udp (fst (reject_with timeNow act i rules))"
  using reject_with_fails [of act timeNow i rules] by (metis outcome_ok.simps(3))

lemma route_selected_ok:
  assumes "\<And>e. mr_fatal m = Some e \<Longrightarrow> \<not> error_panics e"
    and "mr_fatal m = None \<Longrightarrow> selection_ok env udp (select_outbound env udp (mr_selected m))"
    and "\<And>md. outcome_ok env udp (hijackDNS md)" and "\<And>ob md. usable env (network_of udp) ob \<Longrightarrow> outcome_ok env udp (routed ob md)"
  shows "outcome_ok env udp (fst (route_selected env udp hijackDNS routed rules m))"
proof (cases "mr_fatal m")
  case (Some e)
  then show ?thesis
    using assms(1) outcome_ok_fail by (simp add: route_selected_def)
next
  case None
  then have ok: "selection_ok env udp (select_outbound env udp (mr_selected m))"
    using assms(2) by simp
  show ?thesis
  proof (cases "select_outbound env udp (mr_selected m)")
    case (SelectOutbound r)
    then show ?thesis
      using None ok assms(4) by (cases r) (auto simp: route_selected_def)
  next
    case (SelectReject act i)
    then show ?thesis
      using None ok by (simp add: route_selected_def outcome_ok_reject del: route_action_ok.simps)
  qed (use None ok assms(3) in \<open>simp_all add: route_selected_def\<close>)
qed

lemma matchRule_stream:
  assumes "lookup_ok env" and "\<forall>rule \<in> set rules. rule_ok rule"
  shows "\<exists>m cache'. matchRule env rules preMatch supportBypass (StreamInput reads) metadata cache dns = Some (m, cache') \<and>
    (\<forall>e. mr_fatal m = Some e \<longrightarrow> \<not> error_panics e) \<and>
    stream_bytes (mr_state m) = input_data (StreamInput reads) \<and>
    (\<forall>rule i. mr_selected m = Some (rule, i) \<longrightarrow> rule \<in> set rules \<and>
      (\<exists>act. rule_Action rule = Some act \<and> final_action preMatch supportBypass (ms_metadata (mr_state m)) act))"
proof -
  obtain metadata1 cache' where process: "find_process env metadata cache = (metadata1, cache')"
    by fastforce
  let ?start = "\<lambda>md. \<lparr>ms_metadata = md, ms_dns = dns, ms_input = StreamInput reads, ms_buffers = [], ms_packetBuffers = []\<rparr>"
  show ?thesis
  proof (cases "find_domain env dns (find_neighbor env metadata1)")
    case (Inl e)
    have "\<not> error_panics (RouteError e)"
      using Inl by (auto simp: find_domain_def Let_def split: option.splits if_splits)
    then show ?thesis
      using Inl process by (simp add: matchRule_def Let_def stream_bytes_def)
  next
    case (Inr metadata3)
    let ?s = "?start (set_ip_version (re_lib env) metadata3)"
    have stream: "is_stream (ms_input ?s)" by (simp add: is_stream_def)
    have actions: "\<forall>rule \<in> set rules. rule_Action rule \<noteq> None"
      using assms(2) unfolding rule_ok_def by (metis option.discI)
    obtain m where m: "match_rules env preMatch supportBypass rules 0 ?s = Some m"
        and fatal: "\<forall>e. mr_fatal m = Some e \<longrightarrow> \<not> error_panics e"
      using match_rules_stream [OF assms(1) stream actions] by blast
    have "stream_bytes (mr_state m) = input_data (StreamInput reads)"
      using match_rules_bytes [OF assms(1) stream m] by (simp add: stream_bytes_def)
    moreover have "rule \<in> set rules \<and>
        (\<exists>act. rule_Action rule = Some act \<and> final_action preMatch supportBypass (ms_metadata (mr_state m)) act)"
      if "mr_selected m = Some (rule, i)" for rule i
      using match_rules_selected [OF m that] by (metis add_0 diff_zero nth_mem)
    moreover have "matchRule env rules preMatch supportBypass (StreamInput reads) metadata cache dns = Some (m, cache')"
      using process Inr m by (simp add: matchRule_def Let_def)
    ultimately show ?thesis
      using fatal by blast
  qed
qed


section \<open>Properties\<close>

text \<open>The rules of a router that was made from options, initialised and started.\<close>

definition started_router :: "RuleOptions list \<Rightarrow> Router \<Rightarrow> bool" where
  "started_router rules r \<longleftrightarrow> (\<exists>lib aenv new sets heap options dnsRules r0 heap0 senv mgr heap1 heap2.
     route_Initialize lib aenv new rules sets heap (NewRouter options dnsRules) = Inr (r0, heap0) \<and>
     route_Start senv mgr StartStatePostStart heap1 r0 = Inr (r, heap2))"

lemma initialize_rule_sets_rules: "initialize_rule_sets new sets heap r = Inr (r', heap') \<Longrightarrow> rt_rules r' = rt_rules r"
  by (induction sets arbitrary: heap r) (auto simp: bind_result_Inr_iff Let_def split: if_splits)

lemma started_router_ok:
  assumes "started_router rules r" and "\<forall>o' \<in> set rules. configured o'"
  shows "\<forall>rule \<in> set (rt_rules r). rule_ok rule"
proof -
  obtain lib aenv new sets heap options dnsRules r0 heap0 senv mgr heap1 heap2 r1
    where init: "initialize_rules lib aenv rules (NewRouter options dnsRules) = Inr r1"
      and sets: "initialize_rule_sets new sets heap r1 = Inr (r0, heap0)"
      and start: "route_Start senv mgr StartStatePostStart heap1 r0 = Inr (r, heap2)"
    using assms(1) unfolding started_router_def route_Initialize_def bind_result_Inr_iff by blast
  have "\<forall>rule \<in> set (rt_rules r1). rule_ok rule"
    by (rule initialize_rules_ok [OF init assms(2)]) (simp add: NewRouter_def)
  then show ?thesis
    using started_rules_ok [OF start] initialize_rule_sets_rules [OF sets] by simp
qed



section \<open>What the handler of a stream reads\<close>

text \<open>How the wrapped connections are read (\<^verbatim>\<open>bufio.CachedConn\<close>): what is cached comes first.\<close>

definition stream_laws :: "(net_conn \<Rightarrow> byte list) \<Rightarrow> bool" where
  "stream_laws f \<longleftrightarrow> (\<forall>c. f (DeadlineConn c) = f c) \<and> (\<forall>c b. f (CachedConn c b) = b @ f c) \<and> (\<forall>t c. f (TrackedConn t c) = f c)"

lemma cached_conn_stream: "stream_laws f \<Longrightarrow> f (cached_conn buffers c) = concat (rev buffers) @ f c"
  by (induction buffers arbitrary: c) (simp_all add: cached_conn_def stream_laws_def)

lemma tracked_conn_stream: "stream_laws f \<Longrightarrow> f (tracked_conn trackers c) = f c"
  by (induction trackers arbitrary: c) (simp_all add: tracked_conn_def stream_laws_def)

lemma reject_with_not_routed: "fst (reject_with timeNow act i rules) \<noteq> Routed ob h conn md"
  by (auto simp: reject_with_def split: sum.splits err.splits prod.splits)

lemma route_selected_routed:
  assumes "fst (route_selected env udp hijackDNS routed rules m) = Routed ob h conn md"
    and "\<And>x. hijackDNS x \<noteq> Routed ob h conn md"
  shows "\<exists>ob'. routed ob' (ms_metadata (mr_state m)) = Routed ob h conn md"
proof (cases "mr_fatal m")
  case None
  then show ?thesis
    using assms
    by (cases "select_outbound env udp (mr_selected m)")
      (auto simp: route_selected_def fail_not_routed reject_with_not_routed split: sum.splits if_splits)
qed (use assms(1) in \<open>simp add: route_selected_def fail_not_routed\<close>)


section \<open>A started router\<close>

definition sample_sniff_options :: "string \<Rightarrow> RuleOptions" where
  "sample_sniff_options name = RuleOptions RuleTypeDefault
     (DefaultRuleOptions_zero\<lparr>dr_Port := Some [443], dr_RuleAction := RuleActionOptions_zero\<lparr>ra_Action := RuleActionTypeSniff,
        ra_SniffOptions := \<lparr>sno_Sniffer = Some [name], sno_Timeout = 0\<rparr>,
        ra_RejectOptions := \<lparr>rej_Method = RuleActionRejectMethodDefault, rej_NoDrop = False\<rparr>\<rparr>\<rparr>) [] [] False RuleActionOptions_zero"

definition sample_route_options :: "RuleOptions list" where
  "sample_route_options = [sample_sniff_options ''rdp'', sample_sniff_options ''ssh'']"

definition sample_new_router :: Router where
  "sample_new_router = NewRouter \<lparr>rop_Rules = sample_route_options, rop_FindProcess = False, rop_FindNeighbor = False\<rparr> []"

definition sample_route_rules :: "route_rule list" where
  "sample_route_rules = map (\<lambda>o'. projr (NewRule sample_lib sample_aenv False o')) sample_route_options"

definition sample_started_router :: Router where
  "sample_started_router = sample_new_router\<lparr>
     rt_rules := fst (projr (rules_Start (\<lambda>_. None) Map.empty sample_route_rules (\<lambda>_. sample_rule_set))), rt_started := True\<rparr>"

definition sample_full_env :: "unit router_env" where
  "sample_full_env = route_env.extend sample_route_env \<lparr>rv_Inbound = (\<lambda>_. None), rv_Outbound = (\<lambda>_. None),
     rv_Default = Some (sample_object 0 ''direct'' []), rv_Network = (\<lambda>_. [''tcp'', ''udp'']), rv_ConnectionHandler = (\<lambda>_. False),
     rv_PacketConnectionHandler = (\<lambda>_. False), rv_DirectRoute = (\<lambda>_. False), rv_muxFqdn = ''sp.mux.sing-box.arpa'',
     rv_vmessMuxFqdn = ''v1.mux.cool'', rv_uotMagicAddress = ''sp.v2.udp-over-tcp.arpa'', rv_uotLegacyMagicAddress = ''sp.udp-over-tcp.arpa'',
     rv_timeNow = 0\<rparr>"

lemma sample_started: "started_router sample_route_options sample_started_router"
proof -
  have "\<not> isl (NewRule sample_lib sample_aenv False (sample_sniff_options ''rdp''))" "\<not> isl (NewRule sample_lib sample_aenv False (sample_sniff_options ''ssh''))"
    by code_simp+
  then obtain r1 r2 where new: "NewRule sample_lib sample_aenv False (sample_sniff_options ''rdp'') = Inr r1"
    "NewRule sample_lib sample_aenv False (sample_sniff_options ''ssh'') = Inr r2"
    by (metis sum.collapse(2))
  have "\<not> isl (validateNoNestedRuleActions False (sample_sniff_options n))" for n
    by (simp add: sample_sniff_options_def)
  then have "validateNoNestedRuleActions False (sample_sniff_options n) = Inr ()" for n
    by (metis old.unit.exhaust sum.collapse(2))
  then have "route_Initialize sample_lib sample_aenv (\<lambda>_. Inl EOF) sample_route_options [] (\<lambda>_. sample_rule_set) sample_new_router
      = Inr (sample_new_router\<lparr>rt_rules := sample_route_rules\<rparr>, \<lambda>_. sample_rule_set)"
    using new
    by (simp add: route_Initialize_def with_cause_def sample_route_options_def sample_route_rules_def sample_new_router_def NewRouter_def)
  moreover have "\<not> isl (rules_Start (\<lambda>_. None) Map.empty sample_route_rules (\<lambda>_. sample_rule_set))"
    by code_simp
  then have "route_Start \<lparr>se_StartContext = Inr, se_Android = False, se_NewSearcher = None, se_StartNeighbor = None\<rparr> (\<lambda>_. None) StartStatePostStart
      (\<lambda>_. sample_rule_set) (sample_new_router\<lparr>rt_rules := sample_route_rules\<rparr>)
      = Inr (sample_started_router, snd (projr (rules_Start (\<lambda>_. None) Map.empty sample_route_rules (\<lambda>_. sample_rule_set))))"
    by (cases "rules_Start (\<lambda>_. None) Map.empty sample_route_rules (\<lambda>_. sample_rule_set)")
      (auto simp: route_Start_def StartStateStart_def StartStatePostStart_def sample_started_router_def sample_new_router_def NewRouter_def)
  ultimately show ?thesis
    unfolding started_router_def sample_new_router_def by blast
qed


primrec sample_stream :: "byte list \<Rightarrow> net_conn \<Rightarrow> byte list" where
  "sample_stream rest RawConn = rest"
| "sample_stream rest (DeadlineConn c) = sample_stream rest c"
| "sample_stream rest (CachedConn c b) = b @ sample_stream rest c"
| "sample_stream rest (TrackedConn t c) = sample_stream rest c"

lemma sample_configured: "\<forall>o' \<in> set sample_route_options. configured o'"
  by code_simp

lemma sample_env_lookup: "lookup_ok (route_env.truncate sample_full_env)"
  by (simp add: lookup_ok_def sample_full_env_def sample_route_env_def route_env.defs)



end
