(* ===== verification/Srs.thy ===== *)
theory Srs
  imports Rule_Set Fakeip Sniff
begin

text \<open>
  The binary format of rule sets (\<^verbatim>\<open>src/common/srs\<close>): \<^verbatim>\<open>Write\<close> compiles the options of
  headless rules, \<^verbatim>\<open>Read\<close> loads them. Domain lists are stored as the matchers of the
  \<^verbatim>\<open>domain\<close> package and lists of CIDRs as the ranges of an IP set, so that what is read back holds matchers
  and sets in place of the lists.

  Compression, the matchers and the IP sets are library code: the record \<open>srslib\<close>. A matcher that is read comes with
  what its \<^verbatim>\<open>Dump\<close> returns. The error of a damaged compressed stream is represented by the end of its data.
  \<^verbatim>\<open>make\<close> panics when the slice does not fit into the address space of a 64-bit system; running out of memory
  is not modelled.
\<close>

section \<open>Library functions\<close>

record srslib =
  zlib_Compress :: "byte list \<Rightarrow> byte list"
  zlib_Decompress :: "byte list \<Rightarrow> byte list result"
  Matcher_Write :: "string list \<Rightarrow> string list \<Rightarrow> bool \<Rightarrow> byte list"
  ReadMatcher :: "reader \<Rightarrow> ((matcher \<times> string list \<times> string list) \<times> reader) result"
  AdGuardMatcher_Write :: "string list \<Rightarrow> byte list"
  ReadAdGuardMatcher :: "reader \<Rightarrow> ((matcher \<times> string list) \<times> reader) result"
  IPSet_Ranges :: "(prefix + addr) list \<Rightarrow> (addr \<times> addr) list result"
  Ranges_IPSet :: "(addr \<times> addr) list \<Rightarrow> ipset"
  Ranges_Prefixes :: "(addr \<times> addr) list \<Rightarrow> string list"

text \<open>\<^verbatim>\<open>binary.ReadUvarint\<close> and \<^verbatim>\<open>varbin.WriteUvarint\<close>: seven bits a byte, the lowest first, at
  most ten bytes.\<close>

definition uvarint_overflow :: err where "uvarint_overflow = Err ''binary: varint overflows a 64-bit integer''"

fun uvarint_loop :: "nat \<Rightarrow> u64 \<Rightarrow> reader \<Rightarrow> (u64 \<times> reader) result" where
  "uvarint_loop i x [] = Inl (if i \<ge> 10 then uvarint_overflow else if i > 0 then ErrUnexpectedEOF else EOF)"
| "uvarint_loop i x (b # r) =
     (if i \<ge> 10 then Inl uvarint_overflow
      else if b < 0x80 then
        (if i = 9 \<and> b > 1 then Inl uvarint_overflow else Inr (x OR push_bit (7 * i) (ucast b), r))
      else uvarint_loop (Suc i) (x OR push_bit (7 * i) (ucast (b AND 0x7f))) r)"

definition binary_ReadUvarint :: "reader \<Rightarrow> (u64 \<times> reader) result" where
  "binary_ReadUvarint r = uvarint_loop 0 0 r"

function WriteUvarint :: "u64 \<Rightarrow> byte list" where
  "WriteUvarint x = (if x \<ge> 0x80 then (ucast x OR 0x80) # WriteUvarint (drop_bit 7 x) else [ucast x])"
  by auto

termination
proof (relation "measure unat")
  fix x :: u64
  assume "0x80 \<le> x"
  then have "0 < unat x"
    by (simp add: unat_gt_0) auto
  then show "(drop_bit 7 x, x) \<in> measure unat"
    by (simp add: drop_bit_eq_div unat_div)
qed simp

declare WriteUvarint.simps [simp del]

text \<open>\<^verbatim>\<open>make\<close> with elements of a size in bytes.\<close>

definition maxAlloc :: nat where "maxAlloc = 2 ^ 48"

definition make_slice :: "nat \<Rightarrow> u64 \<Rightarrow> unit result" where
  "make_slice elem n =
     (if unat n * elem > maxAlloc then Inl (Panic ''makeslice: len out of range'') else Inr ())"

text \<open>A loop that reads \<open>n\<close> elements.\<close>

fun read_n :: "nat \<Rightarrow> (reader \<Rightarrow> ('a \<times> reader) result) \<Rightarrow> reader \<Rightarrow> ('a list \<times> reader) result" where
  "read_n 0 f r = Inr ([], r)"
| "read_n (Suc n) f r =
     bind_result (f r) (\<lambda>(x, r). bind_result (read_n n f r) (\<lambda>(xs, r). Inr (x # xs, r)))"

section \<open>Lists\<close>

definition read_string :: "reader \<Rightarrow> (string \<times> reader) result" where
  "read_string r =
     bind_result (binary_ReadUvarint r) (\<lambda>(strLen, r).
     bind_result (make_slice 1 strLen) (\<lambda>_.
     bind_result (ReadFull (unat strLen) r) (\<lambda>(buf, r). Inr (bytes_string buf, r))))"

definition readRuleItemString :: "reader \<Rightarrow> (string list \<times> reader) result" where
  "readRuleItemString r =
     bind_result (binary_ReadUvarint r) (\<lambda>(len, r).
     bind_result (make_slice 16 len) (\<lambda>_. read_n (unat len) read_string r))"

definition write_string :: "string \<Rightarrow> byte list" where
  "write_string s = WriteUvarint (of_nat (length s)) @ string_bytes s"

definition writeRuleItemString :: "u8 \<Rightarrow> string list \<Rightarrow> byte list" where
  "writeRuleItemString itemType vs =
     itemType # WriteUvarint (of_nat (length vs)) @ concat (map write_string vs)"

definition readRuleItemUint8 :: "reader \<Rightarrow> (u8 list \<times> reader) result" where
  "readRuleItemUint8 r =
     bind_result (binary_ReadUvarint r) (\<lambda>(len, r).
     bind_result (make_slice 1 len) (\<lambda>_. ReadFull (unat len) r))"

definition writeRuleItemUint8 :: "u8 \<Rightarrow> u8 list \<Rightarrow> byte list" where
  "writeRuleItemUint8 itemType vs = itemType # WriteUvarint (of_nat (length vs)) @ vs"

fun uint16s :: "byte list \<Rightarrow> u16 list" where
  "uint16s (a # b # bs) = be16 a b # uint16s bs"
| "uint16s _ = []"

definition uint16_bytes :: "u16 \<Rightarrow> byte list" where
  "uint16_bytes x = word_bytes 2 x"

definition readRuleItemUint16 :: "reader \<Rightarrow> (u16 list \<times> reader) result" where
  "readRuleItemUint16 r =
     bind_result (binary_ReadUvarint r) (\<lambda>(len, r).
     bind_result (make_slice 2 len) (\<lambda>_.
     bind_result (ReadFull (2 * unat len) r) (\<lambda>(bs, r). Inr (uint16s bs, r))))"

definition writeRuleItemUint16 :: "u8 \<Rightarrow> u16 list \<Rightarrow> byte list" where
  "writeRuleItemUint16 itemType vs =
     itemType # WriteUvarint (of_nat (length vs)) @ concat (map uint16_bytes vs)"

section \<open>Addresses\<close>

definition read_addr :: "golib \<Rightarrow> reader \<Rightarrow> (addr \<times> reader) result" where
  "read_addr lib r =
     bind_result (binary_ReadUvarint r) (\<lambda>(addrLen, r).
     bind_result (make_slice 1 addrLen) (\<lambda>_.
     bind_result (ReadFull (unat addrLen) r) (\<lambda>(addrSlice, r). Inr (AddrFromIP lib addrSlice, r))))"

definition write_addr :: "addr \<Rightarrow> byte list" where
  "write_addr a = WriteUvarint (of_nat (length (addr_AsSlice a))) @ addr_AsSlice a"

definition readPrefix :: "golib \<Rightarrow> reader \<Rightarrow> (prefix \<times> reader) result" where
  "readPrefix lib r =
     bind_result (read_addr lib r) (\<lambda>(a, r).
     bind_result (ReadByte r) (\<lambda>(prefixBits, r). Inr (PrefixFrom a (unat prefixBits), r)))"

definition writePrefix :: "prefix \<Rightarrow> byte list" where
  "writePrefix p = write_addr (prefix_Addr p) @ [case prefix_Bits p of None \<Rightarrow> 255 | Some n \<Rightarrow> of_nat n]"

definition read_prefixes :: "golib \<Rightarrow> reader \<Rightarrow> (prefix list \<times> reader) result" where
  "read_prefixes lib r =
     bind_result (binary_ReadUvarint r) (\<lambda>(prefixCount, r). read_n (unat prefixCount) (readPrefix lib) r)"

definition write_prefixes :: "prefix list \<Rightarrow> byte list" where
  "write_prefixes ps = WriteUvarint (of_nat (length ps)) @ concat (map writePrefix ps)"

definition read_range :: "golib \<Rightarrow> reader \<Rightarrow> ((addr \<times> addr) \<times> reader) result" where
  "read_range lib r =
     bind_result (read_addr lib r) (\<lambda>(from, r). bind_result (read_addr lib r) (\<lambda>(to, r). Inr ((from, to), r)))"

definition readIPSet :: "golib \<Rightarrow> reader \<Rightarrow> ((addr \<times> addr) list \<times> reader) result" where
  "readIPSet lib r =
     bind_result (ReadByte r) (\<lambda>(version, r).
     if version \<noteq> 1 then Inl ErrInvalid
     else
       bind_result (ReadFull 8 r) (\<lambda>(len, r).
       bind_result (make_slice 48 (of_nat (be_nat len))) (\<lambda>_. read_n (be_nat len) (read_range lib) r)))"

definition writeIPSet :: "(addr \<times> addr) list \<Rightarrow> byte list" where
  "writeIPSet rr = 1 # word_bytes 8 (of_nat (length rr) :: u64) @ concat (map (\<lambda>(from, to). write_addr from @ write_addr to) rr)"

definition writeRuleItemCIDR :: "golib \<Rightarrow> srslib \<Rightarrow> u8 \<Rightarrow> string list \<Rightarrow> byte list result" where
  "writeRuleItemCIDR lib sl itemType vs =
     bind_result (parse_cidr_all lib vs) (\<lambda>entries.
     bind_result (IPSet_Ranges sl entries) (\<lambda>ipSet. Inr (itemType # writeIPSet ipSet)))"

text \<open>The addresses of interfaces: a map with its entries in order; \<^verbatim>\<open>Put\<close> of a key the map has replaces the
  value in its place.\<close>

fun put_entry :: "'k \<Rightarrow> 'v \<Rightarrow> ('k \<times> 'v) list \<Rightarrow> ('k \<times> 'v) list" where
  "put_entry k v [] = [(k, v)]"
| "put_entry k v ((k', v') # rest) = (if k' = k then (k, v) # rest else (k', v') # put_entry k v rest)"

definition read_entry :: "golib \<Rightarrow> reader \<Rightarrow> ((interface_type \<times> prefix list) \<times> reader) result" where
  "read_entry lib r =
     bind_result (ReadByte r) (\<lambda>(key, r). bind_result (read_prefixes lib r) (\<lambda>(vs, r). Inr ((key, vs), r)))"

definition read_entries :: "golib \<Rightarrow> reader \<Rightarrow> ((interface_type \<times> prefix list) list \<times> reader) result" where
  "read_entries lib r =
     bind_result (binary_ReadUvarint r) (\<lambda>(size, r).
     bind_result (read_n (unat size) (read_entry lib) r) (\<lambda>(es, r). Inr (foldl (\<lambda>m (k, v). put_entry k v m) [] es, r)))"

definition write_entries :: "(interface_type \<times> prefix list) list \<Rightarrow> byte list" where
  "write_entries es = WriteUvarint (of_nat (length es)) @ concat (map (\<lambda>(k, v). k # write_prefixes v) es)"

section \<open>Rules\<close>

definition MagicBytes :: "byte list" where "MagicBytes = [0x53, 0x52, 0x53]"

definition ruleItemQueryType :: u8 where "ruleItemQueryType = 0"
definition ruleItemNetwork :: u8 where "ruleItemNetwork = 1"
definition ruleItemDomain :: u8 where "ruleItemDomain = 2"
definition ruleItemDomainKeyword :: u8 where "ruleItemDomainKeyword = 3"
definition ruleItemDomainRegex :: u8 where "ruleItemDomainRegex = 4"
definition ruleItemSourceIPCIDR :: u8 where "ruleItemSourceIPCIDR = 5"
definition ruleItemIPCIDR :: u8 where "ruleItemIPCIDR = 6"
definition ruleItemSourcePort :: u8 where "ruleItemSourcePort = 7"
definition ruleItemSourcePortRange :: u8 where "ruleItemSourcePortRange = 8"
definition ruleItemPort :: u8 where "ruleItemPort = 9"
definition ruleItemPortRange :: u8 where "ruleItemPortRange = 10"
definition ruleItemProcessName :: u8 where "ruleItemProcessName = 11"
definition ruleItemProcessPath :: u8 where "ruleItemProcessPath = 12"
definition ruleItemPackageName :: u8 where "ruleItemPackageName = 13"
definition ruleItemWIFISSID :: u8 where "ruleItemWIFISSID = 14"
definition ruleItemWIFIBSSID :: u8 where "ruleItemWIFIBSSID = 15"
definition ruleItemAdGuardDomain :: u8 where "ruleItemAdGuardDomain = 16"
definition ruleItemProcessPathRegex :: u8 where "ruleItemProcessPathRegex = 17"
definition ruleItemNetworkType :: u8 where "ruleItemNetworkType = 18"
definition ruleItemNetworkIsExpensive :: u8 where "ruleItemNetworkIsExpensive = 19"
definition ruleItemNetworkIsConstrained :: u8 where "ruleItemNetworkIsConstrained = 20"
definition ruleItemNetworkInterfaceAddress :: u8 where "ruleItemNetworkInterfaceAddress = 21"
definition ruleItemDefaultInterfaceAddress :: u8 where "ruleItemDefaultInterfaceAddress = 22"
definition ruleItemPackageNameRegex :: u8 where "ruleItemPackageNameRegex = 23"
definition ruleItemFinal :: u8 where "ruleItemFinal = 0xFF"

lemmas item_types = ruleItemQueryType_def ruleItemNetwork_def ruleItemDomain_def ruleItemDomainKeyword_def
  ruleItemDomainRegex_def ruleItemSourceIPCIDR_def ruleItemIPCIDR_def ruleItemSourcePort_def ruleItemSourcePortRange_def
  ruleItemPort_def ruleItemPortRange_def ruleItemProcessName_def ruleItemProcessPath_def ruleItemPackageName_def
  ruleItemWIFISSID_def ruleItemWIFIBSSID_def ruleItemAdGuardDomain_def ruleItemProcessPathRegex_def ruleItemNetworkType_def
  ruleItemNetworkIsExpensive_def ruleItemNetworkIsConstrained_def ruleItemNetworkInterfaceAddress_def
  ruleItemDefaultInterfaceAddress_def ruleItemPackageNameRegex_def ruleItemFinal_def

text \<open>One round of the loop of \<^verbatim>\<open>readDefaultRule\<close>: an item of the given type is read into the rule.\<close>

definition read_item ::
    "golib \<Rightarrow> srslib \<Rightarrow> bool \<Rightarrow> u8 \<Rightarrow> DefaultHeadlessRuleOptions \<Rightarrow> reader \<Rightarrow> (DefaultHeadlessRuleOptions \<times> reader) result" where
  "read_item lib sl recover itemType rule r =
     (let strings = (\<lambda>set_field. bind_result (readRuleItemString r) (\<lambda>(xs, r). Inr (set_field (Some xs), r)));
          uint16s = (\<lambda>set_field. bind_result (readRuleItemUint16 r) (\<lambda>(xs, r). Inr (set_field (Some xs), r)))
      in if itemType = ruleItemQueryType then uint16s (\<lambda>xs. rule\<lparr>dh_QueryType := xs\<rparr>)
         else if itemType = ruleItemNetwork then strings (\<lambda>xs. rule\<lparr>dh_Network := xs\<rparr>)
         else if itemType = ruleItemDomain then
           bind_result (ReadMatcher sl r) (\<lambda>((m, domains, suffixes), r).
             let rule = rule\<lparr>dh_DomainMatcher := Some m\<rparr>
             in Inr (if recover then rule\<lparr>dh_Domain := Some domains, dh_DomainSuffix := Some suffixes\<rparr> else rule, r))
         else if itemType = ruleItemDomainKeyword then strings (\<lambda>xs. rule\<lparr>dh_DomainKeyword := xs\<rparr>)
         else if itemType = ruleItemDomainRegex then strings (\<lambda>xs. rule\<lparr>dh_DomainRegex := xs\<rparr>)
         else if itemType = ruleItemSourceIPCIDR then
           bind_result (readIPSet lib r) (\<lambda>(rr, r).
             let rule = rule\<lparr>dh_SourceIPSet := Some (Ranges_IPSet sl rr)\<rparr>
             in Inr (if recover then rule\<lparr>dh_SourceIPCIDR := Some (Ranges_Prefixes sl rr)\<rparr> else rule, r))
         else if itemType = ruleItemIPCIDR then
           bind_result (readIPSet lib r) (\<lambda>(rr, r).
             let rule = rule\<lparr>dh_IPSet := Some (Ranges_IPSet sl rr)\<rparr>
             in Inr (if recover then rule\<lparr>dh_IPCIDR := Some (Ranges_Prefixes sl rr)\<rparr> else rule, r))
         else if itemType = ruleItemSourcePort then uint16s (\<lambda>xs. rule\<lparr>dh_SourcePort := xs\<rparr>)
         else if itemType = ruleItemSourcePortRange then strings (\<lambda>xs. rule\<lparr>dh_SourcePortRange := xs\<rparr>)
         else if itemType = ruleItemPort then uint16s (\<lambda>xs. rule\<lparr>dh_Port := xs\<rparr>)
         else if itemType = ruleItemPortRange then strings (\<lambda>xs. rule\<lparr>dh_PortRange := xs\<rparr>)
         else if itemType = ruleItemProcessName then strings (\<lambda>xs. rule\<lparr>dh_ProcessName := xs\<rparr>)
         else if itemType = ruleItemProcessPath then strings (\<lambda>xs. rule\<lparr>dh_ProcessPath := xs\<rparr>)
         else if itemType = ruleItemProcessPathRegex then strings (\<lambda>xs. rule\<lparr>dh_ProcessPathRegex := xs\<rparr>)
         else if itemType = ruleItemPackageName then strings (\<lambda>xs. rule\<lparr>dh_PackageName := xs\<rparr>)
         else if itemType = ruleItemPackageNameRegex then strings (\<lambda>xs. rule\<lparr>dh_PackageNameRegex := xs\<rparr>)
         else if itemType = ruleItemWIFISSID then strings (\<lambda>xs. rule\<lparr>dh_WIFISSID := xs\<rparr>)
         else if itemType = ruleItemWIFIBSSID then strings (\<lambda>xs. rule\<lparr>dh_WIFIBSSID := xs\<rparr>)
         else if itemType = ruleItemAdGuardDomain then
           bind_result (ReadAdGuardMatcher sl r) (\<lambda>((m, ruleLines), r).
             let rule = rule\<lparr>dh_AdGuardDomainMatcher := Some m\<rparr>
             in Inr (if recover then rule\<lparr>dh_AdGuardDomain := Some ruleLines\<rparr> else rule, r))
         else if itemType = ruleItemNetworkType then
           bind_result (readRuleItemUint8 r) (\<lambda>(xs, r). Inr (rule\<lparr>dh_NetworkType := Some xs\<rparr>, r))
         else if itemType = ruleItemNetworkIsExpensive then Inr (rule\<lparr>dh_NetworkIsExpensive := True\<rparr>, r)
         else if itemType = ruleItemNetworkIsConstrained then Inr (rule\<lparr>dh_NetworkIsConstrained := True\<rparr>, r)
         else if itemType = ruleItemNetworkInterfaceAddress then
           bind_result (read_entries lib r) (\<lambda>(es, r). Inr (rule\<lparr>dh_NetworkInterfaceAddress := Some es\<rparr>, r))
         else if itemType = ruleItemDefaultInterfaceAddress then
           bind_result (read_prefixes lib r) (\<lambda>(vs, r).
             Inr (rule\<lparr>dh_DefaultInterfaceAddress := if vs = [] then None else Some vs\<rparr>, r))
         else Inl (Err ''unknown rule item type: ''))"

text \<open>The loop of \<^verbatim>\<open>readDefaultRule\<close>, and the rules with those below them. Every round and every rule
  reads a byte, so that more fuel than there are bytes is never used up (\<open>readRule_fuel\<close>).\<close>

definition out_of_fuel :: err where "out_of_fuel = Err ''out of fuel''"

primrec read_items ::
    "golib \<Rightarrow> srslib \<Rightarrow> bool \<Rightarrow> nat \<Rightarrow> DefaultHeadlessRuleOptions \<Rightarrow> reader \<Rightarrow> (DefaultHeadlessRuleOptions \<times> reader) result" where
  "read_items lib sl recover 0 rule r = Inl out_of_fuel"
| "read_items lib sl recover (Suc fuel) rule r =
     bind_result (ReadByte r) (\<lambda>(itemType, r).
       if itemType = ruleItemFinal then
         bind_result (ReadByte r) (\<lambda>(b, r). Inr (rule\<lparr>dh_Invert := b \<noteq> 0\<rparr>, r))
       else bind_result (read_item lib sl recover itemType rule r) (\<lambda>(rule, r). read_items lib sl recover fuel rule r))"

definition readDefaultRule ::
    "golib \<Rightarrow> srslib \<Rightarrow> bool \<Rightarrow> nat \<Rightarrow> reader \<Rightarrow> (DefaultHeadlessRuleOptions \<times> reader) result" where
  "readDefaultRule lib sl recover fuel r = read_items lib sl recover fuel headless_options_zero r"

text \<open>The size of a headless rule in bytes, as an element of a slice.\<close>

definition headless_rule_size :: nat where "headless_rule_size = 648"

definition readLogicalRule ::
    "(reader \<Rightarrow> (HeadlessRuleOptions \<times> reader) result) \<Rightarrow> reader \<Rightarrow> ((string \<times> HeadlessRuleOptions list \<times> bool) \<times> reader) result" where
  "readLogicalRule read_rule r =
     bind_result (ReadByte r) (\<lambda>(mode, r).
     bind_result (if mode = 0 then Inr LogicalTypeAnd else if mode = 1 then Inr LogicalTypeOr else Inl (Err ''unknown logical mode: '')) (\<lambda>mode.
     bind_result (binary_ReadUvarint r) (\<lambda>(len, r).
     bind_result (make_slice headless_rule_size len) (\<lambda>_.
     bind_result (read_n (unat len) (\<lambda>r. with_cause ''read logical rule ['' (read_rule r)) r) (\<lambda>(rules, r).
     bind_result (ReadByte r) (\<lambda>(b, r). Inr ((mode, rules, b \<noteq> 0), r)))))))"

primrec readRule :: "golib \<Rightarrow> srslib \<Rightarrow> bool \<Rightarrow> nat \<Rightarrow> reader \<Rightarrow> (HeadlessRuleOptions \<times> reader) result" where
  "readRule lib sl recover 0 r = Inl out_of_fuel"
| "readRule lib sl recover (Suc fuel) r =
     bind_result (ReadByte r) (\<lambda>(ruleType, r).
       if ruleType = 0 then
         bind_result (readDefaultRule lib sl recover fuel r) (\<lambda>(options, r).
           Inr (HeadlessRuleOptions RuleTypeDefault options [] [] False, r))
       else if ruleType = 1 then
         bind_result (readLogicalRule (readRule lib sl recover fuel) r) (\<lambda>((mode, rules, inverted), r).
           Inr (HeadlessRuleOptions RuleTypeLogical headless_options_zero mode rules inverted, r))
       else Inl (Err ''unknown rule type: ''))"

definition RuleSetVersionCurrent :: u8 where "RuleSetVersionCurrent = 5"

definition srs_Read :: "golib \<Rightarrow> srslib \<Rightarrow> bool \<Rightarrow> byte list \<Rightarrow> PlainRuleSetCompat result" where
  "srs_Read lib sl recover r =
     bind_result (ReadFull 3 r) (\<lambda>(magicBytes, r).
     if magicBytes \<noteq> MagicBytes then Inl (Err ''invalid sing-box rule-set file'')
     else
       bind_result (ReadByte r) (\<lambda>(version, r).
       if version > RuleSetVersionCurrent then Inl (Err ''unsupported version: '')
       else
         bind_result (zlib_Decompress sl r) (\<lambda>r.
         bind_result (binary_ReadUvarint r) (\<lambda>(len, r).
         bind_result (make_slice headless_rule_size len) (\<lambda>_.
         bind_result (read_n (unat len) (\<lambda>r. with_cause ''read rule['' (readRule lib sl recover (Suc (length r)) r)) r) (\<lambda>(rules, r).
         Inr \<lparr>prs_Version = version, prs_Rules = rules\<rparr>))))))"

section \<open>Compiling rules\<close>

text \<open>\<^verbatim>\<open>writeDefaultRule\<close> is a sequence of conditional blocks, each of which writes an item or returns an
  error; some items need a version of the format.\<close>

definition since :: "u8 \<Rightarrow> string \<Rightarrow> u8 \<Rightarrow> byte list \<Rightarrow> byte list result" where
  "since version msg generateVersion item = (if generateVersion < version then Inl (Err msg) else Inr item)"

definition default_parts :: "golib \<Rightarrow> srslib \<Rightarrow> u8 \<Rightarrow> DefaultHeadlessRuleOptions \<Rightarrow> (bool \<times> byte list result) list" where
  "default_parts lib sl generateVersion rule =
     (let strings = (\<lambda>itemType xs. (slice xs \<noteq> [], Inr (writeRuleItemString itemType (slice xs))));
          uint16s = (\<lambda>itemType xs. (slice xs \<noteq> [], Inr (writeRuleItemUint16 itemType (slice xs))))
      in [uint16s ruleItemQueryType (dh_QueryType rule),
          strings ruleItemNetwork (dh_Network rule),
          (slice (dh_Domain rule) \<noteq> [] \<or> slice (dh_DomainSuffix rule) \<noteq> [],
             Inr (ruleItemDomain # Matcher_Write sl (slice (dh_Domain rule)) (slice (dh_DomainSuffix rule)) (generateVersion = 1))),
          strings ruleItemDomainKeyword (dh_DomainKeyword rule),
          strings ruleItemDomainRegex (dh_DomainRegex rule),
          (slice (dh_SourceIPCIDR rule) \<noteq> [],
             with_cause ''source_ip_cidr'' (writeRuleItemCIDR lib sl ruleItemSourceIPCIDR (slice (dh_SourceIPCIDR rule)))),
          (slice (dh_IPCIDR rule) \<noteq> [],
             with_cause ''ipcidr'' (writeRuleItemCIDR lib sl ruleItemIPCIDR (slice (dh_IPCIDR rule)))),
          uint16s ruleItemSourcePort (dh_SourcePort rule),
          strings ruleItemSourcePortRange (dh_SourcePortRange rule),
          uint16s ruleItemPort (dh_Port rule),
          strings ruleItemPortRange (dh_PortRange rule),
          strings ruleItemProcessName (dh_ProcessName rule),
          strings ruleItemProcessPath (dh_ProcessPath rule),
          strings ruleItemProcessPathRegex (dh_ProcessPathRegex rule),
          strings ruleItemPackageName (dh_PackageName rule),
          (slice (dh_PackageNameRegex rule) \<noteq> [],
             since 5 ''`package_name_regex` rule item is only supported in version 5 or later'' generateVersion
               (writeRuleItemString ruleItemPackageNameRegex (slice (dh_PackageNameRegex rule)))),
          (slice (dh_NetworkType rule) \<noteq> [],
             since 3 ''`network_type` rule item is only supported in version 3 or later'' generateVersion
               (writeRuleItemUint8 ruleItemNetworkType (slice (dh_NetworkType rule)))),
          (dh_NetworkIsExpensive rule,
             since 3 ''`network_is_expensive` rule item is only supported in version 3 or later'' generateVersion
               [ruleItemNetworkIsExpensive]),
          (dh_NetworkIsConstrained rule,
             since 3 ''`network_is_constrained` rule item is only supported in version 3 or later'' generateVersion
               [ruleItemNetworkIsConstrained]),
          (slice (dh_NetworkInterfaceAddress rule) \<noteq> [],
             since 4 ''`network_interface_address` rule item is only supported in version 4 or later'' generateVersion
               (ruleItemNetworkInterfaceAddress # write_entries (slice (dh_NetworkInterfaceAddress rule)))),
          (slice (dh_DefaultInterfaceAddress rule) \<noteq> [],
             since 4 ''`default_interface_address` rule item is only supported in version 4 or later'' generateVersion
               (ruleItemDefaultInterfaceAddress # write_prefixes (slice (dh_DefaultInterfaceAddress rule)))),
          strings ruleItemWIFISSID (dh_WIFISSID rule),
          strings ruleItemWIFIBSSID (dh_WIFIBSSID rule),
          (slice (dh_AdGuardDomain rule) \<noteq> [],
             since 2 ''AdGuard rule items is only supported in version 2 or later'' generateVersion
               (ruleItemAdGuardDomain # AdGuardMatcher_Write sl (slice (dh_AdGuardDomain rule))))])"

fun write_parts :: "(bool \<times> byte list result) list \<Rightarrow> byte list result" where
  "write_parts [] = Inr []"
| "write_parts ((enabled, item) # rest) =
     (if enabled then bind_result item (\<lambda>bs. bind_result (write_parts rest) (\<lambda>bs'. Inr (bs @ bs'))) else write_parts rest)"

definition writeDefaultRule :: "golib \<Rightarrow> srslib \<Rightarrow> u8 \<Rightarrow> DefaultHeadlessRuleOptions \<Rightarrow> byte list result" where
  "writeDefaultRule lib sl generateVersion rule =
     bind_result (write_parts (default_parts lib sl generateVersion rule)) (\<lambda>bs.
     Inr (0 # bs @ [ruleItemFinal, if dh_Invert rule then 1 else 0]))"

fun writeRule :: "golib \<Rightarrow> srslib \<Rightarrow> u8 \<Rightarrow> HeadlessRuleOptions \<Rightarrow> byte list result"
  and write_rules :: "golib \<Rightarrow> srslib \<Rightarrow> u8 \<Rightarrow> HeadlessRuleOptions list \<Rightarrow> byte list result" where
  "writeRule lib sl generateVersion (HeadlessRuleOptions ty options mode rules inverted) =
     (if ty = RuleTypeDefault then writeDefaultRule lib sl generateVersion options
      else if ty = RuleTypeLogical then
        bind_result (if mode = LogicalTypeAnd then Inr 0 else if mode = LogicalTypeOr then Inr 1 else Inl (Panic ''unknown logical mode: '')) (\<lambda>mode.
        bind_result (write_rules lib sl generateVersion rules) (\<lambda>bs.
        Inr (1 # mode # WriteUvarint (of_nat (length rules)) @ bs @ [if inverted then 1 else 0])))
      else Inl (Panic ''unknown rule type: ''))"
| "write_rules lib sl generateVersion [] = Inr []"
| "write_rules lib sl generateVersion (rule # rest) =
     bind_result (writeRule lib sl generateVersion rule) (\<lambda>bs.
     bind_result (write_rules lib sl generateVersion rest) (\<lambda>bs'. Inr (bs @ bs')))"

text \<open>What \<^verbatim>\<open>Write\<close> compresses, and the file.\<close>

definition srs_content :: "golib \<Rightarrow> srslib \<Rightarrow> HeadlessRuleOptions list \<Rightarrow> u8 \<Rightarrow> byte list result" where
  "srs_content lib sl rules generateVersion =
     bind_result (write_rules lib sl generateVersion rules) (\<lambda>bs. Inr (WriteUvarint (of_nat (length rules)) @ bs))"

definition srs_Write :: "golib \<Rightarrow> srslib \<Rightarrow> HeadlessRuleOptions list \<Rightarrow> u8 \<Rightarrow> byte list result" where
  "srs_Write lib sl rules generateVersion =
     bind_result (srs_content lib sl rules generateVersion) (\<lambda>content.
     Inr (MagicBytes @ generateVersion # zlib_Compress sl content))"

section \<open>Numbers and lists are read back\<close>

lemma uvarint_low: "bit (ucast ((ucast x OR 0x80 :: byte) AND 0x7f) :: u64) k \<longleftrightarrow> k < 7 \<and> bit (x :: u64) k"
proof -
  have "bit (0x7f :: byte) k \<longleftrightarrow> k < 7"
    using bit_mask_iff [of 7 k, where ?'a = "8 word"] by (auto simp: mask_eq_exp_minus_1)
  moreover have "bit (0x80 :: byte) k \<longleftrightarrow> k = 7"
    using bit_exp_iff [of 7 k, where ?'a = "8 word"] by auto
  ultimately show ?thesis
    by (auto simp: bit_ucast_iff bit_and_iff bit_or_iff)
qed

lemma uvarint_part:
  "push_bit (7 * i) (ucast ((ucast x OR 0x80 :: byte) AND 0x7f)) OR push_bit (7 * Suc i) (drop_bit 7 x) = push_bit (7 * i) (x :: u64)"
proof (rule bit_word_eqI)
  fix n
  assume n: "n < LENGTH(64)"
  consider "n < 7 * i" | "7 * i \<le> n" "n - 7 * i < 7" | "7 * Suc i \<le> n"
    by (cases "n < 7 * i"; cases "n < 7 * Suc i") auto
  then show "bit (push_bit (7 * i) (ucast ((ucast x OR 0x80 :: byte) AND 0x7f)) OR push_bit (7 * Suc i) (drop_bit 7 x)) n = bit (push_bit (7 * i) x) n"
  proof cases
    case 2
    then have "\<not> 7 * Suc i \<le> n" by simp
    then show ?thesis
      using 2 n by (simp add: bit_or_iff bit_push_bit_iff uvarint_low)
  next
    case 3
    then have "7 + (n - 7 * Suc i) = n - 7 * i"
      by simp
    then show ?thesis
      using 3 n by (auto simp: bit_or_iff bit_push_bit_iff uvarint_low bit_drop_bit_eq)
  qed (simp add: bit_or_iff bit_push_bit_iff)
qed

lemma high_bit_byte: "\<not> (b OR 0x80 :: byte) < 0x80"
proof
  assume less: "(b OR 0x80) < 0x80"
  have "take_bit 7 w = w" if "w < 0x80" for w :: byte
    using that by (simp add: word_eq_iff_unsigned [where ?'a = nat] word_less_nat_alt unsigned_take_bit_eq take_bit_nat_eq_self)
  from this [OF less] have "\<not> bit (b OR 0x80) 7"
    by (metis bit_take_bit_iff less_irrefl)
  then show False
    using bit_exp_iff [of 7 7, where ?'a = "8 word"] by (simp add: bit_or_iff)
qed

lemma low_byte: "x < 0x80 \<Longrightarrow> ucast (ucast x :: byte) = (x :: u64)" "x < 0x80 \<Longrightarrow> unat (ucast x :: byte) = unat x"
  by (simp_all add: word_eq_iff_unsigned [where ?'a = nat] word_less_nat_alt unsigned_ucast_eq unsigned_take_bit_eq take_bit_nat_eq_self)

lemma uvarint_roundtrip:
  "i < 10 \<Longrightarrow> unat x * 2 ^ (7 * i) < 2 ^ 64 \<Longrightarrow> uvarint_loop i y (WriteUvarint x @ r) = Inr (y OR push_bit (7 * i) x, r)"
proof (induction x arbitrary: i y rule: WriteUvarint.induct)
  case (1 x)
  show ?case
  proof (cases "x \<ge> 0x80")
    case True
    then have x: "128 \<le> unat x"
      by (simp add: word_le_nat_alt)
    have "(2 :: nat) ^ 7 * 2 ^ (7 * i) \<le> unat x * 2 ^ (7 * i)"
      using x by (intro mult_right_mono) simp_all
    then have "(2 :: nat) ^ (7 + 7 * i) < 2 ^ 64"
      using 1(3) unfolding power_add by linarith
    then have i: "Suc i < 10"
      by (subst (asm) power_strict_increasing_iff) simp_all
    have "unat (drop_bit 7 x) * 2 ^ 7 \<le> unat x"
      by (simp add: drop_bit_eq_div unat_div)
    then have "unat (drop_bit 7 x) * 2 ^ 7 * 2 ^ (7 * i) \<le> unat x * 2 ^ (7 * i)"
      by (rule mult_right_mono) simp
    also have "unat (drop_bit 7 x) * 2 ^ 7 * 2 ^ (7 * i) = unat (drop_bit 7 x) * 2 ^ (7 * Suc i)"
      by (simp add: power_add)
    finally have "unat (drop_bit 7 x) * 2 ^ (7 * Suc i) < 2 ^ 64"
      using 1(3) by linarith
    from 1(1) [OF True i this] show ?thesis
      using True i
      by (subst WriteUvarint.simps) (simp add: high_bit_byte or.assoc uvarint_part [simplified])
  next
    case False
    then have x: "x < 0x80" by simp
    have "unat x < 2" if "i = 9" using 1(3) that by simp
    then have "\<not> (i = 9 \<and> (ucast x :: byte) > 1)"
      using low_byte(2) [OF x] by (auto simp: word_less_nat_alt)
    moreover have "(ucast x :: byte) < 0x80"
      using x low_byte(2) [OF x] by (simp add: word_less_nat_alt)
    ultimately show ?thesis
      using False 1(2) low_byte(1) [OF x] by (subst WriteUvarint.simps) auto
  qed
qed

lemma read_uvarint [simp]: "binary_ReadUvarint (WriteUvarint x @ r) = Inr (x, r)"
  using uvarint_roundtrip [of 0 x 0 r] unsigned_less [of x, where ?'a = nat] by (simp add: binary_ReadUvarint_def)

text \<open>A slice of fewer than \<open>2\<^sup>3\<^sup>8\<close> elements fits into the address space, whatever the rules read from it.\<close>

definition small :: "'a list \<Rightarrow> bool" where "small xs \<longleftrightarrow> length xs < 2 ^ 38"

lemma small_parts: "small (xs @ ys) \<Longrightarrow> small xs" "small (xs @ ys) \<Longrightarrow> small ys" "small (x # xs) \<Longrightarrow> small xs"
  by (simp_all add: small_def)

lemma unat_of_nat64: "n < 2 ^ 38 \<Longrightarrow> unat (of_nat n :: u64) = n"
  by (simp add: unsigned_of_nat take_bit_nat_eq_self)

lemma make_small: "n < 2 ^ 38 \<Longrightarrow> k \<le> 2 ^ 10 \<Longrightarrow> make_slice k (of_nat n) = Inr ()"
proof -
  assume "n < 2 ^ 38" "k \<le> 2 ^ 10"
  then have "n * k \<le> 2 ^ 38 * 2 ^ 10"
    by (intro mult_mono) simp_all
  then show ?thesis
    using \<open>n < 2 ^ 38\<close> by (simp add: make_slice_def maxAlloc_def unat_of_nat64)
qed

lemma read_full [simp]: "ReadFull (length bs) (bs @ r) = Inr (bs, r)"
  by (simp add: ReadFull_def)

lemma read_n_roundtrip:
  assumes "\<And>x r. x \<in> set xs \<Longrightarrow> f (w x @ r) = Inr (g x, r)"
  shows "read_n (length xs) f (concat (map w xs) @ r) = Inr (map g xs, r)"
  using assms by (induction xs arbitrary: r) simp_all

lemma string_bytes_string [simp]: "bytes_string (string_bytes s) = s"
proof -
  have "char_of (unat (of_nat (of_char c) :: byte)) = (c :: char)" for c
  proof -
    have "(of_char c :: nat) < 256" by (simp add: of_char_def)
    then show ?thesis by (simp add: unsigned_of_nat take_bit_nat_eq_self)
  qed
  then show ?thesis
    by (simp add: bytes_string_def string_bytes_def comp_def)
qed

lemma length_string_bytes [simp]: "length (string_bytes s) = length s"
  by (simp add: string_bytes_def)

lemma read_string_roundtrip: "length s < 2 ^ 38 \<Longrightarrow> read_string (write_string s @ r) = Inr (s, r)"
  using read_full [of "string_bytes s" r]
  by (simp add: read_string_def write_string_def make_small unat_of_nat64)

lemma length_concat_map: "(\<And>x. x \<in> set xs \<Longrightarrow> 1 \<le> length (w x)) \<Longrightarrow> length xs \<le> length (concat (map w xs))"
  by (induction xs) fastforce+

lemma element_length: "x \<in> set xs \<Longrightarrow> length (w x) \<le> length (concat (map w xs))"
  by (induction xs) auto

lemma WriteUvarint_length: "1 \<le> length (WriteUvarint x)"
  by (subst WriteUvarint.simps) simp

lemma strings_read:
  assumes small: "length (concat (map write_string vs)) < 2 ^ 38"
  shows "readRuleItemString (WriteUvarint (of_nat (length vs)) @ concat (map write_string vs) @ r) = Inr (vs, r)"
proof -
  have len: "length vs \<le> length (concat (map write_string vs))"
    using WriteUvarint_length by (intro length_concat_map) (simp add: write_string_def trans_le_add1 del: One_nat_def)
  have "read_string (write_string s @ r) = Inr (s, r)" if "s \<in> set vs" for s r
  proof (rule read_string_roundtrip)
    have "length s \<le> length (write_string s)" by (simp add: write_string_def)
    then show "length s < 2 ^ 38"
      using element_length [OF that, of write_string] small by linarith
  qed
  then show ?thesis
    using read_n_roundtrip [of vs read_string write_string id r] len small
    by (simp add: readRuleItemString_def make_small unat_of_nat64)
qed

lemma strings_roundtrip:
  assumes "small (writeRuleItemString t vs)"
  shows "\<exists>bs. writeRuleItemString t vs = t # bs \<and> readRuleItemString (bs @ r) = Inr (vs, r)"
  using assms strings_read [of vs] by (simp add: small_def writeRuleItemString_def)

lemma uint8s_roundtrip:
  assumes "small (writeRuleItemUint8 t vs)"
  shows "\<exists>bs. writeRuleItemUint8 t vs = t # bs \<and> readRuleItemUint8 (bs @ r) = Inr (vs, r)"
  using assms by (simp add: writeRuleItemUint8_def readRuleItemUint8_def small_def make_small unat_of_nat64)

lemma uint16_bytes_eq: "uint16_bytes x = [ucast (drop_bit 8 x), ucast x]"
  by (simp add: uint16_bytes_def numeral_2_eq_2 word_bytes_def)

lemma be16_bytes: "be16 (ucast (drop_bit 8 x)) (ucast x) = x"
  unfolding be16_def by (rule bit_word_eqI) (auto simp: bit_simps not_le)

lemma uint16s_bytes [simp]: "uint16s (concat (map uint16_bytes vs)) = vs"
  by (induction vs) (simp_all add: uint16_bytes_eq be16_bytes)

lemma length_uint16_bytes [simp]: "length (concat (map uint16_bytes vs)) = 2 * length vs"
  by (induction vs) (simp_all add: uint16_bytes_eq)

lemma uint16s_roundtrip:
  assumes "small (writeRuleItemUint16 t vs)"
  shows "\<exists>bs. writeRuleItemUint16 t vs = t # bs \<and> readRuleItemUint16 (bs @ r) = Inr (vs, r)"
proof -
  have "length vs < 2 ^ 38"
    using assms by (simp add: writeRuleItemUint16_def small_def)
  then show ?thesis
    using read_full [of "concat (map uint16_bytes vs)" r]
    by (simp add: writeRuleItemUint16_def readRuleItemUint16_def make_small unat_of_nat64)
qed

section \<open>Addresses are read back\<close>

lemma length_addr_AsSlice: "length (addr_AsSlice a) \<le> 16"
  by (cases a) simp_all

lemma read_addr_roundtrip:
  assumes "address_law lib" and "\<not> addr_hasZone a"
  shows "read_addr lib (write_addr a @ r) = Inr (a, r)"
proof -
  have "length (addr_AsSlice a) < 2 ^ 38"
    using length_addr_AsSlice [of a] by simp
  then show ?thesis
    using assms by (simp add: read_addr_def write_addr_def make_small unat_of_nat64 address_law_def)
qed

lemma readPrefix_roundtrip:
  assumes "address_law lib" and "prefix_ok p"
  shows "readPrefix lib (writePrefix p @ r) = Inr (p, r)"
proof (cases p)
  case (Prefix a bits)
  then show ?thesis
    using assms addr_BitLen_le [of a]
    by (cases bits) (auto simp: readPrefix_def writePrefix_def read_addr_roundtrip prefix_ok_def PrefixFrom_def
        unsigned_of_nat take_bit_nat_eq_self)
qed

lemma concat_bounds:
  assumes "small (concat (map w xs))" and "\<And>x. x \<in> set xs \<Longrightarrow> 1 \<le> length (w x)"
  shows "length xs < 2 ^ 38"
  using length_concat_map [of xs w] assms by (simp add: small_def)

lemma read_prefixes_roundtrip:
  assumes "address_law lib" and "list_all prefix_ok ps" and "small (write_prefixes ps)"
  shows "read_prefixes lib (write_prefixes ps @ r) = Inr (ps, r)"
proof -
  have "length ps < 2 ^ 38"
    using assms(3) by (intro concat_bounds [of writePrefix]) (simp_all add: write_prefixes_def small_def writePrefix_def)
  then show ?thesis
    using read_n_roundtrip [of ps "readPrefix lib" writePrefix id r] assms(1,2)
    by (simp add: read_prefixes_def write_prefixes_def unat_of_nat64 readPrefix_roundtrip list_all_iff)
qed

lemma readIPSet_roundtrip:
  assumes "address_law lib" and "\<forall>(from, to) \<in> set rr. \<not> addr_hasZone from \<and> \<not> addr_hasZone to" and "small (writeIPSet rr)"
  shows "readIPSet lib (writeIPSet rr @ r) = Inr (rr, r)"
proof -
  let ?w = "\<lambda>(from, to). write_addr from @ write_addr to"
  have "length rr < 2 ^ 38"
    using assms(3) WriteUvarint_length
    by (intro concat_bounds [of ?w]) (auto simp: writeIPSet_def small_def write_addr_def trans_le_add1 simp del: One_nat_def)
  then have len: "be_nat (word_bytes 8 (of_nat (length rr) :: u64)) = length rr"
    by (simp add: be_nat_word_bytes unat_of_nat64 take_bit_nat_eq_self)
  have "read_range lib (?w x @ r) = Inr (x, r)" if "x \<in> set rr" for x r
    using that assms(1,2) by (auto simp: read_range_def read_addr_roundtrip)
  then show ?thesis
    using read_n_roundtrip [of rr "read_range lib" ?w id r] \<open>length rr < 2 ^ 38\<close>
      read_full [of "word_bytes 8 (of_nat (length rr) :: u64)"]
    by (simp add: readIPSet_def writeIPSet_def len make_small)
qed

lemma put_entry_new: "k \<notin> fst ` set es \<Longrightarrow> put_entry k v es = es @ [(k, v)]"
  by (induction k v es rule: put_entry.induct) auto

lemma put_entries: "distinct (map fst (es @ es')) \<Longrightarrow> foldl (\<lambda>m (k, v). put_entry k v m) es es' = es @ es'"
proof (induction es' arbitrary: es)
  case (Cons e es')
  then show ?case
    by (cases e) (force simp: put_entry_new)
qed simp

lemma read_entries_roundtrip:
  assumes "address_law lib" and "list_all (\<lambda>(k, ps). list_all prefix_ok ps) es" and "distinct (map fst es)"
    and "small (write_entries es)"
  shows "read_entries lib (write_entries es @ r) = Inr (es, r)"
proof -
  let ?w = "\<lambda>(k, v). k # write_prefixes v"
  have small: "small (concat (map ?w es))"
    using assms(4) by (simp add: write_entries_def small_def)
  then have "length es < 2 ^ 38"
    by (rule concat_bounds) auto
  moreover have "read_entry lib (?w x @ r) = Inr (x, r)" if "x \<in> set es" for x r
  proof -
    obtain k v where x: "x = (k, v)" by (cases x)
    have "small (write_prefixes v)"
      using small element_length [OF that, of ?w] x by (simp add: small_def)
    moreover have "list_all prefix_ok v"
      using assms(2) that x by (auto simp: list_all_iff)
    ultimately show ?thesis
      using assms(1) x by (simp add: read_entry_def read_prefixes_roundtrip)
  qed
  ultimately show ?thesis
    using read_n_roundtrip [of es "read_entry lib" ?w id r] put_entries [of "[]" es] assms(3)
    by (simp add: read_entries_def write_entries_def unat_of_nat64)
qed

section \<open>Rules are read back\<close>

text \<open>What the format relies on: compression is undone, a matcher that was written is read as one that matches the same
  names (in the format of version 2 and later), an IP set is what its ranges say, and has no addresses with zones.\<close>

definition srs_laws :: "golib \<Rightarrow> srslib \<Rightarrow> bool" where
  "srs_laws lib sl \<longleftrightarrow> address_law lib \<and>
     (\<forall>bs. zlib_Decompress sl (zlib_Compress sl bs) = Inr bs) \<and>
     (\<forall>ds ss r. small (Matcher_Write sl ds ss False) \<longrightarrow>
        (\<exists>dump. ReadMatcher sl (Matcher_Write sl ds ss False @ r) = Inr ((NewMatcher lib ds ss, dump), r))) \<and>
     (\<forall>ls r. small (AdGuardMatcher_Write sl ls) \<longrightarrow>
        (\<exists>dump. ReadAdGuardMatcher sl (AdGuardMatcher_Write sl ls @ r) = Inr ((NewAdGuardMatcher lib ls, dump), r))) \<and>
     (\<forall>es. IPSetBuilder lib es = bind_result (IPSet_Ranges sl es) (\<lambda>rr. Inr (Ranges_IPSet sl rr))) \<and>
     (\<forall>es rr. IPSet_Ranges sl es = Inr rr \<longrightarrow> (\<forall>(from, to) \<in> set rr. \<not> addr_hasZone from \<and> \<not> addr_hasZone to))"

text \<open>The options a configuration can have: no matchers and sets, which only reading a file gives, prefixes as they are
  parsed, and one entry for each type of interface.\<close>

definition plain_default :: "DefaultHeadlessRuleOptions \<Rightarrow> bool" where
  "plain_default rule \<longleftrightarrow> dh_DomainMatcher rule = None \<and> dh_SourceIPSet rule = None \<and> dh_IPSet rule = None \<and>
     dh_AdGuardDomainMatcher rule = None \<and> list_all prefix_ok (slice (dh_DefaultInterfaceAddress rule)) \<and>
     list_all (\<lambda>(k, ps). list_all prefix_ok ps) (slice (dh_NetworkInterfaceAddress rule)) \<and>
     distinct (map fst (slice (dh_NetworkInterfaceAddress rule)))"

fun plain :: "HeadlessRuleOptions \<Rightarrow> bool" where
  "plain (HeadlessRuleOptions ty options mode rules inverted) \<longleftrightarrow>
     (if ty = RuleTypeDefault then plain_default options else list_all plain rules)"

text \<open>What is read back.\<close>

definition nonempty :: "'a slice \<Rightarrow> 'a slice" where
  "nonempty xs = (if slice xs = [] then None else xs)"

definition ipset_of :: "golib \<Rightarrow> string slice \<Rightarrow> ipset option" where
  "ipset_of lib xs =
     (if slice xs \<noteq> [] then Some (projr (bind_result (parse_cidr_all lib (slice xs)) (IPSetBuilder lib))) else None)"

definition loaded_default :: "golib \<Rightarrow> DefaultHeadlessRuleOptions \<Rightarrow> DefaultHeadlessRuleOptions" where
  "loaded_default lib rule = \<lparr>
     dh_QueryType = nonempty (dh_QueryType rule), dh_Network = nonempty (dh_Network rule),
     dh_Domain = None, dh_DomainSuffix = None,
     dh_DomainKeyword = nonempty (dh_DomainKeyword rule), dh_DomainRegex = nonempty (dh_DomainRegex rule),
     dh_SourceIPCIDR = None, dh_IPCIDR = None,
     dh_SourcePort = nonempty (dh_SourcePort rule), dh_SourcePortRange = nonempty (dh_SourcePortRange rule),
     dh_Port = nonempty (dh_Port rule), dh_PortRange = nonempty (dh_PortRange rule),
     dh_ProcessName = nonempty (dh_ProcessName rule), dh_ProcessPath = nonempty (dh_ProcessPath rule),
     dh_ProcessPathRegex = nonempty (dh_ProcessPathRegex rule), dh_PackageName = nonempty (dh_PackageName rule),
     dh_PackageNameRegex = nonempty (dh_PackageNameRegex rule), dh_NetworkType = nonempty (dh_NetworkType rule),
     dh_NetworkIsExpensive = dh_NetworkIsExpensive rule, dh_NetworkIsConstrained = dh_NetworkIsConstrained rule,
     dh_WIFISSID = nonempty (dh_WIFISSID rule), dh_WIFIBSSID = nonempty (dh_WIFIBSSID rule),
     dh_NetworkInterfaceAddress = nonempty (dh_NetworkInterfaceAddress rule),
     dh_DefaultInterfaceAddress = nonempty (dh_DefaultInterfaceAddress rule),
     dh_Invert = dh_Invert rule,
     dh_DomainMatcher =
       (if slice (dh_Domain rule) \<noteq> [] \<or> slice (dh_DomainSuffix rule) \<noteq> []
        then Some (NewMatcher lib (slice (dh_Domain rule)) (slice (dh_DomainSuffix rule))) else None),
     dh_SourceIPSet = ipset_of lib (dh_SourceIPCIDR rule), dh_IPSet = ipset_of lib (dh_IPCIDR rule),
     dh_AdGuardDomain = None,
     dh_AdGuardDomainMatcher =
       (if slice (dh_AdGuardDomain rule) \<noteq> [] then Some (NewAdGuardMatcher lib (slice (dh_AdGuardDomain rule))) else None)\<rparr>"

fun loaded :: "golib \<Rightarrow> HeadlessRuleOptions \<Rightarrow> HeadlessRuleOptions" where
  "loaded lib (HeadlessRuleOptions ty options mode rules inverted) =
     (if ty = RuleTypeDefault then HeadlessRuleOptions ty (loaded_default lib options) [] [] False
      else HeadlessRuleOptions ty headless_options_zero mode (map (loaded lib) rules) inverted)"

text \<open>A part of a rule is read as an update of the rule.\<close>

definition part_read ::
    "golib \<Rightarrow> srslib \<Rightarrow> bool \<times> byte list result \<Rightarrow> (DefaultHeadlessRuleOptions \<Rightarrow> DefaultHeadlessRuleOptions) \<Rightarrow> bool" where
  "part_read lib sl part upd \<longleftrightarrow> (\<forall>bs. fst part \<longrightarrow> snd part = Inr bs \<longrightarrow> small bs \<longrightarrow>
     (\<exists>t bs'. bs = t # bs' \<and> t \<noteq> ruleItemFinal \<and> (\<forall>rule r. read_item lib sl False t rule (bs' @ r) = Inr (upd rule, r))))"

definition apply_part ::
    "(bool \<times> byte list result) \<times> (DefaultHeadlessRuleOptions \<Rightarrow> DefaultHeadlessRuleOptions) \<Rightarrow>
     DefaultHeadlessRuleOptions \<Rightarrow> DefaultHeadlessRuleOptions" where
  "apply_part p rule = (if fst (fst p) then snd p rule else rule)"

lemma read_parts:
  assumes "list_all2 (part_read lib sl) parts upds" and "write_parts parts = Inr bs" and "small bs"
  shows "\<exists>n \<le> length bs. \<forall>fuel r. read_items lib sl False (n + fuel) rule (bs @ r) =
    read_items lib sl False fuel (fold apply_part (zip parts upds) rule) r"
  using assms
proof (induction parts arbitrary: upds bs rule)
  case Nil
  then show ?case by auto
next
  case (Cons part parts)
  obtain enabled item where part: "part = (enabled, item)" by (cases part)
  obtain u us where upds: "upds = u # us" "part_read lib sl part u" "list_all2 (part_read lib sl) parts us"
    using Cons.prems(1) by (auto simp: list_all2_Cons1)
  show ?case
  proof (cases enabled)
    case False
    then show ?thesis
      using Cons.IH [OF upds(3), of bs rule] Cons.prems(2,3) part upds(1) by (simp add: apply_part_def)
  next
    case True
    then obtain bs1 bs2 where bs: "item = Inr bs1" "write_parts parts = Inr bs2" "bs = bs1 @ bs2"
      using Cons.prems(2) part by (auto simp: bind_result_Inr_iff)
    then have small: "small bs1" "small bs2"
      using Cons.prems(3) small_parts by blast+
    obtain t bs' where t: "bs1 = t # bs'" "t \<noteq> ruleItemFinal"
      and read: "\<And>rule r. read_item lib sl False t rule (bs' @ r) = Inr (u rule, r)"
      using upds(2) part True bs(1) small(1) unfolding part_read_def by fastforce
    obtain n where n: "n \<le> length bs2"
      "\<And>fuel r. read_items lib sl False (n + fuel) (u rule) (bs2 @ r) = read_items lib sl False fuel (fold apply_part (zip parts us) (u rule)) r"
      using Cons.IH [OF upds(3) bs(2) small(2)] by blast
    have "read_items lib sl False (Suc n + fuel) rule (bs @ r) =
        read_items lib sl False fuel (fold apply_part (zip (part # parts) upds) rule) r" for fuel r
      using t read n(2) bs(3) upds(1) part True by (simp add: apply_part_def)
    then show ?thesis
      using n(1) bs(3) t(1) by (intro exI [of _ "Suc n"]) simp
  qed
qed

definition default_updates :: "golib \<Rightarrow> DefaultHeadlessRuleOptions \<Rightarrow> (DefaultHeadlessRuleOptions \<Rightarrow> DefaultHeadlessRuleOptions) list" where
  "default_updates lib o' =
     [\<lambda>rule. rule\<lparr>dh_QueryType := Some (slice (dh_QueryType o'))\<rparr>,
      \<lambda>rule. rule\<lparr>dh_Network := Some (slice (dh_Network o'))\<rparr>,
      \<lambda>rule. rule\<lparr>dh_DomainMatcher := Some (NewMatcher lib (slice (dh_Domain o')) (slice (dh_DomainSuffix o')))\<rparr>,
      \<lambda>rule. rule\<lparr>dh_DomainKeyword := Some (slice (dh_DomainKeyword o'))\<rparr>,
      \<lambda>rule. rule\<lparr>dh_DomainRegex := Some (slice (dh_DomainRegex o'))\<rparr>,
      \<lambda>rule. rule\<lparr>dh_SourceIPSet := Some (projr (bind_result (parse_cidr_all lib (slice (dh_SourceIPCIDR o'))) (IPSetBuilder lib)))\<rparr>,
      \<lambda>rule. rule\<lparr>dh_IPSet := Some (projr (bind_result (parse_cidr_all lib (slice (dh_IPCIDR o'))) (IPSetBuilder lib)))\<rparr>,
      \<lambda>rule. rule\<lparr>dh_SourcePort := Some (slice (dh_SourcePort o'))\<rparr>,
      \<lambda>rule. rule\<lparr>dh_SourcePortRange := Some (slice (dh_SourcePortRange o'))\<rparr>,
      \<lambda>rule. rule\<lparr>dh_Port := Some (slice (dh_Port o'))\<rparr>,
      \<lambda>rule. rule\<lparr>dh_PortRange := Some (slice (dh_PortRange o'))\<rparr>,
      \<lambda>rule. rule\<lparr>dh_ProcessName := Some (slice (dh_ProcessName o'))\<rparr>,
      \<lambda>rule. rule\<lparr>dh_ProcessPath := Some (slice (dh_ProcessPath o'))\<rparr>,
      \<lambda>rule. rule\<lparr>dh_ProcessPathRegex := Some (slice (dh_ProcessPathRegex o'))\<rparr>,
      \<lambda>rule. rule\<lparr>dh_PackageName := Some (slice (dh_PackageName o'))\<rparr>,
      \<lambda>rule. rule\<lparr>dh_PackageNameRegex := Some (slice (dh_PackageNameRegex o'))\<rparr>,
      \<lambda>rule. rule\<lparr>dh_NetworkType := Some (slice (dh_NetworkType o'))\<rparr>,
      \<lambda>rule. rule\<lparr>dh_NetworkIsExpensive := True\<rparr>,
      \<lambda>rule. rule\<lparr>dh_NetworkIsConstrained := True\<rparr>,
      \<lambda>rule. rule\<lparr>dh_NetworkInterfaceAddress := Some (slice (dh_NetworkInterfaceAddress o'))\<rparr>,
      \<lambda>rule. rule\<lparr>dh_DefaultInterfaceAddress := Some (slice (dh_DefaultInterfaceAddress o'))\<rparr>,
      \<lambda>rule. rule\<lparr>dh_WIFISSID := Some (slice (dh_WIFISSID o'))\<rparr>,
      \<lambda>rule. rule\<lparr>dh_WIFIBSSID := Some (slice (dh_WIFIBSSID o'))\<rparr>,
      \<lambda>rule. rule\<lparr>dh_AdGuardDomainMatcher := Some (NewAdGuardMatcher lib (slice (dh_AdGuardDomain o')))\<rparr>]"

lemma part_strings:
  assumes "t \<noteq> ruleItemFinal"
    and "\<And>rule bs xs r. readRuleItemString bs = Inr (xs, r) \<Longrightarrow> read_item lib sl False t rule bs = Inr (upd (Some xs) rule, r)"
  shows "part_read lib sl (e, Inr (writeRuleItemString t vs)) (upd (Some vs))"
  unfolding part_read_def
proof (intro allI impI)
  fix bs
  assume "snd (e, Inr (writeRuleItemString t vs)) = Inr bs" "small bs"
  then have "small (writeRuleItemString t vs)" and bs: "bs = writeRuleItemString t vs" by simp_all
  then obtain bs' where "bs = t # bs'" "\<And>r. readRuleItemString (bs' @ r) = Inr (vs, r)"
    using strings_roundtrip [of t vs] by (auto simp: writeRuleItemString_def)
  then show "\<exists>t bs'. bs = t # bs' \<and> t \<noteq> ruleItemFinal \<and> (\<forall>rule r. read_item lib sl False t rule (bs' @ r) = Inr (upd (Some vs) rule, r))"
    using assms by blast
qed

lemma part_uint16s:
  assumes "t \<noteq> ruleItemFinal"
    and "\<And>rule bs xs r. readRuleItemUint16 bs = Inr (xs, r) \<Longrightarrow> read_item lib sl False t rule bs = Inr (upd (Some xs) rule, r)"
  shows "part_read lib sl (e, Inr (writeRuleItemUint16 t vs)) (upd (Some vs))"
  unfolding part_read_def
proof (intro allI impI)
  fix bs
  assume "snd (e, Inr (writeRuleItemUint16 t vs)) = Inr bs" "small bs"
  then have "small (writeRuleItemUint16 t vs)" and bs: "bs = writeRuleItemUint16 t vs" by simp_all
  then obtain bs' where "bs = t # bs'" "\<And>r. readRuleItemUint16 (bs' @ r) = Inr (vs, r)"
    using uint16s_roundtrip [of t vs] by (auto simp: writeRuleItemUint16_def)
  then show "\<exists>t bs'. bs = t # bs' \<and> t \<noteq> ruleItemFinal \<and> (\<forall>rule r. read_item lib sl False t rule (bs' @ r) = Inr (upd (Some vs) rule, r))"
    using assms by blast
qed

lemma part_cidr:
  assumes "srs_laws lib sl" and "t \<noteq> ruleItemFinal"
    and "\<And>rule bs rr r. readIPSet lib bs = Inr (rr, r) \<Longrightarrow> read_item lib sl False t rule bs = Inr (upd (Some (Ranges_IPSet sl rr)) rule, r)"
  shows "part_read lib sl (e, with_cause msg (writeRuleItemCIDR lib sl t vs))
    (upd (Some (projr (bind_result (parse_cidr_all lib vs) (IPSetBuilder lib)))))"
  unfolding part_read_def
proof (intro allI impI)
  fix bs
  assume "snd (e, with_cause msg (writeRuleItemCIDR lib sl t vs)) = Inr bs" and small: "small bs"
  then obtain es rr where es: "parse_cidr_all lib vs = Inr es" "IPSet_Ranges sl es = Inr rr" and bs: "bs = t # writeIPSet rr"
    by (auto simp: writeRuleItemCIDR_def bind_result_Inr_iff)
  have "readIPSet lib (writeIPSet rr @ r) = Inr (rr, r)" for r
    using assms(1) es(2) small bs by (intro readIPSet_roundtrip) (auto simp: srs_laws_def small_def)
  moreover have "bind_result (parse_cidr_all lib vs) (IPSetBuilder lib) = Inr (Ranges_IPSet sl rr)"
    using assms(1) es by (simp add: srs_laws_def)
  ultimately show "\<exists>t bs'. bs = t # bs' \<and> t \<noteq> ruleItemFinal \<and> (\<forall>rule r. read_item lib sl False t rule (bs' @ r) =
      Inr (upd (Some (projr (bind_result (parse_cidr_all lib vs) (IPSetBuilder lib)))) rule, r))"
    using assms(2,3) bs by simp
qed

lemma part_since:
  "part_read lib sl (e, Inr item) u \<Longrightarrow> part_read lib sl (e, since v msg generateVersion item) u"
  by (auto simp: part_read_def since_def)

lemma part_item:
  assumes "t \<noteq> ruleItemFinal" and "\<And>rule r. small bs \<Longrightarrow> e \<Longrightarrow> read_item lib sl False t rule (bs @ r) = Inr (u rule, r)"
  shows "part_read lib sl (e, Inr (t # bs)) u"
  using assms by (auto simp: part_read_def dest: small_parts)

lemma string_parts:
  "part_read lib sl (e, Inr (writeRuleItemString ruleItemNetwork vs)) (\<lambda>rule. rule\<lparr>dh_Network := Some vs\<rparr>)"
  "part_read lib sl (e, Inr (writeRuleItemString ruleItemDomainKeyword vs)) (\<lambda>rule. rule\<lparr>dh_DomainKeyword := Some vs\<rparr>)"
  "part_read lib sl (e, Inr (writeRuleItemString ruleItemDomainRegex vs)) (\<lambda>rule. rule\<lparr>dh_DomainRegex := Some vs\<rparr>)"
  "part_read lib sl (e, Inr (writeRuleItemString ruleItemSourcePortRange vs)) (\<lambda>rule. rule\<lparr>dh_SourcePortRange := Some vs\<rparr>)"
  "part_read lib sl (e, Inr (writeRuleItemString ruleItemPortRange vs)) (\<lambda>rule. rule\<lparr>dh_PortRange := Some vs\<rparr>)"
  "part_read lib sl (e, Inr (writeRuleItemString ruleItemProcessName vs)) (\<lambda>rule. rule\<lparr>dh_ProcessName := Some vs\<rparr>)"
  "part_read lib sl (e, Inr (writeRuleItemString ruleItemProcessPath vs)) (\<lambda>rule. rule\<lparr>dh_ProcessPath := Some vs\<rparr>)"
  "part_read lib sl (e, Inr (writeRuleItemString ruleItemProcessPathRegex vs)) (\<lambda>rule. rule\<lparr>dh_ProcessPathRegex := Some vs\<rparr>)"
  "part_read lib sl (e, Inr (writeRuleItemString ruleItemPackageName vs)) (\<lambda>rule. rule\<lparr>dh_PackageName := Some vs\<rparr>)"
  "part_read lib sl (e, Inr (writeRuleItemString ruleItemPackageNameRegex vs)) (\<lambda>rule. rule\<lparr>dh_PackageNameRegex := Some vs\<rparr>)"
  "part_read lib sl (e, Inr (writeRuleItemString ruleItemWIFISSID vs)) (\<lambda>rule. rule\<lparr>dh_WIFISSID := Some vs\<rparr>)"
  "part_read lib sl (e, Inr (writeRuleItemString ruleItemWIFIBSSID vs)) (\<lambda>rule. rule\<lparr>dh_WIFIBSSID := Some vs\<rparr>)"
proof -
  show "part_read lib sl (e, Inr (writeRuleItemString ruleItemNetwork vs)) (\<lambda>rule. rule\<lparr>dh_Network := Some vs\<rparr>)"
    by (rule part_strings [where upd = "\<lambda>x rule. rule\<lparr>dh_Network := x\<rparr>"]) (simp_all add: read_item_def item_types)
  show "part_read lib sl (e, Inr (writeRuleItemString ruleItemDomainKeyword vs)) (\<lambda>rule. rule\<lparr>dh_DomainKeyword := Some vs\<rparr>)"
    by (rule part_strings [where upd = "\<lambda>x rule. rule\<lparr>dh_DomainKeyword := x\<rparr>"]) (simp_all add: read_item_def item_types)
  show "part_read lib sl (e, Inr (writeRuleItemString ruleItemDomainRegex vs)) (\<lambda>rule. rule\<lparr>dh_DomainRegex := Some vs\<rparr>)"
    by (rule part_strings [where upd = "\<lambda>x rule. rule\<lparr>dh_DomainRegex := x\<rparr>"]) (simp_all add: read_item_def item_types)
  show "part_read lib sl (e, Inr (writeRuleItemString ruleItemSourcePortRange vs)) (\<lambda>rule. rule\<lparr>dh_SourcePortRange := Some vs\<rparr>)"
    by (rule part_strings [where upd = "\<lambda>x rule. rule\<lparr>dh_SourcePortRange := x\<rparr>"]) (simp_all add: read_item_def item_types)
  show "part_read lib sl (e, Inr (writeRuleItemString ruleItemPortRange vs)) (\<lambda>rule. rule\<lparr>dh_PortRange := Some vs\<rparr>)"
    by (rule part_strings [where upd = "\<lambda>x rule. rule\<lparr>dh_PortRange := x\<rparr>"]) (simp_all add: read_item_def item_types)
  show "part_read lib sl (e, Inr (writeRuleItemString ruleItemProcessName vs)) (\<lambda>rule. rule\<lparr>dh_ProcessName := Some vs\<rparr>)"
    by (rule part_strings [where upd = "\<lambda>x rule. rule\<lparr>dh_ProcessName := x\<rparr>"]) (simp_all add: read_item_def item_types)
  show "part_read lib sl (e, Inr (writeRuleItemString ruleItemProcessPath vs)) (\<lambda>rule. rule\<lparr>dh_ProcessPath := Some vs\<rparr>)"
    by (rule part_strings [where upd = "\<lambda>x rule. rule\<lparr>dh_ProcessPath := x\<rparr>"]) (simp_all add: read_item_def item_types)
  show "part_read lib sl (e, Inr (writeRuleItemString ruleItemProcessPathRegex vs)) (\<lambda>rule. rule\<lparr>dh_ProcessPathRegex := Some vs\<rparr>)"
    by (rule part_strings [where upd = "\<lambda>x rule. rule\<lparr>dh_ProcessPathRegex := x\<rparr>"]) (simp_all add: read_item_def item_types)
  show "part_read lib sl (e, Inr (writeRuleItemString ruleItemPackageName vs)) (\<lambda>rule. rule\<lparr>dh_PackageName := Some vs\<rparr>)"
    by (rule part_strings [where upd = "\<lambda>x rule. rule\<lparr>dh_PackageName := x\<rparr>"]) (simp_all add: read_item_def item_types)
  show "part_read lib sl (e, Inr (writeRuleItemString ruleItemPackageNameRegex vs)) (\<lambda>rule. rule\<lparr>dh_PackageNameRegex := Some vs\<rparr>)"
    by (rule part_strings [where upd = "\<lambda>x rule. rule\<lparr>dh_PackageNameRegex := x\<rparr>"]) (simp_all add: read_item_def item_types)
  show "part_read lib sl (e, Inr (writeRuleItemString ruleItemWIFISSID vs)) (\<lambda>rule. rule\<lparr>dh_WIFISSID := Some vs\<rparr>)"
    by (rule part_strings [where upd = "\<lambda>x rule. rule\<lparr>dh_WIFISSID := x\<rparr>"]) (simp_all add: read_item_def item_types)
  show "part_read lib sl (e, Inr (writeRuleItemString ruleItemWIFIBSSID vs)) (\<lambda>rule. rule\<lparr>dh_WIFIBSSID := Some vs\<rparr>)"
    by (rule part_strings [where upd = "\<lambda>x rule. rule\<lparr>dh_WIFIBSSID := x\<rparr>"]) (simp_all add: read_item_def item_types)
qed

lemma uint16_parts:
  "part_read lib sl (e, Inr (writeRuleItemUint16 ruleItemQueryType vs)) (\<lambda>rule. rule\<lparr>dh_QueryType := Some vs\<rparr>)"
  "part_read lib sl (e, Inr (writeRuleItemUint16 ruleItemSourcePort vs)) (\<lambda>rule. rule\<lparr>dh_SourcePort := Some vs\<rparr>)"
  "part_read lib sl (e, Inr (writeRuleItemUint16 ruleItemPort vs)) (\<lambda>rule. rule\<lparr>dh_Port := Some vs\<rparr>)"
proof -
  show "part_read lib sl (e, Inr (writeRuleItemUint16 ruleItemQueryType vs)) (\<lambda>rule. rule\<lparr>dh_QueryType := Some vs\<rparr>)"
    by (rule part_uint16s [where upd = "\<lambda>x rule. rule\<lparr>dh_QueryType := x\<rparr>"]) (simp_all add: read_item_def item_types)
  show "part_read lib sl (e, Inr (writeRuleItemUint16 ruleItemSourcePort vs)) (\<lambda>rule. rule\<lparr>dh_SourcePort := Some vs\<rparr>)"
    by (rule part_uint16s [where upd = "\<lambda>x rule. rule\<lparr>dh_SourcePort := x\<rparr>"]) (simp_all add: read_item_def item_types)
  show "part_read lib sl (e, Inr (writeRuleItemUint16 ruleItemPort vs)) (\<lambda>rule. rule\<lparr>dh_Port := Some vs\<rparr>)"
    by (rule part_uint16s [where upd = "\<lambda>x rule. rule\<lparr>dh_Port := x\<rparr>"]) (simp_all add: read_item_def item_types)
qed

lemma cidr_parts:
  assumes "srs_laws lib sl"
  shows "part_read lib sl (e, with_cause msg (writeRuleItemCIDR lib sl ruleItemSourceIPCIDR vs))
      (\<lambda>rule. rule\<lparr>dh_SourceIPSet := Some (projr (bind_result (parse_cidr_all lib vs) (IPSetBuilder lib)))\<rparr>)"
    and "part_read lib sl (e, with_cause msg (writeRuleItemCIDR lib sl ruleItemIPCIDR vs))
      (\<lambda>rule. rule\<lparr>dh_IPSet := Some (projr (bind_result (parse_cidr_all lib vs) (IPSetBuilder lib)))\<rparr>)"
  using part_cidr [OF assms, of ruleItemSourceIPCIDR "\<lambda>x rule. rule\<lparr>dh_SourceIPSet := x\<rparr>"]
    part_cidr [OF assms, of ruleItemIPCIDR "\<lambda>x rule. rule\<lparr>dh_IPSet := x\<rparr>"]
  by (simp_all add: read_item_def item_types)

lemma matcher_parts:
  assumes "srs_laws lib sl"
  shows "part_read lib sl (e, Inr (ruleItemDomain # Matcher_Write sl ds ss False)) (\<lambda>rule. rule\<lparr>dh_DomainMatcher := Some (NewMatcher lib ds ss)\<rparr>)"
    and "part_read lib sl (e, Inr (ruleItemAdGuardDomain # AdGuardMatcher_Write sl ls)) (\<lambda>rule. rule\<lparr>dh_AdGuardDomainMatcher := Some (NewAdGuardMatcher lib ls)\<rparr>)"
proof -
  have "read_item lib sl False ruleItemDomain rule (Matcher_Write sl ds ss False @ r) = Inr (rule\<lparr>dh_DomainMatcher := Some (NewMatcher lib ds ss)\<rparr>, r)"
    if m: "small (Matcher_Write sl ds ss False)" for rule r
  proof -
    obtain dump where "ReadMatcher sl (Matcher_Write sl ds ss False @ r) = Inr ((NewMatcher lib ds ss, dump), r)"
      using assms m unfolding srs_laws_def by blast
    then show ?thesis by (simp add: read_item_def item_types split_def)
  qed
  then show "part_read lib sl (e, Inr (ruleItemDomain # Matcher_Write sl ds ss False)) (\<lambda>rule. rule\<lparr>dh_DomainMatcher := Some (NewMatcher lib ds ss)\<rparr>)"
    by (intro part_item) (simp_all add: item_types)
  have "read_item lib sl False ruleItemAdGuardDomain rule (AdGuardMatcher_Write sl ls @ r) = Inr (rule\<lparr>dh_AdGuardDomainMatcher := Some (NewAdGuardMatcher lib ls)\<rparr>, r)"
    if m: "small (AdGuardMatcher_Write sl ls)" for rule r
  proof -
    obtain dump where "ReadAdGuardMatcher sl (AdGuardMatcher_Write sl ls @ r) = Inr ((NewAdGuardMatcher lib ls, dump), r)"
      using assms m unfolding srs_laws_def by blast
    then show ?thesis by (simp add: read_item_def item_types split_def)
  qed
  then show "part_read lib sl (e, Inr (ruleItemAdGuardDomain # AdGuardMatcher_Write sl ls)) (\<lambda>rule. rule\<lparr>dh_AdGuardDomainMatcher := Some (NewAdGuardMatcher lib ls)\<rparr>)"
    by (intro part_item) (simp_all add: item_types)
qed

lemma network_parts:
  "part_read lib sl (e, Inr (writeRuleItemUint8 ruleItemNetworkType vs)) (\<lambda>rule. rule\<lparr>dh_NetworkType := Some vs\<rparr>)"
  "part_read lib sl (e, Inr [ruleItemNetworkIsExpensive]) (\<lambda>rule. rule\<lparr>dh_NetworkIsExpensive := True\<rparr>)"
  "part_read lib sl (e, Inr [ruleItemNetworkIsConstrained]) (\<lambda>rule. rule\<lparr>dh_NetworkIsConstrained := True\<rparr>)"
proof -
  have "read_item lib sl False ruleItemNetworkType rule (WriteUvarint (of_nat (length vs)) @ vs @ r) = Inr (rule\<lparr>dh_NetworkType := Some vs\<rparr>, r)"
    if "small (WriteUvarint (of_nat (length vs)) @ vs)" for rule r
    using that uint8s_roundtrip [of 0 vs r]
    by (simp add: writeRuleItemUint8_def read_item_def item_types readRuleItemUint8_def small_def make_small unat_of_nat64)
  then show "part_read lib sl (e, Inr (writeRuleItemUint8 ruleItemNetworkType vs)) (\<lambda>rule. rule\<lparr>dh_NetworkType := Some vs\<rparr>)"
    unfolding writeRuleItemUint8_def by (intro part_item) (simp_all add: item_types)
  show "part_read lib sl (e, Inr [ruleItemNetworkIsExpensive]) (\<lambda>rule. rule\<lparr>dh_NetworkIsExpensive := True\<rparr>)"
    "part_read lib sl (e, Inr [ruleItemNetworkIsConstrained]) (\<lambda>rule. rule\<lparr>dh_NetworkIsConstrained := True\<rparr>)"
    by (intro part_item; simp add: read_item_def item_types)+
qed

lemma interface_parts:
  assumes "address_law lib"
  shows "list_all (\<lambda>(k, ps). list_all prefix_ok ps) es \<Longrightarrow> distinct (map fst es) \<Longrightarrow>
      part_read lib sl (e, Inr (ruleItemNetworkInterfaceAddress # write_entries es)) (\<lambda>rule. rule\<lparr>dh_NetworkInterfaceAddress := Some es\<rparr>)"
    and "list_all prefix_ok ps \<Longrightarrow>
      part_read lib sl (ps \<noteq> [], Inr (ruleItemDefaultInterfaceAddress # write_prefixes ps)) (\<lambda>rule. rule\<lparr>dh_DefaultInterfaceAddress := Some ps\<rparr>)"
  using assms by (auto intro!: part_item simp: item_types read_item_def read_entries_roundtrip read_prefixes_roundtrip)

lemma default_parts_read:
  assumes "srs_laws lib sl" and "plain_default o'" and "generateVersion \<noteq> 1"
  shows "list_all2 (part_read lib sl) (default_parts lib sl generateVersion o') (default_updates lib o')"
proof -
  have "address_law lib"
    using assms(1) by (simp add: srs_laws_def)
  then show ?thesis
    using assms(2,3) unfolding default_parts_def default_updates_def Let_def plain_default_def
    by (simp add: string_parts uint16_parts cidr_parts [OF assms(1)] matcher_parts [OF assms(1)] network_parts interface_parts part_since)
qed

lemma nonempty_simps: "slice xs = [] \<Longrightarrow> nonempty xs = None" "slice xs \<noteq> [] \<Longrightarrow> nonempty xs = Some (slice xs)"
  by (cases xs; simp add: nonempty_def slice_def)+

lemma nonempty_if: "(if slice xs \<noteq> [] then Some (slice xs) else None) = nonempty xs"
  by (simp add: nonempty_simps)

lemma apply_part_field:
  "apply_part ((e, item), dh_QueryType_update (\<lambda>_. v0)) rule = dh_QueryType_update (\<lambda>x. if e then v0 else x) rule"
  "apply_part ((e, item), dh_Network_update (\<lambda>_. v1)) rule = dh_Network_update (\<lambda>x. if e then v1 else x) rule"
  "apply_part ((e, item), dh_DomainMatcher_update (\<lambda>_. v2)) rule = dh_DomainMatcher_update (\<lambda>x. if e then v2 else x) rule"
  "apply_part ((e, item), dh_DomainKeyword_update (\<lambda>_. v3)) rule = dh_DomainKeyword_update (\<lambda>x. if e then v3 else x) rule"
  "apply_part ((e, item), dh_DomainRegex_update (\<lambda>_. v4)) rule = dh_DomainRegex_update (\<lambda>x. if e then v4 else x) rule"
  "apply_part ((e, item), dh_SourceIPSet_update (\<lambda>_. v5)) rule = dh_SourceIPSet_update (\<lambda>x. if e then v5 else x) rule"
  "apply_part ((e, item), dh_IPSet_update (\<lambda>_. v6)) rule = dh_IPSet_update (\<lambda>x. if e then v6 else x) rule"
  "apply_part ((e, item), dh_SourcePort_update (\<lambda>_. v7)) rule = dh_SourcePort_update (\<lambda>x. if e then v7 else x) rule"
  "apply_part ((e, item), dh_SourcePortRange_update (\<lambda>_. v8)) rule = dh_SourcePortRange_update (\<lambda>x. if e then v8 else x) rule"
  "apply_part ((e, item), dh_Port_update (\<lambda>_. v9)) rule = dh_Port_update (\<lambda>x. if e then v9 else x) rule"
  "apply_part ((e, item), dh_PortRange_update (\<lambda>_. v10)) rule = dh_PortRange_update (\<lambda>x. if e then v10 else x) rule"
  "apply_part ((e, item), dh_ProcessName_update (\<lambda>_. v11)) rule = dh_ProcessName_update (\<lambda>x. if e then v11 else x) rule"
  "apply_part ((e, item), dh_ProcessPath_update (\<lambda>_. v12)) rule = dh_ProcessPath_update (\<lambda>x. if e then v12 else x) rule"
  "apply_part ((e, item), dh_ProcessPathRegex_update (\<lambda>_. v13)) rule = dh_ProcessPathRegex_update (\<lambda>x. if e then v13 else x) rule"
  "apply_part ((e, item), dh_PackageName_update (\<lambda>_. v14)) rule = dh_PackageName_update (\<lambda>x. if e then v14 else x) rule"
  "apply_part ((e, item), dh_PackageNameRegex_update (\<lambda>_. v15)) rule = dh_PackageNameRegex_update (\<lambda>x. if e then v15 else x) rule"
  "apply_part ((e, item), dh_NetworkType_update (\<lambda>_. v16)) rule = dh_NetworkType_update (\<lambda>x. if e then v16 else x) rule"
  "apply_part ((e, item), dh_NetworkIsExpensive_update (\<lambda>_. v17)) rule = dh_NetworkIsExpensive_update (\<lambda>x. if e then v17 else x) rule"
  "apply_part ((e, item), dh_NetworkIsConstrained_update (\<lambda>_. v18)) rule = dh_NetworkIsConstrained_update (\<lambda>x. if e then v18 else x) rule"
  "apply_part ((e, item), dh_NetworkInterfaceAddress_update (\<lambda>_. v19)) rule = dh_NetworkInterfaceAddress_update (\<lambda>x. if e then v19 else x) rule"
  "apply_part ((e, item), dh_DefaultInterfaceAddress_update (\<lambda>_. v20)) rule = dh_DefaultInterfaceAddress_update (\<lambda>x. if e then v20 else x) rule"
  "apply_part ((e, item), dh_WIFISSID_update (\<lambda>_. v21)) rule = dh_WIFISSID_update (\<lambda>x. if e then v21 else x) rule"
  "apply_part ((e, item), dh_WIFIBSSID_update (\<lambda>_. v22)) rule = dh_WIFIBSSID_update (\<lambda>x. if e then v22 else x) rule"
  "apply_part ((e, item), dh_AdGuardDomainMatcher_update (\<lambda>_. v23)) rule = dh_AdGuardDomainMatcher_update (\<lambda>x. if e then v23 else x) rule"
  by (simp_all add: apply_part_def)

lemma updates_loaded:
  "(fold apply_part (zip (default_parts lib sl v o') (default_updates lib o')) headless_options_zero)\<lparr>dh_Invert := dh_Invert o'\<rparr> =
    loaded_default lib o'"
proof -
  have bool: "(if b then True else False) = b" for b
    by simp
  show ?thesis
    unfolding default_parts_def default_updates_def Let_def
    by (simp only: zip_Cons_Cons zip.simps fold_simps list.case apply_part_field headless_options_zero_def
        DefaultHeadlessRuleOptions.update_convs nonempty_if loaded_default_def ipset_of_def bool)
qed

lemma default_rule_read:
  assumes "srs_laws lib sl" and "plain_default o'" and "generateVersion \<noteq> 1"
    and "writeDefaultRule lib sl generateVersion o' = Inr bs" and "small bs" and "length bs \<le> fuel"
  shows "readRule lib sl False fuel (bs @ r) = Inr (HeadlessRuleOptions RuleTypeDefault (loaded_default lib o') [] [] False, r)"
proof -
  obtain ps where ps: "write_parts (default_parts lib sl generateVersion o') = Inr ps"
    and bs: "bs = 0 # ps @ [ruleItemFinal, if dh_Invert o' then 1 else 0]"
    using assms(4) by (auto simp: writeDefaultRule_def bind_result_Inr_iff)
  have "small ps"
    using assms(5) bs by (simp add: small_def)
  then obtain n where n: "n \<le> length ps" "\<And>fuel r. read_items lib sl False (n + fuel) headless_options_zero (ps @ r) =
      read_items lib sl False fuel (fold apply_part (zip (default_parts lib sl generateVersion o') (default_updates lib o')) headless_options_zero) r"
    using read_parts [OF default_parts_read [OF assms(1-3)] ps] by blast
  obtain k where "fuel = Suc (n + Suc k)"
    using assms(6) n(1) bs less_imp_Suc_add [of "Suc n" fuel] by auto
  then show ?thesis
    using n(2) [of "Suc k" "ruleItemFinal # (if dh_Invert o' then 1 else 0) # r"] updates_loaded [where lib = lib and sl = sl and v = generateVersion and o' = o']
    by (simp add: bs readDefaultRule_def split: if_splits)
qed

lemma rules_read:
  "writeRule lib sl generateVersion o' = Inr bs \<Longrightarrow> srs_laws lib sl \<Longrightarrow> plain o' \<Longrightarrow> generateVersion \<noteq> 1 \<Longrightarrow>
     small bs \<Longrightarrow> length bs \<le> fuel \<Longrightarrow> readRule lib sl False fuel (bs @ r) = Inr (loaded lib o', r)"
  "write_rules lib sl generateVersion os = Inr bs \<Longrightarrow> srs_laws lib sl \<Longrightarrow> list_all plain os \<Longrightarrow> generateVersion \<noteq> 1 \<Longrightarrow>
     small bs \<Longrightarrow> (\<And>x. length x \<le> fuels x \<or> length bs \<le> fuels x) \<Longrightarrow> length os \<le> length bs \<and>
     read_n (length os) (\<lambda>x. with_cause msg (readRule lib sl False (fuels x) x)) (bs @ r) = Inr (map (loaded lib) os, r)"
proof (induction lib sl generateVersion o' and lib sl generateVersion os arbitrary: bs fuel r and bs fuels msg r
    rule: writeRule_write_rules.induct)
  case (1 lib sl generateVersion ty options mode rules inverted)
  show ?case
  proof (cases "ty = RuleTypeDefault")
    case True
    then show ?thesis
      using 1(2-) default_rule_read by simp
  next
    case False
    then obtain m ps where logical: "ty = RuleTypeLogical" and ps: "write_rules lib sl generateVersion rules = Inr ps"
      and m: "mode = LogicalTypeAnd \<and> m = 0 \<or> mode = LogicalTypeOr \<and> m = 1"
      and bs: "bs = 1 # m # WriteUvarint (of_nat (length rules)) @ ps @ [if inverted then 1 else 0]"
      using 1(2) by (auto simp: bind_result_Inr_iff split: if_splits)
    obtain k where fuel: "fuel = Suc k" "length ps \<le> k"
      using 1(7) bs by (cases fuel) simp_all
    have "small ps"
      using 1(6) bs by (simp add: small_def)
    have "list_all plain rules"
      using 1(4) False by simp
    then have sub: "length rules \<le> length ps \<and>
        read_n (length rules) (\<lambda>x. with_cause ''read logical rule ['' (readRule lib sl False k x)) (ps @ r) = Inr (map (loaded lib) rules, r)" for r
      using fuel(2) by (intro 1(1) [OF False logical ps 1(3) _ 1(5) \<open>small ps\<close>]) simp_all
    have "length rules < 2 ^ 38"
      using conjunct1 [OF sub] \<open>small ps\<close> by (simp add: small_def)
    then have len: "unat (of_nat (length rules) :: u64) = length rules" "make_slice headless_rule_size (of_nat (length rules)) = Inr ()"
      by (simp_all add: unat_of_nat64 make_small headless_rule_size_def)
    show ?thesis
      using m fuel(1) logical False len
      by (auto simp: bs readLogicalRule_def conjunct2 [OF sub] LogicalTypeAnd_def LogicalTypeOr_def)
  qed
next
  case (3 lib sl generateVersion rule rest)
  obtain bs1 bs2 where bs: "writeRule lib sl generateVersion rule = Inr bs1" "write_rules lib sl generateVersion rest = Inr bs2" "bs = bs1 @ bs2"
    using 3(3) by (auto simp: bind_result_Inr_iff)
  have small: "small bs1" "small bs2"
    using 3(7) bs(3) small_parts by blast+
  have plain: "plain rule" "list_all plain rest"
    using 3(5) by simp_all
  have fuels: "length x \<le> fuels x \<or> length bs2 \<le> fuels x" "length bs1 \<le> fuels (bs1 @ x)" for x
    using 3(8) [of x] 3(8) [of "bs1 @ x"] bs(3) by auto
  have "bs1 \<noteq> []"
    using bs(1) by (cases rule) (auto simp: writeDefaultRule_def bind_result_Inr_iff split: if_splits)
  moreover note rest = 3(2) [OF bs(2) 3(4) plain(2) 3(6) small(2) fuels(1)]
  moreover have "length rest \<le> length bs2"
    using rest by blast
  ultimately show ?case
    using 3(1) [OF bs(1) 3(4) plain(1) 3(6) small(1) fuels(2)] bs(3) by (cases bs1) simp_all
qed simp

lemma srs_Read_Write:
  assumes "srs_laws lib sl" and "list_all plain rules" and "generateVersion \<in> {2, 3, 4, 5}"
    and "srs_content lib sl rules generateVersion = Inr content" and "small content"
    and "srs_Write lib sl rules generateVersion = Inr data"
  shows "srs_Read lib sl False data = Inr \<lparr>prs_Version = generateVersion, prs_Rules = map (loaded lib) rules\<rparr>"
proof -
  obtain bs where bs: "write_rules lib sl generateVersion rules = Inr bs" "content = WriteUvarint (of_nat (length rules)) @ bs"
    using assms(4) by (auto simp: srs_content_def bind_result_Inr_iff)
  have data: "data = MagicBytes @ generateVersion # zlib_Compress sl content"
    using assms(4,6) by (simp add: srs_Write_def)
  have v: "generateVersion \<noteq> 1" "\<not> generateVersion > RuleSetVersionCurrent"
    using assms(3) by (auto simp: RuleSetVersionCurrent_def)
  have small: "small bs"
    using assms(5) bs(2) small_parts by blast
  have rules: "length rules \<le> length bs \<and> read_n (length rules) (\<lambda>x. with_cause ''read rule['' (readRule lib sl False (Suc (length x)) x)) (bs @ []) =
      Inr (map (loaded lib) rules, [])"
    by (rule rules_read(2) [OF bs(1) assms(1,2) v(1) small]) simp
  then have "length rules < 2 ^ 38"
    using small by (simp add: small_def)
  then have len: "unat (of_nat (length rules) :: u64) = length rules" "make_slice headless_rule_size (of_nat (length rules)) = Inr ()"
    by (simp_all add: unat_of_nat64 make_small headless_rule_size_def)
  have "zlib_Decompress sl (zlib_Compress sl content) = Inr content"
    using assms(1) by (simp add: srs_laws_def)
  then show ?thesis
    using rules v(2) len by (simp add: srs_Read_def data MagicBytes_def ReadFull_def bs(2))
qed

section \<open>A loaded rule is the rule that was compiled\<close>

definition steps_sim :: "build_step list \<Rightarrow> build_step list \<Rightarrow> bool" where
  "steps_sim xs ys \<longleftrightarrow> (\<forall>(r :: (unit, unit) abstractDefaultRule) x. build_items xs r = Inr x \<longrightarrow> build_items ys r = Inr x)"

lemma steps_sim_Nil: "steps_sim [] []"
  by (simp add: steps_sim_def)

lemma steps_sim_same: "steps_sim xs ys \<Longrightarrow> steps_sim (s # xs) (s # ys)"
  by (cases s) (auto simp: steps_sim_def bind_result_Inr_iff)

lemma steps_sim_pair:
  assumes "steps_sim xs ys" and "\<not> e2" and "\<not> e1'" and "e2' \<longleftrightarrow> e1" and "\<And>i. e1 \<Longrightarrow> i1 = Inr i \<Longrightarrow> i2' = Inr i"
  shows "steps_sim ((e1, g, i1) # (e2, g, i2) # xs) ((e1', g, i1') # (e2', g, i2') # ys)"
  using assms by (auto simp: steps_sim_def bind_result_Inr_iff)

lemma slice_nonempty [simp]: "slice (nonempty xs) = slice xs"
  by (cases xs) (simp_all add: nonempty_def slice_def)

lemma slice_None [simp]: "slice None = []"
  by (simp add: slice_def)

lemma ipset_of_None: "Option.is_none (ipset_of lib xs) \<longleftrightarrow> slice xs = []"
  by (simp add: ipset_of_def)

lemma loaded_cidr:
  assumes "slice xs \<noteq> []" and "with_cause msg (NewIPCIDRItem lib src (slice xs)) = Inr i"
  shows "NewRawIPCIDRItem src (the (ipset_of lib xs)) = i"
  using assms by (auto simp: NewIPCIDRItem_def NewRawIPCIDRItem_def ipset_of_def bind_result_Inr_iff)

lemma steps_loaded:
  assumes "plain_default o'"
  shows "steps_sim (headless_steps lib nm o') (headless_steps lib nm (loaded_default lib o'))"
proof -
  have matchers: "dh_DomainMatcher o' = None" "dh_SourceIPSet o' = None" "dh_IPSet o' = None" "dh_AdGuardDomainMatcher o' = None"
    using assms by (simp_all add: plain_default_def)
  show ?thesis
    unfolding headless_steps_def loaded_default_def DefaultHeadlessRuleOptions.select_convs slice_nonempty
    by (intro steps_sim_same steps_sim_pair steps_sim_Nil)
      (simp_all add: matchers ipset_of_None loaded_cidr NewDomainItem_def NewRawDomainItem_def NewAdGuardDomainItem_def
        NewRawAdGuardDomainItem_def split: if_splits)
qed

lemma NewDefaultHeadlessRule_loaded:
  assumes "plain_default o'" and "NewDefaultHeadlessRule lib nm o' = Inr rule"
  shows "NewDefaultHeadlessRule lib nm (loaded_default lib o') = Inr rule"
  using steps_loaded [OF assms(1)] assms(2)
  by (simp add: NewDefaultHeadlessRule_def steps_sim_def) (simp add: loaded_default_def)

text \<open>A rule without items matches every connection; its conditions are lost when it is compiled, and the result is refused
  for missing conditions.\<close>

fun has_items :: "headless_rule \<Rightarrow> bool" where
  "has_items (DefaultHeadlessRule r) \<longleftrightarrow> allItems r \<noteq> []"
| "has_items (LogicalHeadlessRule mode rules inverted) \<longleftrightarrow> list_all has_items rules"

lemma invalid_no_items:
  "\<not> DefaultHeadlessRule_IsValid o' \<Longrightarrow> NewDefaultHeadlessRule lib nm o' = Inr (new_rule (dh_Invert o') None)"
  by (simp add: DefaultHeadlessRule_IsValid_def NewDefaultHeadlessRule_def headless_steps_def Option.is_none_def)

lemma NewHeadlessRule_valid:
  "NewHeadlessRule lib nm o' = Inr rule \<Longrightarrow> HeadlessRule_IsValid o' = Inr True"
  "NewHeadlessSubRules lib nm os = Inr rules \<Longrightarrow> LogicalHeadlessRule_all_valid os = Inr True"
  by (induction lib nm o' and lib nm os arbitrary: rule and rules rule: NewHeadlessRule_NewHeadlessSubRules.induct)
    (auto simp: bind_result_Inr_iff LogicalHeadlessRule_IsValid_def split: if_splits)

lemma NewHeadlessRule_loaded:
  "NewHeadlessRule lib nm o' = Inr rule \<Longrightarrow> plain o' \<Longrightarrow> normalised o' \<Longrightarrow> has_items rule \<Longrightarrow>
     NewHeadlessRule lib nm (loaded lib o') = Inr rule"
  "NewHeadlessSubRules lib nm os = Inr rules \<Longrightarrow> list_all plain os \<Longrightarrow> list_all normalised os \<Longrightarrow> list_all has_items rules \<Longrightarrow>
     NewHeadlessSubRules lib nm (map (loaded lib) os) = Inr rules"
proof (induction lib nm o' and lib nm os arbitrary: rule and rules rule: NewHeadlessRule_NewHeadlessSubRules.induct)
  case (1 lib nm ty options mode rules inverted)
  show ?case
  proof (cases "ty = RuleTypeDefault")
    case True
    then obtain r where r: "NewDefaultHeadlessRule lib nm options = Inr r" "rule = DefaultHeadlessRule r"
      using 1(2) by (auto simp: bind_result_Inr_iff split: if_splits)
    have loaded: "NewDefaultHeadlessRule lib nm (loaded_default lib options) = Inr r"
      using 1(3) True by (intro NewDefaultHeadlessRule_loaded [OF _ r(1)]) simp
    have "DefaultHeadlessRule_IsValid (loaded_default lib options)"
      using invalid_no_items [of "loaded_default lib options" lib nm] loaded 1(5) r(2)
      by (cases "DefaultHeadlessRule_IsValid (loaded_default lib options)") (auto simp: new_rule_def)
    then show ?thesis
      using loaded True r(2) by simp
  next
    case False
    then have logical: "ty = RuleTypeLogical" "\<not> (ty = [] \<or> ty = RuleTypeDefault)" "list_all normalised rules" "list_all plain rules"
      using 1(3,4) by (auto simp: RuleTypeLogical_def)
    then obtain rs where rs: "NewHeadlessSubRules lib nm rules = Inr rs" "rules \<noteq> []"
      "mode = LogicalTypeAnd \<or> mode = LogicalTypeOr" "rule = LogicalHeadlessRule mode rs inverted"
      using 1(2) by (auto simp: bind_result_Inr_iff LogicalHeadlessRule_IsValid_def split: if_splits)
    have "NewHeadlessSubRules lib nm (map (loaded lib) rules) = Inr rs"
      using 1(1) [OF logical(2,1), of True rs] 1(5) rs logical(3,4) by simp
    then show ?thesis
      using NewHeadlessRule_valid(2) rs logical(1,2) by (simp add: LogicalHeadlessRule_IsValid_def)
  qed
next
  case (3 lib nm subRule rest)
  then show ?case
    by (auto simp: bind_result_Inr_iff)
qed simp

lemma parse_rules_loaded:
  "parse_rule_set_rules lib nm os = Inr rules \<Longrightarrow> list_all plain os \<Longrightarrow> list_all normalised os \<Longrightarrow> list_all has_items rules \<Longrightarrow>
     parse_rule_set_rules lib nm (map (loaded lib) os) = Inr rules"
  by (induction os arbitrary: rules) (auto simp: bind_result_Inr_iff NewHeadlessRule_loaded(1))

lemma written_normalised:
  "writeRule lib sl v o' = Inr bs \<Longrightarrow> normalised o'"
  "write_rules lib sl v os = Inr bs \<Longrightarrow> list_all normalised os"
  by (induction lib sl v o' and lib sl v os arbitrary: bs and bs rule: writeRule_write_rules.induct)
    (auto simp: bind_result_Inr_iff split: if_splits)

lemma has_headless_loaded:
  assumes "\<And>o'. plain_default o' \<Longrightarrow> cond (loaded_default lib o') = cond o'"
  shows "plain o' \<Longrightarrow> normalised o' \<Longrightarrow> has_headless_rule cond (loaded lib o') = has_headless_rule cond o'"
proof (induction o')
  case (HeadlessRuleOptions ty options mode rules inverted)
  then show ?case
    using assms by (auto simp: list_all_iff list_ex_iff)
qed

lemma metadata_loaded:
  assumes "list_all plain os" and "list_all normalised os"
  shows "buildRuleSetMetadata (map (loaded lib) os) = buildRuleSetMetadata os"
proof -
  have "HasHeadlessRule (map (loaded lib) os) cond = HasHeadlessRule os cond"
    if "\<And>o'. plain_default o' \<Longrightarrow> cond (loaded_default lib o') = cond o'" for cond
    using assms has_headless_loaded [of cond lib, OF that] by (auto simp: HasHeadlessRule_def list_all_iff list_ex_iff)
  then show ?thesis
    unfolding buildRuleSetMetadata_def
    by (simp add: isProcessHeadlessRule_def isWIFIHeadlessRule_def isIPCIDRHeadlessRule_def isDNSQueryTypeHeadlessRule_def
        loaded_default_def ipset_of_None plain_default_def)
qed

section \<open>Compiled rule sets\<close>

text \<open>C37: Loading a compiled rule set gives the rule set of its source: the rules that are built, and the metadata, are those
  of the options that were compiled, whatever the validator and the callbacks do.\<close>

theorem compiled_rule_set:
  assumes "srs_laws lib sl" and "list_all plain rules" and "generateVersion \<in> {2, 3, 4, 5}"
    and "srs_content lib sl rules generateVersion = Inr content" and "small content"
    and "srs_Write lib sl rules generateVersion = Inr data"
    and "parse_rule_set_rules lib (ctx_NetworkManager ctx) rules = Inr built" and "list_all has_items built"
    and "ls_fileFormat s = RuleSetFormatBinary"
  shows "reloadFile lib ctx \<lparr>decode_source = source, decode_binary = srs_Read lib sl False\<rparr> (Inr data) s = reloadRules lib ctx rules s"
proof -
  have "srs_Read lib sl False data = Inr \<lparr>prs_Version = generateVersion, prs_Rules = map (loaded lib) rules\<rparr>"
    by (rule srs_Read_Write [OF assms(1-6)])
  moreover have "list_all normalised rules"
    using assms(4) written_normalised(2) by (auto simp: srs_content_def bind_result_Inr_iff)
  then have "parse_rule_set_rules lib (ctx_NetworkManager ctx) (map (loaded lib) rules) = Inr built"
      "buildRuleSetMetadata (map (loaded lib) rules) = buildRuleSetMetadata rules"
    using assms(2,7,8) parse_rules_loaded metadata_loaded by blast+
  then have "prepare_rules lib ctx tag (map (loaded lib) rules) = prepare_rules lib ctx tag rules" for tag
    using assms(7) by (simp add: prepare_rules_def)
  ultimately show ?thesis
    using assms(3,9)
    by (auto simp: reloadFile_def reloadRules_def PlainRuleSetCompat_Upgrade_def RuleSetFormatBinary_def RuleSetFormatSource_def)
qed

section \<open>The fuel is enough\<close>

fun fuel_error :: "err \<Rightarrow> bool" where
  "fuel_error (Cause m e) \<longleftrightarrow> fuel_error e"
| "fuel_error e \<longleftrightarrow> e = out_of_fuel"

text \<open>A reader that, on an input of fewer than \<open>n\<close> bytes, does not run out of fuel and leaves no more than it was given.\<close>

definition reads :: "nat \<Rightarrow> (reader \<Rightarrow> ('a \<times> reader) result) \<Rightarrow> bool" where
  "reads n f \<longleftrightarrow> (\<forall>r. length r < n \<longrightarrow> (case f r of Inl e \<Rightarrow> \<not> fuel_error e | Inr (x, r') \<Rightarrow> length r' \<le> length r))"

named_theorems reads_intros \<open>readers that do not run out of fuel\<close>

lemma reads_return [reads_intros]: "reads n (\<lambda>r. Inr (x, r))"
  by (simp add: reads_def)

lemma reads_error [reads_intros]: "\<not> fuel_error e \<Longrightarrow> reads n (\<lambda>r. Inl e)"
  by (simp add: reads_def)

lemma reads_if [reads_intros]: "reads n f \<Longrightarrow> reads n g \<Longrightarrow> reads n (\<lambda>r. if b then f r else g r)"
  by (simp add: reads_def)

lemma reads_make [reads_intros]: "reads n f \<Longrightarrow> reads n (\<lambda>r. bind_result (make_slice k l) (\<lambda>_. f r))"
  by (simp add: reads_def make_slice_def out_of_fuel_def)

lemma reads_bind [reads_intros]:
  assumes "reads n f" and "\<And>x. reads n (g x)"
  shows "reads n (\<lambda>r. bind_result (f r) (\<lambda>(x, r). g x r))"
  unfolding reads_def
proof (intro allI impI)
  fix r :: reader
  assume r: "length r < n"
  show "case bind_result (f r) (\<lambda>(x, r). g x r) of Inl e \<Rightarrow> \<not> fuel_error e | Inr (x, r') \<Rightarrow> length r' \<le> length r"
  proof (cases "f r")
    case (Inl e)
    then show ?thesis using assms(1) r by (auto simp: reads_def)
  next
    case (Inr y)
    obtain x r1 where y: "y = (x, r1)" by (cases y)
    then have "length r1 \<le> length r"
      using assms(1) r Inr by (auto simp: reads_def)
    then show ?thesis
      using assms(2) [of x, unfolded reads_def, rule_format, of r1] Inr y r by (auto split: sum.splits)
  qed
qed

lemma reads_cause [reads_intros]:
  assumes "reads n f"
  shows "reads n (\<lambda>r. with_cause msg (f r))"
  unfolding reads_def
proof (intro allI impI)
  fix r :: reader
  assume "length r < n"
  then have "case f r of Inl e \<Rightarrow> \<not> fuel_error e | Inr (x, r') \<Rightarrow> length r' \<le> length r"
    using assms by (simp add: reads_def)
  then show "case with_cause msg (f r) of Inl e \<Rightarrow> \<not> fuel_error e | Inr (x, r') \<Rightarrow> length r' \<le> length r"
  proof (cases "f r")
    case (Inl e)
    with \<open>case f r of Inl e \<Rightarrow> \<not> fuel_error e | Inr (x, r') \<Rightarrow> length r' \<le> length r\<close> show ?thesis
      by (cases e) (simp_all add: out_of_fuel_def)
  qed simp
qed

lemma reads_byte [reads_intros]: "reads n ReadByte"
  by (auto simp: reads_def ReadByte_def EOF_def out_of_fuel_def split: list.split)

lemma reads_after_byte:
  assumes "\<And>b. reads n (g b)"
  shows "reads (Suc n) (\<lambda>r. bind_result (ReadByte r) (\<lambda>(b, r). g b r))"
  unfolding reads_def
proof (intro allI impI)
  fix r :: reader
  assume "length r < Suc n"
  then show "case bind_result (ReadByte r) (\<lambda>(b, r). g b r) of Inl e \<Rightarrow> \<not> fuel_error e | Inr (x, r') \<Rightarrow> length r' \<le> length r"
    using assms [of "hd r"] by (cases r) (auto simp: reads_def EOF_def out_of_fuel_def split: sum.splits)
qed

lemma reads_full [reads_intros]: "reads n (ReadFull k)"
  by (simp add: reads_def ReadFull_def EOF_def ErrUnexpectedEOF_def out_of_fuel_def)

lemma reads_uvarint [reads_intros]: "reads n binary_ReadUvarint"
proof -
  have "case uvarint_loop i x r of Inl e \<Rightarrow> \<not> fuel_error e | Inr (x, r') \<Rightarrow> length r' \<le> length r" for i x r
    by (induction i x r rule: uvarint_loop.induct)
      (auto simp: uvarint_overflow_def EOF_def ErrUnexpectedEOF_def out_of_fuel_def split: sum.splits)
  then show ?thesis by (simp add: reads_def binary_ReadUvarint_def)
qed

lemma reads_read_n [reads_intros]: "reads n f \<Longrightarrow> reads n (read_n k f)"
proof (induction k)
  case (Suc k)
  then show ?case
    unfolding read_n.simps by (intro reads_intros)
qed (simp add: reads_def)

lemma reads_lists [reads_intros]:
  "reads n readRuleItemString" "reads n readRuleItemUint8" "reads n readRuleItemUint16" "reads n (read_prefixes lib)"
  "reads n (readIPSet lib)" "reads n (read_entries lib)"
  unfolding readRuleItemString_def readRuleItemUint8_def readRuleItemUint16_def read_prefixes_def readIPSet_def read_entries_def
    read_string_def readPrefix_def read_range_def read_entry_def read_addr_def
  by (intro reads_intros; simp add: ErrInvalid_def out_of_fuel_def)+

text \<open>What reading relies on to return: the readers of matchers return, and leave no more than they were given; so does the
  decompression.\<close>

definition readers_return :: "srslib \<Rightarrow> bool" where
  "readers_return sl \<longleftrightarrow> (\<forall>n. reads n (ReadMatcher sl) \<and> reads n (ReadAdGuardMatcher sl)) \<and>
     (\<forall>bs e. zlib_Decompress sl bs = Inl e \<longrightarrow> \<not> fuel_error e)"

lemma reads_split: "(\<And>a b. reads n (f a b)) \<Longrightarrow> reads n (case x of (a, b) \<Rightarrow> f a b)"
  by (cases x) simp

lemma reads_item:
  assumes "readers_return sl"
  shows "reads n (read_item lib sl recover itemType rule)"
proof -
  have "reads n (ReadMatcher sl)" "reads n (ReadAdGuardMatcher sl)"
    using assms by (simp_all add: readers_return_def)
  then show ?thesis
    unfolding read_item_def Let_def
    by (intro reads_intros reads_split) (simp_all add: out_of_fuel_def)
qed

lemma reads_items: "readers_return sl \<Longrightarrow> reads fuel (read_items lib sl recover fuel rule)"
proof (induction fuel arbitrary: rule)
  case (Suc fuel)
  then show ?case
    unfolding read_items.simps by (intro reads_after_byte reads_intros reads_item)
qed (simp add: reads_def)

lemma reads_after:
  "(\<And>x. v = Inr x \<Longrightarrow> reads n (f x)) \<Longrightarrow> (\<And>e. v = Inl e \<Longrightarrow> \<not> fuel_error e) \<Longrightarrow> reads n (\<lambda>r. bind_result v (\<lambda>x. f x r))"
  by (cases v) (auto simp: reads_def)

lemma reads_logical:
  assumes "reads n f"
  shows "reads n (readLogicalRule f)"
  unfolding readLogicalRule_def
proof (rule reads_bind [OF reads_byte], rule reads_after, rule reads_bind [OF reads_uvarint])
  show "reads n (\<lambda>r. bind_result (make_slice headless_rule_size len) (\<lambda>_.
      bind_result (read_n (unat len) (\<lambda>r. with_cause ''read logical rule ['' (f r)) r) (\<lambda>(rules, r).
      bind_result (ReadByte r) (\<lambda>(b, r). Inr ((mode, rules, b \<noteq> 0), r)))))" for len mode
    using assms by (intro reads_intros)
qed (auto simp: out_of_fuel_def split: if_splits)

lemma readRule_fuel: "readers_return sl \<Longrightarrow> reads fuel (readRule lib sl recover fuel)"
proof (induction fuel)
  case (Suc fuel)
  then show ?case
    unfolding readRule.simps readDefaultRule_def
    by (intro reads_after_byte reads_if reads_bind reads_items reads_logical reads_return reads_split reads_error)
      (simp_all add: out_of_fuel_def)
qed (simp add: reads_def)

text \<open>C38: Reading a compiled rule set returns on every file: no loop of the reader and no nesting of rules uses up the fuel,
  which is one more than the bytes that are left.\<close>

theorem srs_Read_returns:
  assumes "readers_return sl"
  shows "case srs_Read lib sl recover data of Inl e \<Rightarrow> \<not> fuel_error e | Inr _ \<Rightarrow> True"
proof -
  let ?rule = "\<lambda>r. with_cause ''read rule['' (readRule lib sl recover (Suc (length r)) r)"
  have rule: "reads n ?rule" for n
    unfolding reads_def
  proof (intro allI impI)
    fix r :: reader
    have "reads (Suc (length r)) (\<lambda>x. with_cause ''read rule['' (readRule lib sl recover (Suc (length r)) x))"
      using readRule_fuel [OF assms] by (intro reads_cause)
    then show "case ?rule r of Inl e \<Rightarrow> \<not> fuel_error e | Inr (x, r') \<Rightarrow> length r' \<le> length r"
      by (simp add: reads_def)
  qed
  have content: "reads n (\<lambda>r. bind_result (binary_ReadUvarint r) (\<lambda>(len, r). bind_result (make_slice headless_rule_size len) (\<lambda>_.
      bind_result (read_n (unat len) ?rule r) (\<lambda>(rules, r). Inr (rules, r)))))" for n
    by (intro reads_bind reads_uvarint reads_make reads_read_n rule reads_return)
  have returns: "case bind_result (binary_ReadUvarint r) (\<lambda>(len, r). bind_result (make_slice headless_rule_size len) (\<lambda>_.
      bind_result (read_n (unat len) ?rule r) (\<lambda>(rules, r). Inr (f rules)))) of Inl e \<Rightarrow> \<not> fuel_error e | Inr _ \<Rightarrow> True"
    for r and f :: "HeadlessRuleOptions list \<Rightarrow> PlainRuleSetCompat"
    using content [of "Suc (length r)", unfolded reads_def, rule_format, of r]
    by (auto simp: bind_result_def split: sum.splits prod.splits)
  have "case bind_result (zlib_Decompress sl r) (\<lambda>r. bind_result (binary_ReadUvarint r) (\<lambda>(len, r). bind_result (make_slice headless_rule_size len) (\<lambda>_.
      bind_result (read_n (unat len) ?rule r) (\<lambda>(rules, r). Inr (f rules))))) of Inl e \<Rightarrow> \<not> fuel_error e | Inr _ \<Rightarrow> True"
    for r and f :: "HeadlessRuleOptions list \<Rightarrow> PlainRuleSetCompat"
    using returns assms by (cases "zlib_Decompress sl r") (auto simp: readers_return_def)
  then show ?thesis
    unfolding srs_Read_def
    by (cases "ReadFull 3 data") (auto simp: ReadFull_def ReadByte_def EOF_def ErrUnexpectedEOF_def out_of_fuel_def split: list.splits if_splits)
qed

section \<open>A library\<close>

text \<open>A library that keeps the laws: no compression, matchers written as their lists, and IP sets as lists of ranges.\<close>

fun range_of :: "prefix + addr \<Rightarrow> addr \<times> addr" where
  "range_of (Inl p) = (addr_withoutZone (prefix_Addr p), broadcastAddress p)"
| "range_of (Inr a) = (addr_withoutZone a, addr_withoutZone a)"

fun addr_le :: "addr \<Rightarrow> addr \<Rightarrow> bool" where
  "addr_le (Addr4 a) (Addr4 b) = (a \<le> b)"
| "addr_le (Addr6 a _) (Addr6 b _) = (a \<le> b)"
| "addr_le _ _ = False"

definition ranges_contain :: "(addr \<times> addr) list \<Rightarrow> ipset" where
  "ranges_contain rr a = list_ex (\<lambda>(from, to). addr_le from a \<and> addr_le a to) rr"

definition sample_srs_golib :: golib where
  "sample_srs_golib = sample_lib\<lparr>
     AddrFromIP := (\<lambda>bs. if length bs = 4 then Addr4 (of_nat (be_nat bs))
                         else if length bs = 16 then Addr6 (of_nat (be_nat bs)) [] else AddrInvalid),
     IPSetBuilder := (\<lambda>es. Inr (ranges_contain (map range_of es)))\<rparr>"

definition write_list :: "string list \<Rightarrow> byte list" where
  "write_list vs = WriteUvarint (of_nat (length vs)) @ concat (map write_string vs)"

definition sample_Matcher_Write :: "string list \<Rightarrow> string list \<Rightarrow> bool \<Rightarrow> byte list" where
  "sample_Matcher_Write ds ss legacy = write_list ds @ write_list ss"

definition sample_ReadMatcher :: "reader \<Rightarrow> ((matcher \<times> string list \<times> string list) \<times> reader) result" where
  "sample_ReadMatcher r = bind_result (readRuleItemString r) (\<lambda>(ds, r). bind_result (readRuleItemString r) (\<lambda>(ss, r).
     Inr ((NewMatcher sample_srs_golib ds ss, ds, ss), r)))"

definition sample_ReadAdGuardMatcher :: "reader \<Rightarrow> ((matcher \<times> string list) \<times> reader) result" where
  "sample_ReadAdGuardMatcher r = bind_result (readRuleItemString r) (\<lambda>(ls, r). Inr ((NewAdGuardMatcher sample_srs_golib ls, ls), r))"

definition sample_srslib :: srslib where
  "sample_srslib = \<lparr>
     zlib_Compress = id, zlib_Decompress = Inr, Matcher_Write = sample_Matcher_Write, ReadMatcher = sample_ReadMatcher,
     AdGuardMatcher_Write = write_list, ReadAdGuardMatcher = sample_ReadAdGuardMatcher,
     IPSet_Ranges = (\<lambda>es. Inr (map range_of es)), Ranges_IPSet = ranges_contain, Ranges_Prefixes = (\<lambda>_. [])\<rparr>"

lemmas sample_srslib_defs = sample_srslib_def sample_Matcher_Write_def sample_ReadMatcher_def sample_ReadAdGuardMatcher_def

lemma read_list: "small (write_list vs) \<Longrightarrow> readRuleItemString (write_list vs @ r) = Inr (vs, r)"
  using strings_read [of vs r] by (simp add: write_list_def small_def)

lemma range_of_zones: "\<not> addr_hasZone (fst (range_of e)) \<and> \<not> addr_hasZone (snd (range_of e))"
proof -
  have "\<not> addr_hasZone (addr_withoutZone a)" for a
    by (cases a) simp_all
  moreover have "\<not> addr_hasZone (broadcastAddress p)" for p
    by (simp add: broadcastAddress_def split: addr.split)
  ultimately show ?thesis
    by (cases e) simp_all
qed

lemma sample_address_law: "address_law sample_srs_golib"
proof -
  have "AddrFromIP sample_srs_golib (addr_AsSlice a) = a" if "\<not> addr_hasZone a" for a
  proof (cases a)
    case (Addr4 w)
    then show ?thesis using take_bit_unat [of w] by (simp add: sample_srs_golib_def be_nat_word_bytes)
  next
    case (Addr6 w z)
    then show ?thesis using that take_bit_unat [of w] by (simp add: sample_srs_golib_def be_nat_word_bytes)
  qed (simp add: sample_srs_golib_def)
  then show ?thesis by (simp add: address_law_def)
qed

lemma sample_srs_laws: "srs_laws sample_srs_golib sample_srslib"
  unfolding srs_laws_def
proof (intro conjI allI impI)
  fix ds ss r
  assume "small (Matcher_Write sample_srslib ds ss False)"
  then have "small (write_list ds)" "small (write_list ss)"
    by (simp_all add: sample_srslib_defs small_def)
  then show "\<exists>dump. ReadMatcher sample_srslib (Matcher_Write sample_srslib ds ss False @ r) = Inr ((NewMatcher sample_srs_golib ds ss, dump), r)"
    by (simp add: sample_srslib_defs read_list)
next
  fix ls r
  assume "small (AdGuardMatcher_Write sample_srslib ls)"
  then show "\<exists>dump. ReadAdGuardMatcher sample_srslib (AdGuardMatcher_Write sample_srslib ls @ r) = Inr ((NewAdGuardMatcher sample_srs_golib ls, dump), r)"
    by (simp add: sample_srslib_defs read_list)
next
  fix es rr
  assume "IPSet_Ranges sample_srslib es = Inr rr"
  then show "\<forall>(from, to) \<in> set rr. \<not> addr_hasZone from \<and> \<not> addr_hasZone to"
    by (clarsimp simp: sample_srslib_def) (metis range_of_zones fst_conv snd_conv)
qed (simp_all add: sample_address_law, simp_all add: sample_srslib_def sample_srs_golib_def)

lemma sample_readers_return: "readers_return sample_srslib"
proof -
  have "reads n (ReadMatcher sample_srslib)" for n
    unfolding sample_srslib_defs srslib.select_convs by (intro reads_bind reads_lists reads_return)
  moreover have "reads n (ReadAdGuardMatcher sample_srslib)" for n
    unfolding sample_srslib_defs srslib.select_convs by (intro reads_bind reads_lists reads_return)
  ultimately show ?thesis
    unfolding readers_return_def by (simp add: sample_srslib_def)
qed

theorem srs_Read_returns_witness:
  "case srs_Read sample_srs_golib sample_srslib True [0x53, 0x52, 0x53, 3, 1, 0, 1, 200] of Inl e \<Rightarrow> \<not> fuel_error e | Inr _ \<Rightarrow> True"
  using srs_Read_returns [OF sample_readers_return] .

definition sample_local :: LocalRuleSet where
  "sample_local = \<lparr>ls_tag = ''set'', ls_rules = [], ls_metadata = RuleSetMetadata_zero, ls_fileFormat = RuleSetFormatBinary,
     ls_watcher = False, ls_callbacks = [], ls_refs = 0\<rparr>"

theorem compiled_rule_set_witness:
  "\<exists>data. srs_Write sample_srs_golib sample_srslib [sample_headless_options] 3 = Inr data \<and>
     reloadFile sample_srs_golib sample_ctx \<lparr>decode_source = \<lambda>_. Inl EOF, decode_binary = srs_Read sample_srs_golib sample_srslib False\<rparr>
       (Inr data) sample_local = reloadRules sample_srs_golib sample_ctx [sample_headless_options] sample_local"
proof -
  have "case srs_content sample_srs_golib sample_srslib [sample_headless_options] 3 of Inl _ \<Rightarrow> False | Inr content \<Rightarrow> length content < 200"
    by code_simp
  then obtain content where content: "srs_content sample_srs_golib sample_srslib [sample_headless_options] 3 = Inr content" "small content"
    by (auto simp: small_def split: sum.splits)
  then obtain data where data: "srs_Write sample_srs_golib sample_srslib [sample_headless_options] 3 = Inr data"
    by (simp add: srs_Write_def)
  have "case parse_rule_set_rules sample_srs_golib True [sample_headless_options] of Inl _ \<Rightarrow> False | Inr built \<Rightarrow> list_all has_items built"
    by code_simp
  then obtain built where built: "parse_rule_set_rules sample_srs_golib (ctx_NetworkManager sample_ctx) [sample_headless_options] = Inr built"
      "list_all has_items built"
    by (auto simp: sample_ctx_def split: sum.splits)
  have "list_all plain [sample_headless_options]"
    by (simp add: sample_headless_options_def plain_default_def headless_options_zero_def RuleTypeLogical_def RuleTypeDefault_def slice_def)
  then show ?thesis
    using compiled_rule_set [OF sample_srs_laws _ _ content data built] data by (auto simp: sample_local_def)
qed

section \<open>Lengths are not checked\<close>

text \<open>C39: A file that claims more rules than fit into the address space makes the reader panic, whatever follows: the length
  is used to make the slice of rules before any rule is read.\<close>

theorem srs_Read_panics:
  assumes "zlib_Decompress sl compressed = Inr (WriteUvarint n @ r)" and "2 ^ 48 < unat n * 648" and "version \<le> 5"
  shows "is_panic (srs_Read lib sl recover (MagicBytes @ version # compressed))"
  using assms by (simp add: srs_Read_def MagicBytes_def ReadFull_def RuleSetVersionCurrent_def make_slice_def maxAlloc_def
      headless_rule_size_def not_less)

theorem srs_Read_panics_witness:
  "is_panic (srs_Read sample_srs_golib sample_srslib False (MagicBytes @ 3 # WriteUvarint 0x1000000000000000))"
  using srs_Read_panics [of sample_srslib "WriteUvarint 0x1000000000000000" "0x1000000000000000" "[]" 3]
  by (simp add: sample_srslib_def)

end
