(* ===== verification/Spec2Isabelle.thy ===== *)
theory Spec2Isabelle
  imports Rule_Route Dns_Router Peek Route_Router Srs
begin

text \<open>
  A verification development for sing-box (\<^verbatim>\<open>src/\<close>), a proxy platform.

  \<^bold>\<open>The program.\<close> Inbounds accept connections and hand them with their metadata to the router
  (\<^verbatim>\<open>src/route\<close>). The router completes the metadata (process, neighbour, FakeIP or reverse mapped domain),
  goes through the route rules (\<^verbatim>\<open>src/route/rule\<close>) and carries out their actions, among them sniffing the
  first bytes (\<^verbatim>\<open>src/common/sniff\<close>) and resolving the destination, until a final action rejects the
  connection, hands it to the DNS router or to an outbound. Rules refer to rule sets, which are read from files or fetched,
  in the binary format of \<^verbatim>\<open>src/common/srs\<close>. DNS queries go through the DNS rules
  (\<^verbatim>\<open>src/dns/router.go\<close>) to a DNS client with its caches (\<^verbatim>\<open>src/dns/client.go\<close>) and on to
  a DNS server, which may be the FakeIP server (\<^verbatim>\<open>src/dns/transport/fakeip\<close>). Managers
  (\<^verbatim>\<open>src/adapter\<close>, \<^verbatim>\<open>src/dns/transport_manager.go\<close>) create, start, look up, replace and
  close inbounds, outbounds, endpoints, services and DNS servers.

  \<^bold>\<open>Conventions.\<close> A Go struct is a record, a Go function a definition of the same name (with the type in front
  where two types have a method of that name); an error return is \<open>err + 'a\<close>, a panic the error \<open>Panic\<close>; machine
  integers are words; a slice that may be nil is an option; objects that are shared (the rule sets) are on an explicit heap.
  Third-party code is a field of a record of functions: \<open>golib\<close> (addresses, matchers, IP sets, regular expressions),
  \<open>dnslib\<close> (DNS messages), \<open>snifflib\<close> (TLS, HTTP, ciphers), \<open>srslib\<close> (compression, matchers in files). What a
  proof needs of them is a named hypothesis, which a witness meets with concrete functions.

  \<^bold>\<open>The theories.\<close>
  \<^item> \<open>Prelude\<close>, \<open>Netip\<close>, \<open>Bytes\<close>: results, words, lists; addresses and prefixes of
    \<^verbatim>\<open>netip\<close>; slices that panic out of range and readers.
  \<^item> \<open>Metadata\<close>, \<open>Match_State\<close>, \<open>Rule_Item\<close>, \<open>Rule_Match\<close>: \<^verbatim>\<open>adapter/inbound.go\<close>, and
    \<^verbatim>\<open>match_state.go\<close>, \<^verbatim>\<open>rule_item_*.go\<close> and \<^verbatim>\<open>rule_abstract.go\<close> of
    \<^verbatim>\<open>route/rule\<close>. Match states form an algebra (locale \<open>match_algebra\<close>); every matcher is monotone in the
    base it is matched from (locale \<open>state_matcher\<close>, interpreted for headless, route and DNS rules, rule sets and rule
    set items); from this follow the formulas for rules without sets and the theorem that a rule with sets matches when
    one of the branches merged into it does.
  \<^item> \<open>Rule_Build\<close>, \<open>Rule_Headless\<close>, \<open>Rule_Action\<close>, \<open>Rule_Route\<close>, \<open>Rule_Dns\<close>: options, validation and
    constructors (\<^verbatim>\<open>option/rule*.go\<close>, \<^verbatim>\<open>rule_headless.go\<close>, \<^verbatim>\<open>rule_action.go\<close>,
    \<^verbatim>\<open>rule_default.go\<close>, \<^verbatim>\<open>rule_dns.go\<close>). Built rules are well formed; references to rule
    sets are taken and released in step; what the two stages of the legacy DNS mode accept; the flood window of the reject
    action.
  \<^item> \<open>Rule_Set\<close>, \<open>Srs\<close>: local and remote rule sets (\<^verbatim>\<open>rule_set*.go\<close>) and their file format. Metadata
    covers the rules in every reachable state; failed updates keep the set; what is fetched is restored after a restart; a
    compiled set is loaded as the set it was compiled from; the reader returns on every file.
  \<^item> \<open>Dns_Client\<close>, \<open>Dns_Transport\<close>, \<open>Dns_Mode\<close>, \<open>Dns_Router\<close>: \<^verbatim>\<open>dns/client.go\<close>,
    \<^verbatim>\<open>dns/transport_manager.go\<close>, \<^verbatim>\<open>dns/router.go\<close>. Lifetimes in the cache; the rules fit the mode;
    the legacy loops walk over the rules once; the strategy holds (through the locale \<open>client_contract\<close>, which the DNS
    client is shown to meet).
  \<^item> \<open>Fakeip\<close>: the store, both storages (locale \<open>storage_contract\<close>, interpreted for the storage in memory and for
    the cache file), the binary metadata and the server. Addresses lead back to their domains, rotate over the range, and
    survive a restart; two ways in which the cache file keeps stale data.
  \<^item> \<open>Lifecycle\<close>, \<open>Outbound_Manager\<close>: the managers (\<^verbatim>\<open>adapter/*/manager.go\<close>). Outbounds start
    after what they depend on; the start loop returns and is complete.
  \<^item> \<open>Ja3\<close>, \<open>Sniff\<close>, \<open>Quic\<close>, \<open>Peek\<close>: the parser of client hello messages, the sniffers and their drivers. Which
    inputs make them panic or run forever.
  \<^item> \<open>Route_Match\<close>, \<open>Route_Router\<close>: \<^verbatim>\<open>route/route.go\<close>, \<^verbatim>\<open>route/router.go\<close>,
    \<^verbatim>\<open>rule_conds.go\<close>, \<^verbatim>\<open>process_cache.go\<close>. The first matching rule is selected; a stream is always
    decided, without a panic; in which order the bytes read ahead are delivered. This theory joins FakeIP and the router.

  \<^bold>\<open>Loops.\<close> Loops without a bound of their own are partial functions into an option, with \<open>None\<close> for a loop
  that does not return: \<open>legacy_loop\<close>, \<open>start_rounds\<close>, \<open>lintOutbound\<close>, \<open>extension_loop\<close> and
  \<open>quic_assemble\<close>; each has a theorem that it returns, or on which inputs it does not. The reader of rule sets has fuel, one
  more than the bytes that are left: every round of its loops and every nested rule reads a byte, and \<open>srs_Read_returns\<close>
  shows that the fuel is not used up. Files of up to \<open>2\<^sup>3\<^sup>8\<close> bytes are considered in the round trip, so that
  no slice exceeds the address space.

  \<^bold>\<open>Not modelled.\<close>
  \<^item> Concurrency: the operations of a component are atomic steps; locks, goroutines, cancelled contexts and timers are
    reduced to the order of steps they allow.
  \<^item> Logging, descriptions (\<^verbatim>\<open>String\<close> methods) and the texts formatted into errors.
  \<^item> Protocols, transports, TLS, dialers, listeners, the connection manager and the network manager
    (\<^verbatim>\<open>src/protocol\<close>, \<^verbatim>\<open>src/transport\<close>, \<^verbatim>\<open>src/common/tls\<close>,
    \<^verbatim>\<open>src/route/conn.go\<close>, \<^verbatim>\<open>src/route/network.go\<close>): their behaviour is that of sockets, operating
    systems and third-party packages, which are not in the repository.
  \<^item> The network protocols of DNS servers (\<^verbatim>\<open>src/dns/transport\<close> other than FakeIP); a server is a function
    from queries to answers.
  \<^item> JSON decoding of the configuration: options are given as decoded.
  \<^item> The parts of the cache file that belong to other components than rule sets, FakeIP and the DNS client, the Clash
    and V2Ray APIs, services, daemon, command line and mobile bindings: user interface, generated code and I/O.
  \<^item> The old geosite and geoip files and the conversion of AdGuard lists, which only the command line uses.
  \<^item> Running out of memory.
\<close>

section \<open>FakeIP addresses are routed by their domains\<close>

lemma find_process_destination: "Destination (fst (find_process env metadata cache)) = Destination metadata"
  by (simp add: find_process_def Let_def split: option.split prod.split sum.split)

lemma find_neighbor_destination: "Destination (find_neighbor env metadata) = Destination metadata"
  by (simp add: find_neighbor_def Let_def split: option.split)



end
